theory Spec2Isabelle
  imports Complex_Main "HOL-Library.Multiset" "HOL-Library.Monad_Syntax"
    "HOL-Library.Product_Lexorder"
begin

section \<open>Numbers\<close>

text \<open>
  The program computes with Python floats and with float64 columns of pandas.
  Finite floats are modelled as real numbers: rounding error of the binary format
  is not part of the model, and a product or sum of finite values is finite.
  The special values of the format are modelled exactly where the program can
  produce them, see the type \<open>fl\<close> below.
\<close>

section \<open>tools.py: time-of-use cost of charging an electric vehicle\<close>

text \<open>
  A tariff block is \<open>((s, e), price)\<close>: the price applies to the hours
  \<open>s \<le> h % 24 < e\<close>.
\<close>

type_synonym tariff_block = "(int \<times> int) \<times> real"

text \<open>Python's \<open>h % 24\<close> on a float: the result has the sign of the divisor.\<close>

definition py_mod24 :: "real \<Rightarrow> real" where
  "py_mod24 x = x - 24 * of_int \<lfloor>x / 24\<rfloor>"

text \<open>
  The inner \<open>for\<close> loop of \<open>ev_tou_cost\<close>: the price of the first block that holds
  the hour, or \<open>None\<close> when the loop ends with \<open>matched = False\<close>.
\<close>

fun match_block :: "real \<Rightarrow> tariff_block list \<Rightarrow> real option" where
  "match_block hr [] = None"
| "match_block hr (((s, e), price) # bs) =
     (if py_mod24 hr \<ge> of_int s \<and> py_mod24 hr < of_int e then Some price
      else match_block hr bs)"

text \<open>The variables the \<open>while\<close> loop updates.\<close>

record ev_state =
  h :: real
  remaining :: real
  cost :: real

definition step_h :: real where
  "step_h = 0.25"

text \<open>One pass through the body of the \<open>while\<close> loop.\<close>

definition ev_body :: "real \<Rightarrow> tariff_block list \<Rightarrow> ev_state \<Rightarrow> ev_state" where
  "ev_body charger_kw tariff_blocks st =
     (case match_block (h st) tariff_blocks of
        Some price \<Rightarrow>
          (let use = min step_h (remaining st)
           in \<lparr>h = h st + step_h,
               remaining = remaining st - use,
               cost = cost st + price * charger_kw * use\<rparr>)
      | None \<Rightarrow> st\<lparr>h := h st + step_h\<rparr>)"

text \<open>
  \<open>while remaining > 1e-9\<close>. The loop need not end, so the result is an option:
  \<open>None\<close> is the run that never returns.
\<close>

partial_function (option) ev_while ::
  "real \<Rightarrow> tariff_block list \<Rightarrow> ev_state \<Rightarrow> real option" where
  "ev_while charger_kw tariff_blocks st =
     (if remaining st > 1 / 10 ^ 9
      then ev_while charger_kw tariff_blocks (ev_body charger_kw tariff_blocks st)
      else Some (cost st))"

definition ev_tou_cost :: "real \<Rightarrow> int \<Rightarrow> real \<Rightarrow> tariff_block list \<Rightarrow> real option" where
  "ev_tou_cost kwh_needed start_hour charger_kw tariff_blocks =
     ev_while charger_kw tariff_blocks
       \<lparr>h = of_int start_hour,
        remaining = kwh_needed / max charger_kw (1 / 10 ^ 9),
        cost = 0\<rparr>"

text \<open>An hour lies inside a block.\<close>

definition in_block :: "real \<Rightarrow> tariff_block \<Rightarrow> bool" where
  "in_block hr b = (py_mod24 hr \<ge> of_int (fst (fst b)) \<and> py_mod24 hr < of_int (snd (fst b)))"

datatype fl = Fin real | PInf | NInf | NaN

definition inf_of_sign :: "real \<Rightarrow> fl" where
  "inf_of_sign s = (if s > 0 then PInf else if s < 0 then NInf else NaN)"

fun fl_sgn :: "fl \<Rightarrow> real" where
  "fl_sgn (Fin a) = sgn a"
| "fl_sgn PInf = 1"
| "fl_sgn NInf = - 1"
| "fl_sgn NaN = 0"

fun fl_neg :: "fl \<Rightarrow> fl" where
  "fl_neg (Fin a) = Fin (- a)"
| "fl_neg PInf = NInf"
| "fl_neg NInf = PInf"
| "fl_neg NaN = NaN"

fun fl_add :: "fl \<Rightarrow> fl \<Rightarrow> fl" where
  "fl_add (Fin a) (Fin b) = Fin (a + b)"
| "fl_add NaN _ = NaN"
| "fl_add _ NaN = NaN"
| "fl_add PInf NInf = NaN"
| "fl_add NInf PInf = NaN"
| "fl_add PInf _ = PInf"
| "fl_add _ PInf = PInf"
| "fl_add NInf _ = NInf"
| "fl_add _ NInf = NInf"

definition fl_sub :: "fl \<Rightarrow> fl \<Rightarrow> fl" where
  "fl_sub a b = fl_add a (fl_neg b)"

fun fl_mul :: "fl \<Rightarrow> fl \<Rightarrow> fl" where
  "fl_mul (Fin a) (Fin b) = Fin (a * b)"
| "fl_mul NaN _ = NaN"
| "fl_mul _ NaN = NaN"
| "fl_mul a b = inf_of_sign (fl_sgn a * fl_sgn b)"

fun fl_div :: "fl \<Rightarrow> fl \<Rightarrow> fl" where
  "fl_div (Fin a) (Fin b) = (if b = 0 then inf_of_sign (sgn a) else Fin (a / b))"
| "fl_div NaN _ = NaN"
| "fl_div _ NaN = NaN"
| "fl_div (Fin a) _ = Fin 0"
| "fl_div a (Fin b) = inf_of_sign (fl_sgn a * (if b < 0 then - 1 else 1))"
| "fl_div _ _ = NaN"

fun fl_less :: "fl \<Rightarrow> fl \<Rightarrow> bool" where
  "fl_less NaN _ = False"
| "fl_less _ NaN = False"
| "fl_less (Fin a) (Fin b) = (a < b)"
| "fl_less NInf NInf = False"
| "fl_less NInf _ = True"
| "fl_less PInf _ = False"
| "fl_less _ PInf = True"
| "fl_less _ NInf = False"

fun fl_le :: "fl \<Rightarrow> fl \<Rightarrow> bool" where
  "fl_le NaN _ = False"
| "fl_le _ NaN = False"
| "fl_le a b = (\<not> fl_less b a)"

fun is_fin :: "fl \<Rightarrow> bool" where
  "is_fin (Fin r) = True"
| "is_fin _ = False"

fun fin_val :: "fl \<Rightarrow> real" where
  "fin_val (Fin r) = r"
| "fin_val _ = 0"

definition isna :: "fl \<Rightarrow> bool" where
  "isna v = (v = NaN)"

definition fl_min2 :: "fl \<Rightarrow> fl \<Rightarrow> fl" where
  "fl_min2 a b = (if fl_less b a then b else a)"

definition fl_max2 :: "fl \<Rightarrow> fl \<Rightarrow> fl" where
  "fl_max2 a b = (if fl_less a b then b else a)"

definition col_min :: "fl list \<Rightarrow> fl" where
  "col_min x = (case filter (\<lambda>v. \<not> isna v) x of [] \<Rightarrow> NaN | v # vs \<Rightarrow> fold fl_min2 vs v)"

definition col_max :: "fl list \<Rightarrow> fl" where
  "col_max x = (case filter (\<lambda>v. \<not> isna v) x of [] \<Rightarrow> NaN | v # vs \<Rightarrow> fold fl_max2 vs v)"

definition fillna :: "fl \<Rightarrow> fl list \<Rightarrow> fl list" where
  "fillna d x = map (\<lambda>v. if isna v then d else v) x"

definition replace :: "fl list \<Rightarrow> fl \<Rightarrow> fl list \<Rightarrow> fl list" where
  "replace olds new x = map (\<lambda>v. if v \<in> set olds then new else v) x"

definition clip_lower :: "fl \<Rightarrow> fl list \<Rightarrow> fl list" where
  "clip_lower lo x = map (\<lambda>v. if fl_less v lo then lo else v) x"

definition clip :: "fl \<Rightarrow> fl \<Rightarrow> fl list \<Rightarrow> fl list" where
  "clip lo hi x = map (\<lambda>v. if fl_less v lo then lo else if fl_less hi v then hi else v) x"

definition py_or :: "real option \<Rightarrow> real \<Rightarrow> real" where
  "py_or v d = (case v of None \<Rightarrow> d | Some x \<Rightarrow> if x = 0 then d else x)"

definition py_div :: "real \<Rightarrow> real \<Rightarrow> real option" where
  "py_div a b = (if b = 0 then None else Some (a / b))"

definition py_pow :: "real \<Rightarrow> int \<Rightarrow> real option" where
  "py_pow x n = (if x = 0 \<and> n < 0 then None else Some (x powi n))"

definition round_half_even :: "real \<Rightarrow> int" where
  "round_half_even y =
     (let f = \<lfloor>y\<rfloor>; d = y - of_int f
      in if d < 1 / 2 then f else if d > 1 / 2 then f + 1
         else if even f then f else f + 1)"

definition py_round1 :: "real \<Rightarrow> real" where
  "py_round1 x = of_int (round_half_even (x * 10)) / 10"

record Site =
  country :: string
  state :: "string option"
  county :: "string option"
  city :: "string option"
  zipcode :: "string option"
  lat :: "real option"
  lon :: "real option"
  building_type :: string
  floor_area_m2 :: "real option"
  annual_electricity_kwh :: "real option"
  annual_gas_therms :: "real option"

record ScenarioInput =
  site :: Site
  elec_rate_usd_per_kwh :: real
  gas_rate_usd_per_therm :: real
  demand_charge_usd_per_kw :: real
  discount_rate :: real
  analysis_years :: int
  grid_emissions_kgco2e_per_kwh :: real

definition solar_resource :: "real \<Rightarrow> real \<Rightarrow> (string \<times> real) list" where
  "solar_resource la lo = [(''GHI_kWhm2_day'', 4.2), (''Tamb_C'', 12.0)]"

definition pv_energy_yield_kw :: "real \<Rightarrow> real \<Rightarrow> real \<Rightarrow> real option \<Rightarrow> real option" where
  "pv_energy_yield_kw la lo system_kwdc kwh_per_kw_year =
     (case kwh_per_kw_year of
        Some k \<Rightarrow> Some (system_kwdc * k)
      | None \<Rightarrow> do {
          ghi \<leftarrow> map_of (solar_resource la lo) ''GHI_kWhm2_day'';
          Some (system_kwdc * (300 * ghi)) })"

definition pv_capex_usd :: "real \<Rightarrow> real \<Rightarrow> real" where
  "pv_capex_usd system_kwdc cost_per_kw = system_kwdc * cost_per_kw"

definition simple_payback :: "real \<Rightarrow> real \<Rightarrow> fl" where
  "simple_payback capex annual_savings =
     (if annual_savings > 0 then Fin (capex / annual_savings) else PInf)"

definition lcoe :: "real \<Rightarrow> real \<Rightarrow> real \<Rightarrow> real \<Rightarrow> int \<Rightarrow> fl option" where
  "lcoe capex annual_om annual_gen discount years = do {
     p \<leftarrow> py_pow (1 + discount) years;
     crf \<leftarrow> py_div (discount * p) (p - 1);
     Some (let aac = capex * crf + annual_om
           in if annual_gen \<le> 0 then PInf else Fin (aac / annual_gen)) }"

datatype option_label =
    Solar_PV real
  | Efficiency_LED_HVAC
  | Heat_Pump_Water_Heater
  | Transport_EV
  | Transport_mode_shift

record opt_row =
  Option :: option_label
  Category :: string
  Capex_USD :: fl
  Annual_Gen_kWh :: fl
  Annual_Savings_USD :: fl
  Simple_Payback_yr :: fl
  LCOE_USD_per_kWh :: fl
  CO2e_Reduction_tpy :: fl
  Practicality :: fl

definition option_rows :: "ScenarioInput \<Rightarrow> opt_row list option" where
  "option_rows scen = (
     let annual_kwh = py_or (annual_electricity_kwh (site scen)) 10000;
         pv_size_kw = max 1 (py_round1 (annual_kwh / 1400));
         la = py_or (lat (site scen)) 42.3;
         lo = py_or (lon (site scen)) (- 83.1);
         pv_capex = pv_capex_usd pv_size_kw 1800;
         pv_om = 0.015 * pv_capex;
         rate = elec_rate_usd_per_kwh scen
     in do {
       pv_gen \<leftarrow> pv_energy_yield_kw la lo pv_size_kw None;
       pv_lcoe \<leftarrow> lcoe pv_capex pv_om pv_gen (discount_rate scen) (analysis_years scen);
       Some (
         let annual_savings = min pv_gen annual_kwh * rate;
             payback = simple_payback pv_capex annual_savings;
             co2e_red = min pv_gen annual_kwh * grid_emissions_kgco2e_per_kwh scen;
             row_pv = \<lparr>Option = Solar_PV pv_size_kw, Category = ''generation'',
               Capex_USD = Fin pv_capex, Annual_Gen_kWh = Fin pv_gen,
               Annual_Savings_USD = Fin annual_savings, Simple_Payback_yr = payback,
               LCOE_USD_per_kWh = pv_lcoe, CO2e_Reduction_tpy = Fin (co2e_red / 1000),
               Practicality = Fin 0.8\<rparr>;
             eff_capex = 0.05 * pv_capex;
             eff_savings = 0.08 * annual_kwh * rate;
             row_eff = \<lparr>Option = Efficiency_LED_HVAC, Category = ''efficiency'',
               Capex_USD = Fin eff_capex, Annual_Gen_kWh = Fin 0,
               Annual_Savings_USD = Fin eff_savings,
               Simple_Payback_yr = simple_payback eff_capex eff_savings,
               LCOE_USD_per_kWh = NaN,
               CO2e_Reduction_tpy =
                 Fin ((0.08 * annual_kwh * grid_emissions_kgco2e_per_kwh scen) / 1000),
               Practicality = Fin 0.95\<rparr>;
             hpwh_capex = 2000;
             hpwh_kwh_savings = 1200;
             rows_hpwh = (if building_type (site scen) = ''residential'' then
               [\<lparr>Option = Heat_Pump_Water_Heater, Category = ''utilities'',
                 Capex_USD = Fin hpwh_capex, Annual_Gen_kWh = Fin 0,
                 Annual_Savings_USD = Fin (hpwh_kwh_savings * rate),
                 Simple_Payback_yr = simple_payback hpwh_capex (hpwh_kwh_savings * rate),
                 LCOE_USD_per_kWh = NaN,
                 CO2e_Reduction_tpy =
                   Fin ((hpwh_kwh_savings * grid_emissions_kgco2e_per_kwh scen) / 1000),
                 Practicality = Fin 0.9\<rparr>] else []);
             veh_vmt = 12000;
             mpg_gas = 25;
             gas_price = 3.5;
             ef_gas = 8.89;
             kwh_per_mile_bev = 0.30;
             elec_rate = elec_rate_usd_per_kwh scen;
             grid_ci = grid_emissions_kgco2e_per_kwh scen;
             gal_per_year = veh_vmt / mpg_gas;
             cost_gas = gal_per_year * gas_price;
             co2_gas_kg = gal_per_year * ef_gas;
             kwh_ev = veh_vmt * kwh_per_mile_bev;
             cost_ev = kwh_ev * elec_rate;
             co2_ev_kg = kwh_ev * grid_ci;
             ev_savings = max 0 (cost_gas - cost_ev);
             ev_co2_saved_kg = max 0 (co2_gas_kg - co2_ev_kg);
             ev_capex = 10000;
             row_ev = \<lparr>Option = Transport_EV, Category = ''transport'',
               Capex_USD = Fin ev_capex, Annual_Gen_kWh = Fin 0,
               Annual_Savings_USD = Fin ev_savings,
               Simple_Payback_yr = simple_payback ev_capex ev_savings,
               LCOE_USD_per_kWh = NaN,
               CO2e_Reduction_tpy = Fin (ev_co2_saved_kg / 1000),
               Practicality = Fin 0.7\<rparr>;
             mode_shift_frac = 0.25;
             vmt_shifted = veh_vmt * mode_shift_frac;
             gal_saved = vmt_shifted / mpg_gas;
             cost_saved_mode = gal_saved * gas_price * 0.8;
             co2_saved_mode_kg = gal_saved * ef_gas;
             mode_capex = 500;
             row_mode = \<lparr>Option = Transport_mode_shift, Category = ''transport'',
               Capex_USD = Fin mode_capex, Annual_Gen_kWh = Fin 0,
               Annual_Savings_USD = Fin cost_saved_mode,
               Simple_Payback_yr = simple_payback mode_capex cost_saved_mode,
               LCOE_USD_per_kWh = NaN,
               CO2e_Reduction_tpy = Fin (co2_saved_mode_kg / 1000),
               Practicality = Fin 0.85\<rparr>
         in [row_pv, row_eff] @ rows_hpwh @ [row_ev, row_mode]) })"

definition norm_min :: "fl list \<Rightarrow> fl list" where
  "norm_min x = map (\<lambda>v. fl_div (col_min x) v) (replace [Fin 0] NaN x)"

definition norm_max :: "fl list \<Rightarrow> fl list" where
  "norm_max x =
     map (\<lambda>v. fl_div (fl_sub v (col_min x))
                  (fl_add (fl_sub (col_max x) (col_min x)) (Fin (1 / 10 ^ 9)))) x"

definition col_scale :: "real \<Rightarrow> fl list \<Rightarrow> fl list" where
  "col_scale w x = map (\<lambda>v. fl_mul (Fin w) v) x"

definition col_add :: "fl list \<Rightarrow> fl list \<Rightarrow> fl list" where
  "col_add x y = map (\<lambda>(a, b). fl_add a b) (zip x y)"

record scored_row = opt_row +
  score_payback :: fl
  score_savings :: fl
  score_co2e :: fl
  score_practicality :: fl
  MCDA_Score_0to1 :: fl

definition w_payback :: real where "w_payback = 0.30"
definition w_savings :: real where "w_savings = 0.25"
definition w_co2e :: real where "w_co2e = 0.25"
definition w_practicality :: real where "w_practicality = 0.20"

definition mcda_scores :: "opt_row list \<Rightarrow> scored_row list" where
  "mcda_scores df = (
     let pb = map Simple_Payback_yr df;
         c_payback = norm_min (fillna (col_max pb) pb);
         c_savings = norm_max (fillna (Fin 0) (map Annual_Savings_USD df));
         c_co2e = norm_max (fillna (Fin 0) (map CO2e_Reduction_tpy df));
         c_practicality = norm_max (fillna (Fin 0) (map Practicality df));
         c_mcda = col_add (col_add (col_add (col_scale w_payback c_payback)
                                            (col_scale w_savings c_savings))
                                   (col_scale w_co2e c_co2e))
                          (col_scale w_practicality c_practicality)
     in map (\<lambda>i. opt_row.extend (df ! i)
                  (scored_row.fields (c_payback ! i) (c_savings ! i) (c_co2e ! i)
                     (c_practicality ! i) (c_mcda ! i)))
            [0 ..< length df])"

definition residential_default :: ScenarioInput where
  "residential_default =
     \<lparr>site = \<lparr>country = ''USA'', state = None, county = None, city = None, zipcode = None,
        lat = None, lon = None, building_type = ''residential'', floor_area_m2 = None,
        annual_electricity_kwh = None, annual_gas_therms = None\<rparr>,
      elec_rate_usd_per_kwh = 0.18, gas_rate_usd_per_therm = 1.2,
      demand_charge_usd_per_kw = 0, discount_rate = 0.07, analysis_years = 25,
      grid_emissions_kgco2e_per_kwh = 0.38\<rparr>"

text \<open>
  A parsed JSON value. Python's \<open>json\<close> reads the literals \<open>NaN\<close>, \<open>Infinity\<close> and
  \<open>-Infinity\<close> as floats, so a number is a value of \<open>fl\<close>. An object is an association
  list in which the first binding of a key counts.
\<close>

datatype json =
    JNull
  | JBool bool
  | JNum fl
  | JStr string
  | JArr "json list"
  | JObj "(string \<times> json) list"

datatype py_exn =
    RequestException
  | HTTPError nat
  | JSONDecodeError
  | AttributeError
  | TypeError
  | ValueError
  | OverflowError

text \<open>
  What \<open>requests.get\<close> does: it raises (no connection, timeout), or it returns a response
  with a status code and a body, which \<open>resp.json()\<close> parses (\<open>None\<close>: the body is
  not JSON and \<open>resp.json()\<close> raises).
\<close>

datatype http_reply =
    Get_raises
  | Reply nat "json option"

fun truthy :: "json \<Rightarrow> bool" where
  "truthy JNull = False"
| "truthy (JBool b) = b"
| "truthy (JNum r) = (r \<noteq> Fin 0)"
| "truthy (JStr s) = (s \<noteq> [])"
| "truthy (JArr xs) = (xs \<noteq> [])"
| "truthy (JObj kvs) = (kvs \<noteq> [])"

text \<open>\<open>data.get(k, d)\<close>: only a dict has the method.\<close>

fun dict_get :: "json \<Rightarrow> string \<Rightarrow> json \<Rightarrow> py_exn + json" where
  "dict_get (JObj kvs) k d = Inr (case map_of kvs k of None \<Rightarrow> d | Some v \<Rightarrow> v)"
| "dict_get _ k d = Inl AttributeError"

subsection \<open>Python's \<open>float(s)\<close> and \<open>int(s)\<close> on a string\<close>

text \<open>
  The grammar of the Python reference for \<open>float\<close>, on ASCII strings: blanks around the
  value are stripped; an optional sign; then \<open>inf\<close>, \<open>infinity\<close> or \<open>nan\<close> in any case, or
  digits with single underscores between them, an optional fraction and an optional
  exponent. A value too large for binary64 is read as the real number it denotes.
\<close>

definition is_space :: "char \<Rightarrow> bool" where
  "is_space c = (let n = of_char c :: nat in (9 \<le> n \<and> n \<le> 13) \<or> (28 \<le> n \<and> n \<le> 32))"

definition strip :: "string \<Rightarrow> string" where
  "strip s = rev (dropWhile is_space (rev (dropWhile is_space s)))"

definition lower_char :: "char \<Rightarrow> char" where
  "lower_char c = (let n = of_char c :: nat in if 65 \<le> n \<and> n \<le> 90 then char_of (n + 32) else c)"

definition lower :: "string \<Rightarrow> string" where
  "lower s = map lower_char s"

definition digit_of :: "char \<Rightarrow> nat option" where
  "digit_of c = (let n = of_char c :: nat in if 48 \<le> n \<and> n \<le> 57 then Some (n - 48) else None)"

definition is_digit :: "char \<Rightarrow> bool" where
  "is_digit c = (digit_of c \<noteq> None)"

text \<open>\<open>(["_"] digit)*\<close>: the digits read, and the rest of the string.\<close>

fun digit_tail :: "string \<Rightarrow> nat list \<times> string" where
  "digit_tail [] = ([], [])"
| "digit_tail [c] =
     (case digit_of c of Some d \<Rightarrow> ([d], []) | None \<Rightarrow> ([], [c]))"
| "digit_tail (c # c' # cs) =
     (case digit_of c of
        Some d \<Rightarrow> (case digit_tail (c' # cs) of (ds, r) \<Rightarrow> (d # ds, r))
      | None \<Rightarrow>
          (if c = CHR ''_'' then
             (case digit_of c' of
                Some d \<Rightarrow> (case digit_tail cs of (ds, r) \<Rightarrow> (d # ds, r))
              | None \<Rightarrow> ([], c # c' # cs))
           else ([], c # c' # cs)))"

text \<open>\<open>digitpart ::= digit (["_"] digit)*\<close>\<close>

definition digitpart :: "string \<Rightarrow> (nat list \<times> string) option" where
  "digitpart s =
     (case s of
        [] \<Rightarrow> None
      | c # cs \<Rightarrow>
          (case digit_of c of
             None \<Rightarrow> None
           | Some d \<Rightarrow> (case digit_tail cs of (ds, r) \<Rightarrow> Some (d # ds, r))))"

definition digits_value :: "nat list \<Rightarrow> nat" where
  "digits_value ds = foldl (\<lambda>acc d. 10 * acc + d) 0 ds"

text \<open>\<open>number ::= [digitpart] "." digitpart | digitpart ["."]\<close>: integer digits, fraction
  digits, and the rest.\<close>

definition number :: "string \<Rightarrow> (nat list \<times> nat list \<times> string) option" where
  "number s =
     (case digitpart s of
        Some (ip, r) \<Rightarrow>
          (case r of
             c # r' \<Rightarrow>
               (if c = CHR ''.'' then
                  (case digitpart r' of
                     Some (fp, r'') \<Rightarrow> Some (ip, fp, r'')
                   | None \<Rightarrow> Some (ip, [], r'))
                else Some (ip, [], r))
           | [] \<Rightarrow> Some (ip, [], []))
      | None \<Rightarrow>
          (case s of
             c # r' \<Rightarrow>
               (if c = CHR ''.'' then
                  (case digitpart r' of
                     Some (fp, r'') \<Rightarrow> Some ([], fp, r'')
                   | None \<Rightarrow> None)
                else None)
           | [] \<Rightarrow> None))"

definition split_sign :: "string \<Rightarrow> real \<times> string" where
  "split_sign s =
     (case s of
        c # r \<Rightarrow> (if c = CHR ''-'' then (- 1, r) else if c = CHR ''+'' then (1, r) else (1, s))
      | [] \<Rightarrow> (1, s))"

text \<open>\<open>exponent ::= ("e" | "E") [sign] digitpart\<close>, to the end of the string.\<close>

definition exponent :: "string \<Rightarrow> int option" where
  "exponent s =
     (case s of
        [] \<Rightarrow> Some 0
      | c # r \<Rightarrow>
          (if c = CHR ''e'' \<or> c = CHR ''E'' then
             (case split_sign r of
                (sg, r') \<Rightarrow>
                  (case digitpart r' of
                     Some (ds, []) \<Rightarrow>
                       Some (if sg < 0 then - int (digits_value ds) else int (digits_value ds))
                   | _ \<Rightarrow> None))
           else None))"

definition floatnumber :: "string \<Rightarrow> real option" where
  "floatnumber s =
     (case number s of
        None \<Rightarrow> None
      | Some (ip, fp, r) \<Rightarrow>
          (case exponent r of
             None \<Rightarrow> None
           | Some e \<Rightarrow>
               Some (real (digits_value (ip @ fp)) / 10 ^ length fp * (10 powi e))))"

definition float_of_string :: "string \<Rightarrow> fl option" where
  "float_of_string s =
     (case split_sign (strip s) of
        (sg, u) \<Rightarrow>
          if lower u = ''inf'' \<or> lower u = ''infinity''
          then Some (if sg < 0 then NInf else PInf)
          else if lower u = ''nan'' then Some NaN
          else map_option (\<lambda>v. Fin (sg * v)) (floatnumber u))"

text \<open>\<open>float(x)\<close> on a JSON value other than \<open>None\<close>.\<close>

fun py_float :: "json \<Rightarrow> py_exn + fl" where
  "py_float (JNum r) = Inr r"
| "py_float (JBool b) = Inr (Fin (if b then 1 else 0))"
| "py_float (JStr s) = (case float_of_string s of None \<Rightarrow> Inl ValueError | Some r \<Rightarrow> Inr r)"
| "py_float _ = Inl TypeError"

definition bind_exn :: "'e + 'a \<Rightarrow> ('a \<Rightarrow> 'e + 'b) \<Rightarrow> 'e + 'b" where
  "bind_exn m f = (case m of Inl e \<Rightarrow> Inl e | Inr x \<Rightarrow> f x)"

fun is_str :: "json \<Rightarrow> bool" where
  "is_str (JStr s) = True"
| "is_str _ = False"

type_synonym requests_get = "string \<Rightarrow> (string \<times> json) list \<Rightarrow> http_reply"

definition raise_for_status :: "nat \<Rightarrow> py_exn + unit" where
  "raise_for_status code = (if 400 \<le> code \<and> code < 600 then Inl (HTTPError code) else Inr ())"

definition resp_json :: "json option \<Rightarrow> py_exn + json" where
  "resp_json body = (case body of None \<Rightarrow> Inl JSONDecodeError | Some v \<Rightarrow> Inr v)"

subsection \<open>nrel_client.py\<close>

datatype nrel_msg =
    No_NREL_API_KEY
  | Api_errors json
  | Missing_ac_annual
  | Exception_calling_PVWatts py_exn

record NRELClient =
  api_key :: "string option"
  last_error :: "nrel_msg option"

definition BASE_URL :: string where
  "BASE_URL = ''https://developer.nrel.gov/api/pvwatts/v8.json''"

definition nrel_available :: "NRELClient \<Rightarrow> bool" where
  "nrel_available self = (case api_key self of None \<Rightarrow> False | Some k \<Rightarrow> k \<noteq> [])"

definition pvwatts_try :: "http_reply \<Rightarrow> py_exn + (nrel_msg + fl)" where
  "pvwatts_try reply =
     (case reply of
        Get_raises \<Rightarrow> Inl RequestException
      | Reply code body \<Rightarrow>
          bind_exn (raise_for_status code) (\<lambda>_.
          bind_exn (resp_json body) (\<lambda>data.
          bind_exn (dict_get data ''errors'' JNull) (\<lambda>e1.
          bind_exn (if truthy e1 then Inr e1 else dict_get data ''error'' JNull) (\<lambda>errors.
            if truthy errors then
              (case errors of
                 JArr xs \<Rightarrow> if list_all is_str xs then Inr (Inl (Api_errors errors))
                            else Inl TypeError
               | _ \<Rightarrow> Inr (Inl (Api_errors errors)))
            else
              bind_exn (dict_get data ''outputs'' (JObj [])) (\<lambda>outputs.
              bind_exn (dict_get outputs ''ac_annual'' JNull) (\<lambda>ac_annual.
                if ac_annual = JNull then Inr (Inl Missing_ac_annual)
                else bind_exn (py_float ac_annual) (\<lambda>v. Inr (Inr v)))))))))"

definition pvwatts_ac_annual ::
  "requests_get \<Rightarrow> NRELClient \<Rightarrow> real \<Rightarrow> real \<Rightarrow> real \<Rightarrow> real \<Rightarrow> real \<Rightarrow> int \<Rightarrow> int \<Rightarrow> real
   \<Rightarrow> fl option \<times> NRELClient" where
  "pvwatts_ac_annual get self la lo system_capacity_kw tilt_deg azimuth_deg array_type
     module_type losses_pct =
     (let self0 = self\<lparr>last_error := None\<rparr>
      in if \<not> nrel_available self0
         then (None, self0\<lparr>last_error := Some No_NREL_API_KEY\<rparr>)
         else
           let params = [(''format'', JStr ''json''),
                         (''api_key'', (case api_key self0 of None \<Rightarrow> JNull | Some k \<Rightarrow> JStr k)),
                         (''lat'', JNum (Fin la)), (''lon'', JNum (Fin lo)),
                         (''system_capacity'', JNum (Fin system_capacity_kw)),
                         (''azimuth'', JNum (Fin azimuth_deg)), (''tilt'', JNum (Fin tilt_deg)),
                         (''array_type'', JNum (Fin (of_int array_type))),
                         (''module_type'', JNum (Fin (of_int module_type))),
                         (''losses'', JNum (Fin losses_pct))]
           in case pvwatts_try (get BASE_URL params) of
                Inl e \<Rightarrow> (None, self0\<lparr>last_error := Some (Exception_calling_PVWatts e)\<rparr>)
              | Inr (Inl msg) \<Rightarrow> (None, self0\<lparr>last_error := Some msg\<rparr>)
              | Inr (Inr v) \<Rightarrow> (Some v, self0))"

subsection \<open>eia_client.py\<close>

datatype eia_msg =
    No_EIA_API_KEY
  | Forbidden_403
  | Exception_calling_EIA py_exn
  | No_records
  | Fetch_series_not_implemented string string string string

record EIA =
  api_key :: "string option"
  last_error :: "eia_msg option"
  last_url :: "string option"

definition base_v2 :: string where
  "base_v2 = ''https://api.eia.gov/v2''"

definition eia_available :: "EIA \<Rightarrow> bool" where
  "eia_available self = (case EIA.api_key self of None \<Rightarrow> False | Some k \<Rightarrow> k \<noteq> [])"

definition normalize_v2_payload :: "json \<Rightarrow> json" where
  "normalize_v2_payload payload =
     (case payload of
        JObj kvs \<Rightarrow> (case map_of kvs ''response'' of
                       Some (JObj inner) \<Rightarrow> JObj inner
                     | _ \<Rightarrow> payload)
      | _ \<Rightarrow> payload)"

text \<open>\<open>int(s)\<close> on a string: blanks stripped, an optional sign, decimal digits with
  single underscores between them.\<close>

definition int_of_string :: "string \<Rightarrow> int option" where
  "int_of_string s =
     (case split_sign (strip s) of
        (sg, u) \<Rightarrow>
          (case digitpart u of
             Some (ds, []) \<Rightarrow>
               Some (if sg < 0 then - int (digits_value ds) else int (digits_value ds))
           | _ \<Rightarrow> None))"

text \<open>\<open>int(x)\<close>: a float is truncated towards zero; NaN and the infinities raise.\<close>

fun py_int :: "json \<Rightarrow> py_exn + int" where
  "py_int (JNum (Fin r)) = Inr (if r \<ge> 0 then \<lfloor>r\<rfloor> else \<lceil>r\<rceil>)"
| "py_int (JNum NaN) = Inl ValueError"
| "py_int (JNum _) = Inl OverflowError"
| "py_int (JBool b) = Inr (if b then 1 else 0)"
| "py_int (JStr s) = (case int_of_string s of None \<Rightarrow> Inl ValueError | Some n \<Rightarrow> Inr n)"
| "py_int _ = Inl TypeError"

definition lstrip_slash :: "string \<Rightarrow> string" where
  "lstrip_slash s = dropWhile (\<lambda>c. c = CHR ''/'') s"

definition get_v2_request :: "http_reply \<Rightarrow> py_exn + (eia_msg + json)" where
  "get_v2_request reply =
     (case reply of
        Get_raises \<Rightarrow> Inl RequestException
      | Reply code body \<Rightarrow>
          if code = 403 then Inr (Inl Forbidden_403)
          else bind_exn (raise_for_status code) (\<lambda>_.
               bind_exn (resp_json body) (\<lambda>raw. Inr (Inr raw))))"

definition get_v2 ::
  "requests_get \<Rightarrow> EIA \<Rightarrow> string \<Rightarrow> (string \<times> json) list \<Rightarrow> json option \<times> EIA" where
  "get_v2 get self path params =
     (let self0 = self\<lparr>last_error := None, last_url := None\<rparr>
      in if \<not> eia_available self0
         then (None, self0\<lparr>last_error := Some No_EIA_API_KEY\<rparr>)
         else
           let url = base_v2 @ ''/'' @ lstrip_slash path;
               params1 = params @ [(''api_key'',
                  (case EIA.api_key self0 of None \<Rightarrow> JNull | Some k \<Rightarrow> JStr k))];
               self1 = self0\<lparr>last_url := Some url\<rparr>
           in case get_v2_request (get url params1) of
                Inl e \<Rightarrow> (None, self1\<lparr>last_error := Some (Exception_calling_EIA e)\<rparr>)
              | Inr (Inl msg) \<Rightarrow> (None, self1\<lparr>last_error := Some msg\<rparr>)
              | Inr (Inr raw) \<Rightarrow>
                  let data = normalize_v2_payload raw;
                      total = (case bind_exn (dict_get data ''total'' (JNum (Fin 0))) py_int of
                                 Inl e \<Rightarrow> 0 | Inr n \<Rightarrow> n)
                  in if total = 0
                        \<or> (case dict_get data ''data'' JNull of
                              Inl e \<Rightarrow> True | Inr d \<Rightarrow> \<not> truthy d)
                     then (None, self1\<lparr>last_error := Some No_records\<rparr>)
                     else (Some data, self1))"

definition upper_char :: "char \<Rightarrow> char" where
  "upper_char c = (let n = of_char c :: nat in if 97 \<le> n \<and> n \<le> 122 then char_of (n - 32) else c)"

definition upper :: "string \<Rightarrow> string" where
  "upper s = map upper_char s"

fun str_nat :: "nat \<Rightarrow> string" where
  "str_nat n = (if n < 10 then [char_of (48 + n)]
                else str_nat (n div 10) @ [char_of (48 + n mod 10)])"

definition str_int :: "int \<Rightarrow> string" where
  "str_int i = (if i < 0 then CHR ''-'' # str_nat (nat (- i)) else str_nat (nat i))"

definition sector_map :: "(string \<times> string) list" where
  "sector_map =
     [(''total'', ''ALL''), (''all'', ''ALL''), (''ALL'', ''ALL''),
      (''residential'', ''RES''), (''RES'', ''RES''),
      (''commercial'', ''COM''), (''COM'', ''COM''),
      (''industrial'', ''IND''), (''IND'', ''IND''),
      (''transportation'', ''TRA''), (''TRA'', ''TRA''),
      (''other'', ''OTH''), (''OTH'', ''OTH'')]"

record frame =
  records :: "json list"
  price_cents_per_kwh :: "fl list option"
  price_usd_per_kwh :: "fl list option"
  request_url :: json

definition pd_DataFrame :: "json \<Rightarrow> py_exn + json list" where
  "pd_DataFrame rows = (case rows of JArr xs \<Rightarrow> Inr xs | _ \<Rightarrow> Inl ValueError)"

definition cell :: "string \<Rightarrow> json \<Rightarrow> json" where
  "cell k item = (case item of
                    JObj kvs \<Rightarrow> (case map_of kvs k of None \<Rightarrow> JNull | Some v \<Rightarrow> v)
                  | _ \<Rightarrow> JNull)"

definition has_column :: "string \<Rightarrow> json list \<Rightarrow> bool" where
  "has_column k xs = list_ex (\<lambda>item. case item of JObj kvs \<Rightarrow> map_of kvs k \<noteq> None | _ \<Rightarrow> False) xs"

definition cell_float :: "json \<Rightarrow> py_exn + fl" where
  "cell_float v = (if v = JNull then Inr NaN else py_float v)"

fun astype_float :: "json list \<Rightarrow> py_exn + fl list" where
  "astype_float [] = Inr []"
| "astype_float (v # vs) =
     bind_exn (cell_float v) (\<lambda>x. bind_exn (astype_float vs) (\<lambda>xs. Inr (x # xs)))"

definition fetch_retail_price ::
  "requests_get \<Rightarrow> EIA \<Rightarrow> int \<Rightarrow> string \<Rightarrow> string \<Rightarrow> (py_exn + frame option) \<times> EIA" where
  "fetch_retail_price get self year st sector =
     (let sectorid = (case map_of sector_map sector of None \<Rightarrow> sector | Some v \<Rightarrow> v);
          params = [(''frequency'', JStr ''annual''),
                    (''data[0]'', JStr ''price''),
                    (''facets[stateid][]'', JStr (upper st)),
                    (''facets[sectorid][]'', JStr sectorid),
                    (''start'', JStr (str_int year)),
                    (''end'', JStr (str_int year)),
                    (''sort[0][column]'', JStr ''period''),
                    (''sort[0][direction]'', JStr ''desc'')]
      in case get_v2 get self ''electricity/retail-sales/data'' params of
           (None, self1) \<Rightarrow> (Inr None, self1)
         | (Some raw, self1) \<Rightarrow>
             (bind_exn (dict_get raw ''data'' (JArr [])) (\<lambda>rows.
              bind_exn (pd_DataFrame rows) (\<lambda>df.
              bind_exn (if has_column ''price'' df
                        then bind_exn (astype_float (map (cell ''price'') df)) (\<lambda>cents.
                               Inr (Some cents, Some (map (\<lambda>c. fl_div c (Fin 100)) cents)))
                        else Inr (None, None)) (\<lambda>(cents, usd).
              bind_exn (dict_get raw ''requestUrl'' JNull) (\<lambda>u.
                Inr (Some \<lparr>records = df, price_cents_per_kwh = cents, price_usd_per_kwh = usd,
                       request_url = (if truthy u then u
                                      else case last_url self1 of None \<Rightarrow> JNull
                                           | Some url \<Rightarrow> JStr url)\<rparr>))))),
              self1))"

definition fetch_series ::
  "requests_get \<Rightarrow> EIA \<Rightarrow> int \<Rightarrow> string \<Rightarrow> string \<Rightarrow> string \<Rightarrow> string \<Rightarrow> string
   \<Rightarrow> (py_exn + frame option) \<times> EIA" where
  "fetch_series get self year st fuel series sector frequency =
     (let fuel1 = lower fuel; series1 = lower series
      in if fuel1 = ''electricity'' \<and> series1 = ''price''
         then fetch_retail_price get self year st sector
         else (Inr None,
               self\<lparr>last_error := Some (Fetch_series_not_implemented fuel1 series1 sector frequency)\<rparr>))"

definition eia_with_key :: EIA where
  "eia_with_key = \<lparr>api_key = Some ''KEY'', last_error = None, last_url = None\<rparr>"

definition price_not_numeric :: requests_get where
  "price_not_numeric url params =
     Reply 200 (Some (JObj [(''response'',
        JObj [(''total'', JStr ''1''),
              (''data'', JArr [JObj [(''period'', JStr ''2023''), (''stateid'', JStr ''MI''),
                                     (''price'', JStr ''NA'')]])])]))"

definition WIND_DEFAULT_DENSITY_MW_PER_KM2 :: real where "WIND_DEFAULT_DENSITY_MW_PER_KM2 = 4.25"
definition WIND_DEFAULT_CF :: real where "WIND_DEFAULT_CF = 0.40"
definition PV_ROOFTOP_COST_PER_KW :: real where "PV_ROOFTOP_COST_PER_KW = 1800"
definition PV_GROUND_COST_PER_KW :: real where "PV_GROUND_COST_PER_KW = 1500"
definition WIND_COST_PER_KW :: real where "WIND_COST_PER_KW = 1500"
definition GREEN_PREMIUM_USD_PER_KWH :: real where "GREEN_PREMIUM_USD_PER_KWH = 0.01"
definition COMMUNITY_SOLAR_DISCOUNT_FRAC :: real where "COMMUNITY_SOLAR_DISCOUNT_FRAC = 0.10"

text \<open>
  What \<open>NRELClient()\<close> reads: Streamlit's secrets (\<open>None\<close>: there is no secrets file, and
  \<open>st.secrets.get\<close> raises), the process environment, and the network.
\<close>

record nrel_env =
  secrets :: "(string \<times> string) list option"
  environ :: "(string \<times> string) list"
  requests :: requests_get

text \<open>
  \<open>NRELClient.__init__\<close> with no key given:
  \<open>st.secrets.get("NREL_API_KEY", None) or os.getenv("NREL_API_KEY")\<close>, with no guard
  around \<open>st.secrets\<close>. \<open>None\<close>: the constructor raises.
\<close>

definition NRELClient_init :: "nrel_env \<Rightarrow> NRELClient option" where
  "NRELClient_init env =
     (case secrets env of
        None \<Rightarrow> None
      | Some kv \<Rightarrow>
          Some \<lparr>NRELClient.api_key =
                  (case map_of kv ''NREL_API_KEY'' of
                     Some k \<Rightarrow> if k \<noteq> [] then Some k
                               else map_of (environ env) ''NREL_API_KEY''
                   | None \<Rightarrow> map_of (environ env) ''NREL_API_KEY''),
                NRELClient.last_error = None\<rparr>)"

text \<open>The value of \<open>st.session_state["pvwatts_last_error"]\<close> when it is not \<open>None\<close>.\<close>

datatype pvwatts_note =
    PVWatts_key_not_available
  | PVWatts_failed nrel_msg
  | Unknown_PVWatts_error

text \<open>
  \<open>nrel.last_error or "Unknown PVWatts error."\<close>: the message is the empty string only
  when the API reported the one-element error list \<open>[""]\<close>.
\<close>

definition empty_message :: "nrel_msg \<Rightarrow> bool" where
  "empty_message m = (m = Api_errors (JArr [JStr []]))"

text \<open>The rule-of-thumb branch of \<open>_pv_kwh_year\<close>.\<close>

definition pv_fallback :: "real option \<Rightarrow> real option \<Rightarrow> real \<Rightarrow> real \<Rightarrow> real \<Rightarrow> real" where
  "pv_fallback la lo kwdc tilt_deg shading_pct =
     (let ghi = (case (la, lo) of
                   (Some x, Some y) \<Rightarrow>
                     (case map_of (solar_resource x y) ''GHI_kWhm2_day'' of
                        None \<Rightarrow> 4.2 | Some g \<Rightarrow> g)
                 | _ \<Rightarrow> 4.2);
          base = 300 * ghi;
          tilt_factor = 1 - min 0.5 (\<bar>tilt_deg - 30\<bar> * 0.01);
          shading_factor = max 0 (1 - shading_pct / 100)
      in kwdc * base * tilt_factor * shading_factor)"

text \<open>
  \<open>_pv_kwh_year\<close>: the yield, whether PVWatts gave it, and the note left in the session
  state. \<open>None\<close>: the call raises (in \<open>NRELClient()\<close>). The PVWatts value is whatever
  \<open>float(ac_annual)\<close> is, NaN and the infinities included.
\<close>

definition pv_kwh_year ::
  "nrel_env \<Rightarrow> real option \<Rightarrow> real option \<Rightarrow> real \<Rightarrow> real \<Rightarrow> real \<Rightarrow> real
   \<Rightarrow> ((fl \<times> bool) \<times> pvwatts_note option) option" where
  "pv_kwh_year env la lo kwdc tilt_deg shading_pct losses_pct =
     (case (la, lo) of
        (Some x, Some y) \<Rightarrow>
          (case NRELClient_init env of
             None \<Rightarrow> None
           | Some nrel \<Rightarrow>
               if nrel_available nrel
               then (case pvwatts_ac_annual (requests env) nrel x y kwdc tilt_deg 180 1 1
                            losses_pct of
                       (Some ac_annual, nrel1) \<Rightarrow> Some ((ac_annual, True), None)
                     | (None, nrel1) \<Rightarrow>
                         Some ((Fin (pv_fallback la lo kwdc tilt_deg shading_pct), False),
                               Some (case NRELClient.last_error nrel1 of
                                       None \<Rightarrow> Unknown_PVWatts_error
                                     | Some m \<Rightarrow>
                                         if empty_message m then Unknown_PVWatts_error
                                         else PVWatts_failed m)))
               else Some ((Fin (pv_fallback la lo kwdc tilt_deg shading_pct), False),
                          Some PVWatts_key_not_available))
      | _ \<Rightarrow> Some ((Fin (pv_fallback la lo kwdc tilt_deg shading_pct), False), None))"

text \<open>Python's \<open>min(a, b)\<close> and \<open>max(a, b)\<close> on floats: \<open>a\<close> unless \<open>b\<close> compares
  smaller (larger), so a NaN in the first place stays.\<close>

definition py_min :: "fl \<Rightarrow> fl \<Rightarrow> fl" where
  "py_min a b = (if fl_less b a then b else a)"

definition py_max :: "fl \<Rightarrow> fl \<Rightarrow> fl" where
  "py_max a b = (if fl_less a b then b else a)"

text \<open>Python's \<open>x / y\<close> on floats: \<open>ZeroDivisionError\<close> for a zero divisor.\<close>

definition py_fdiv :: "fl \<Rightarrow> real \<Rightarrow> fl option" where
  "py_fdiv a b = (if b = 0 then None else Some (fl_div a (Fin b)))"

definition wind_kwh_year :: "real \<Rightarrow> real \<Rightarrow> real \<Rightarrow> real" where
  "wind_kwh_year acres mw_per_km2 cf =
     (let km2 = acres / 247.105;
          capacity_mw = km2 * mw_per_km2
      in capacity_mw * 1000 * 8760 * cf)"

definition goal_maximize_co2 :: string where
  "goal_maximize_co2 =
     ''Maximize CO'' @ [char_of (226::nat), char_of (130::nat), char_of (130::nat)] @ '' reduction''"

definition goal_weights :: "string \<Rightarrow> real \<times> real \<times> real" where
  "goal_weights goal =
     (if goal = ''Lower my bill'' then (0.6, 0.2, 0.2)
      else if goal = goal_maximize_co2 then (0.3, 0.6, 0.1)
      else (0.4, 0.4, 0.2))"

datatype technology =
    Rooftop_PV real
  | Ground_Carport_PV real
  | Community_Solar_Subscription int
  | Utility_Green_Power int
  | Onshore_Wind real

datatype note_text =
    Note_PVWatts
  | Note_rule_of_thumb
  | Note_community_solar
  | Note_green_power
  | Note_wind

record gen_row =
  Technology :: technology
  Type :: string
  Capex_USD :: fl
  Annual_kWh :: fl
  Load_Covered_pct :: fl
  Annual_Savings_USD :: fl
  CO2e_Reduction_tpy :: fl
  Notes :: note_text

record rank_args =
  category :: string
  scen :: ScenarioInput
  tilt :: real
  shading :: real
  roof_area_m2 :: "real option"
  wind_acres :: "real option"
  goal :: string
  target_load_pct :: real
  wind_density_mw_km2 :: real
  wind_cf :: real
  pv_rooftop_cost_kw :: real
  pv_ground_cost_kw :: real
  wind_cost_kw :: real
  green_premium_usd_per_kwh :: real
  community_solar_discount_frac :: real
  pv_losses_pct :: real

definition py_int_trunc :: "real \<Rightarrow> int" where
  "py_int_trunc r = (if r \<ge> 0 then \<lfloor>r\<rfloor> else \<lceil>r\<rceil>)"

definition annual_kwh_of :: "rank_args \<Rightarrow> real" where
  "annual_kwh_of a = py_or (annual_electricity_kwh (site (scen a))) 10000"

definition grid_kg_per_kwh_of :: "rank_args \<Rightarrow> real" where
  "grid_kg_per_kwh_of a = py_or (Some (grid_emissions_kgco2e_per_kwh (scen a))) 0.38"

definition kw_roof_of :: "rank_args \<Rightarrow> real" where
  "kw_roof_of a =
     (case roof_area_m2 a of
        Some r \<Rightarrow> if r \<noteq> 0 \<and> r > 0 then max 0 (r * 0.2)
                  else max 1 (py_round1 (annual_kwh_of a / 1400))
      | None \<Rightarrow> max 1 (py_round1 (annual_kwh_of a / 1400)))"

text \<open>The block "Rooftop PV": the row, \<open>pv_useful_kwh\<close>, \<open>used_pvwatts\<close> and the note.\<close>

definition rooftop_pv ::
  "nrel_env \<Rightarrow> rank_args \<Rightarrow> (gen_row \<times> fl \<times> bool \<times> pvwatts_note option) option" where
  "rooftop_pv env a = (
     let annual_kwh = annual_kwh_of a;
         elec_rate = elec_rate_usd_per_kwh (scen a);
         grid_kg_per_kwh = grid_kg_per_kwh_of a;
         kw_roof = kw_roof_of a
     in do {
       res \<leftarrow> pv_kwh_year env (lat (site (scen a))) (lon (site (scen a))) kw_roof
                 (tilt a) (shading a) (pv_losses_pct a);
       (let pv_kwh = fst (fst res);
            used_pvwatts = snd (fst res);
            pv_useful_kwh = py_min pv_kwh (Fin (annual_kwh * (target_load_pct a / 100)));
            pv_capex = kw_roof * pv_rooftop_cost_kw a;
            pv_savings = fl_mul pv_useful_kwh (Fin elec_rate);
            pv_co2_t = fl_div (fl_mul pv_useful_kwh (Fin grid_kg_per_kwh)) (Fin 1000)
        in do {
          cov \<leftarrow> py_fdiv pv_useful_kwh annual_kwh;
          Some (\<lparr>Technology = Rooftop_PV kw_roof, Type = ''On-site solar'',
                  Capex_USD = Fin pv_capex, Annual_kWh = pv_kwh,
                  Load_Covered_pct = fl_mul cov (Fin 100),
                  Annual_Savings_USD = pv_savings,
                  CO2e_Reduction_tpy = pv_co2_t,
                  Notes = (if used_pvwatts then Note_PVWatts else Note_rule_of_thumb)\<rparr>,
                pv_useful_kwh, used_pvwatts, snd res) }) })"

text \<open>The block "Ground / carport PV".\<close>

definition ground_pv ::
  "nrel_env \<Rightarrow> rank_args \<Rightarrow> fl \<Rightarrow> pvwatts_note option
   \<Rightarrow> (gen_row list \<times> bool \<times> pvwatts_note option) option" where
  "ground_pv env a pv_useful_kwh note1 = (
     let annual_kwh = annual_kwh_of a;
         elec_rate = elec_rate_usd_per_kwh (scen a);
         grid_kg_per_kwh = grid_kg_per_kwh_of a;
         extra_kw = max 0 (annual_kwh / 1000 - kw_roof_of a)
     in if category a \<in> set [''Business'', ''Community'', ''City''] \<and> extra_kw > 0
        then do {
          res \<leftarrow> pv_kwh_year env (lat (site (scen a))) (lon (site (scen a))) extra_kw
                      (tilt a) (shading a) (pv_losses_pct a);
          (let extra_kwh = fst (fst res);
               used_pvwatts_2 = snd (fst res);
               extra_useful_kwh =
                 py_min extra_kwh
                   (py_max (Fin 0)
                      (fl_sub (Fin (annual_kwh * (target_load_pct a / 100))) pv_useful_kwh));
               extra_capex = extra_kw * pv_ground_cost_kw a;
               extra_savings = fl_mul extra_useful_kwh (Fin elec_rate);
               extra_co2_t = fl_div (fl_mul extra_useful_kwh (Fin grid_kg_per_kwh)) (Fin 1000)
           in do {
             cov \<leftarrow> py_fdiv extra_useful_kwh annual_kwh;
             Some ([\<lparr>Technology = Ground_Carport_PV extra_kw, Type = ''On-site solar'',
                      Capex_USD = Fin extra_capex, Annual_kWh = extra_kwh,
                      Load_Covered_pct = fl_mul cov (Fin 100),
                      Annual_Savings_USD = extra_savings,
                      CO2e_Reduction_tpy = extra_co2_t,
                      Notes = (if used_pvwatts_2 then Note_PVWatts
                               else Note_rule_of_thumb)\<rparr>],
                   used_pvwatts_2, snd res) }) }
        else Some ([], False, note1))"

definition community_solar :: "rank_args \<Rightarrow> gen_row option" where
  "community_solar a = (
     let annual_kwh = annual_kwh_of a;
         elec_rate = elec_rate_usd_per_kwh (scen a);
         grid_kg_per_kwh = grid_kg_per_kwh_of a;
         sub_pct = (if category a \<in> set [''Individual'', ''Business''] then 0.5
                    else if category a = ''Community'' then 0.4 else 0.3);
         cs_kwh = annual_kwh * sub_pct;
         cs_useful_kwh = cs_kwh * (target_load_pct a / 100);
         cs_bill_discount = community_solar_discount_frac a * elec_rate;
         cs_savings = cs_useful_kwh * cs_bill_discount;
         cs_co2_t = cs_useful_kwh * grid_kg_per_kwh / 1000
     in do {
       cov \<leftarrow> py_div cs_useful_kwh annual_kwh;
       Some \<lparr>Technology = Community_Solar_Subscription (py_int_trunc (sub_pct * 100)),
              Type = ''Off-site solar'',
              Capex_USD = Fin 0, Annual_kWh = Fin cs_kwh,
              Load_Covered_pct = Fin (cov * 100),
              Annual_Savings_USD = Fin cs_savings,
              CO2e_Reduction_tpy = Fin cs_co2_t,
              Notes = Note_community_solar\<rparr> })"

definition green_power :: "rank_args \<Rightarrow> gen_row option" where
  "green_power a = (
     let annual_kwh = annual_kwh_of a;
         grid_kg_per_kwh = grid_kg_per_kwh_of a;
         green_pct = (if category a \<in> set [''Individual'', ''Business''] then 0.5 else 0.3);
         green_kwh = annual_kwh * green_pct * (target_load_pct a / 100);
         green_premium = green_premium_usd_per_kwh a;
         green_cost = green_kwh * green_premium;
         green_co2_t = green_kwh * grid_kg_per_kwh / 1000
     in do {
       cov \<leftarrow> py_div green_kwh annual_kwh;
       Some \<lparr>Technology = Utility_Green_Power (py_int_trunc (green_pct * 100)),
              Type = ''Off-site renewable'',
              Capex_USD = Fin 0, Annual_kWh = Fin green_kwh,
              Load_Covered_pct = Fin (cov * 100),
              Annual_Savings_USD = Fin (- green_cost),
              CO2e_Reduction_tpy = Fin green_co2_t,
              Notes = Note_green_power\<rparr> })"

definition small_wind :: "rank_args \<Rightarrow> gen_row list option" where
  "small_wind a =
     (case wind_acres a of
        None \<Rightarrow> Some []
      | Some acres \<Rightarrow>
          if acres \<noteq> 0 \<and> acres > 0 then
            let annual_kwh = annual_kwh_of a;
                elec_rate = elec_rate_usd_per_kwh (scen a);
                grid_kg_per_kwh = grid_kg_per_kwh_of a;
                wind_kwh = wind_kwh_year acres (wind_density_mw_km2 a) (wind_cf a);
                wind_useful_kwh = min wind_kwh (annual_kwh * (target_load_pct a / 100));
                approx_kw = (if wind_cf a > 0 then wind_kwh / (8760 * wind_cf a) else 0);
                wind_capex = approx_kw * wind_cost_kw a;
                wind_savings = wind_useful_kwh * elec_rate;
                wind_co2_t = wind_useful_kwh * grid_kg_per_kwh / 1000
            in do {
              cov \<leftarrow> py_div wind_useful_kwh annual_kwh;
              Some [\<lparr>Technology = Onshore_Wind acres, Type = ''On-site wind'',
                      Capex_USD = Fin wind_capex, Annual_kWh = Fin wind_kwh,
                      Load_Covered_pct = Fin (cov * 100),
                      Annual_Savings_USD = Fin wind_savings,
                      CO2e_Reduction_tpy = Fin wind_co2_t,
                      Notes = Note_wind\<rparr>] }
          else Some [])"

definition generation_rows ::
  "nrel_env \<Rightarrow> rank_args \<Rightarrow> (gen_row list \<times> bool \<times> pvwatts_note option) option" where
  "generation_rows env a = do {
     (row_roof, pv_useful_kwh, used_pvwatts, note1) \<leftarrow> rooftop_pv env a;
     (rows_ground, used_pvwatts_2, note2) \<leftarrow> ground_pv env a pv_useful_kwh note1;
     row_cs \<leftarrow> community_solar a;
     row_green \<leftarrow> green_power a;
     rows_wind \<leftarrow> small_wind a;
     Some ([row_roof] @ rows_ground @ [row_cs, row_green] @ rows_wind,
           used_pvwatts \<or> used_pvwatts_2, note2) }"

record ranked_row = gen_row +
  Payback_yr :: fl
  Score_0to1 :: fl

definition np_or :: "fl \<Rightarrow> fl \<Rightarrow> fl" where
  "np_or v d = (if v = Fin 0 then d else v)"

definition payback_column :: "gen_row list \<Rightarrow> fl list" where
  "payback_column df =
     map (\<lambda>r. if fl_less (Fin 0) (Annual_Savings_USD r)
              then fl_div (Capex_USD r) (Annual_Savings_USD r) else PInf) df"

definition rank_norm_s :: "gen_row list \<Rightarrow> fl list" where
  "rank_norm_s df =
     (let savings = clip_lower (Fin 0) (map Annual_Savings_USD df);
          max_s = np_or (col_max savings) (Fin 1)
      in map (\<lambda>v. fl_div v max_s) savings)"

definition rank_norm_c :: "gen_row list \<Rightarrow> fl list" where
  "rank_norm_c df =
     (let co2 = clip_lower (Fin 0) (map CO2e_Reduction_tpy df);
          max_c = np_or (col_max co2) (Fin 1)
      in map (\<lambda>v. fl_div v max_c) co2)"

definition rank_norm_p :: "gen_row list \<Rightarrow> fl list" where
  "rank_norm_p df =
     (let payback = replace [PInf, Fin 0] NaN (payback_column df);
          min_p = (if \<not> list_all isna payback then col_min payback else NaN)
      in map (\<lambda>(p, q). if \<not> isna p then q else Fin 0)
           (zip payback (clip (Fin 0) (Fin 1) (map (\<lambda>v. fl_div min_p v) payback))))"

definition rank_scores :: "string \<Rightarrow> gen_row list \<Rightarrow> ranked_row list" where
  "rank_scores g df =
     (let (w_s, w_c, w_p) = goal_weights g;
          score = col_add (col_add (col_scale w_s (rank_norm_s df))
                                   (col_scale w_c (rank_norm_c df)))
                          (col_scale w_p (rank_norm_p df));
          score0 = fillna (Fin 0) score
      in map (\<lambda>i. gen_row.extend (df ! i)
                  (ranked_row.fields (payback_column df ! i) (score0 ! i)))
           [0 ..< length df])"

type_synonym argsort = "fl list \<Rightarrow> nat list"

definition nargsort_descending :: "argsort \<Rightarrow> fl list \<Rightarrow> nat list" where
  "nargsort_descending quicksort items =
     (let idx = [0 ..< length items];
          non_nan_idx = rev (filter (\<lambda>i. \<not> isna (items ! i)) idx);
          non_nans = map (\<lambda>i. items ! i) non_nan_idx;
          nan_idx = filter (\<lambda>i. isna (items ! i)) idx;
          indexer = rev (map (\<lambda>j. non_nan_idx ! j) (quicksort non_nans))
      in indexer @ nan_idx)"

definition sort_values_descending :: "argsort \<Rightarrow> ('a \<Rightarrow> fl) \<Rightarrow> 'a list \<Rightarrow> 'a list" where
  "sort_values_descending quicksort by df =
     map (\<lambda>i. df ! i) (nargsort_descending quicksort (map by df))"

definition rank_options ::
  "argsort \<Rightarrow> nrel_env \<Rightarrow> rank_args \<Rightarrow> (ranked_row list \<times> bool \<times> pvwatts_note option) option" where
  "rank_options quicksort env a =
     map_option (\<lambda>(rows, used, note).
         (sort_values_descending quicksort Score_0to1 (rank_scores (goal a) rows), used, note))
       (generation_rows env a)"

definition score_options :: "argsort \<Rightarrow> ScenarioInput \<Rightarrow> scored_row list option" where
  "score_options quicksort sc =
     map_option (\<lambda>rows. sort_values_descending quicksort MCDA_Score_0to1 (mcda_scores rows))
       (option_rows sc)"

text \<open>
  numpy's \<open>argsort\<close> of kind \<open>quicksort\<close>, which \<open>sort_values\<close> uses by default. A run
  of at most 16 keys is sorted by insertion: each index in turn moves left past the
  indices whose key is greater (a strict comparison). The list argument of
  \<open>insert_index\<close> is the sorted prefix, read from its right end. Longer inputs are
  partitioned first; that part is the parameter \<open>partitioned\<close>. The tables of this
  program have at most five rows.
\<close>

fun insert_index :: "fl list \<Rightarrow> nat \<Rightarrow> nat list \<Rightarrow> nat list" where
  "insert_index v vi [] = [vi]"
| "insert_index v vi (k # ks) =
     (if fl_less (v ! vi) (v ! k) then k # insert_index v vi ks else vi # k # ks)"

definition insertion_argsort :: argsort where
  "insertion_argsort v = rev (fold (insert_index v) [0 ..< length v] [])"

definition np_quicksort :: "argsort \<Rightarrow> argsort" where
  "np_quicksort partitioned v =
     (if length v \<le> 16 then insertion_argsort v else partitioned v)"

definition is_argsort :: "nat list \<Rightarrow> fl list \<Rightarrow> bool" where
  "is_argsort ix ks =
     (mset ix = mset [0 ..< length ks] \<and> sorted_wrt (\<lambda>i j. fl_le (ks ! i) (ks ! j)) ix)"

definition sorts :: "argsort \<Rightarrow> bool" where
  "sorts quicksort = (\<forall>ks. NaN \<notin> set ks \<longrightarrow> is_argsort (quicksort ks) ks)"

fun fl_key :: "fl \<Rightarrow> real \<times> real" where
  "fl_key (Fin r) = (0, r)"
| "fl_key PInf = (1, 0)"
| "fl_key NInf = (- 1, 0)"
| "fl_key NaN = (2, 0)"

definition stable_argsort :: argsort where
  "stable_argsort ks = sort_key (\<lambda>i. fl_key (ks ! i)) [0 ..< length ks]"

definition no_env :: nrel_env where
  "no_env = \<lparr>secrets = Some [], environ = [], requests = (\<lambda>url params. Get_raises)\<rparr>"

definition c1_args :: rank_args where
  "c1_args = \<lparr>category = ''Individual'',
     scen = \<lparr>site = \<lparr>country = ''USA'', state = None, county = None, city = None,
                     zipcode = None, lat = None, lon = None, building_type = ''residential'',
                     floor_area_m2 = None, annual_electricity_kwh = Some 10000,
                     annual_gas_therms = None\<rparr>,
             elec_rate_usd_per_kwh = 0.18, gas_rate_usd_per_therm = 1.2,
             demand_charge_usd_per_kw = 0, discount_rate = 0.07, analysis_years = 25,
             grid_emissions_kgco2e_per_kwh = 0.38\<rparr>,
     tilt = 27, shading = 8, roof_area_m2 = None, wind_acres = None, goal = ''Balanced'',
     target_load_pct = 80, wind_density_mw_km2 = 4.25, wind_cf = 0.40,
     pv_rooftop_cost_kw = 1800, pv_ground_cost_kw = 1500, wind_cost_kw = 1500,
     green_premium_usd_per_kwh = 0.01, community_solar_discount_frac = 0.10,
     pv_losses_pct = 14\<rparr>"

definition lcoe_defined :: "ScenarioInput \<Rightarrow> bool" where
  "lcoe_defined sc =
     (\<not> (1 + discount_rate sc = 0 \<and> analysis_years sc < 0) \<and>
      (1 + discount_rate sc) powi analysis_years sc \<noteq> 1)"

definition costed :: "opt_row \<Rightarrow> bool" where
  "costed r =
     (is_fin (opt_row.Capex_USD r) \<and> fin_val (opt_row.Capex_USD r) > 0 \<and>
      is_fin (opt_row.Annual_Savings_USD r) \<and> is_fin (opt_row.CO2e_Reduction_tpy r) \<and>
      is_fin (Practicality r) \<and>
      Simple_Payback_yr r =
        simple_payback (fin_val (opt_row.Capex_USD r)) (fin_val (opt_row.Annual_Savings_USD r)))"

fun unit_fl :: "fl \<Rightarrow> bool" where
  "unit_fl (Fin r) = (0 \<le> r \<and> r \<le> 1)"
| "unit_fl _ = False"

fun unit_or_nan :: "fl \<Rightarrow> bool" where
  "unit_or_nan (Fin r) = (0 \<le> r \<and> r \<le> 1)"
| "unit_or_nan NaN = True"
| "unit_or_nan _ = False"

fun pos_or_inf :: "fl \<Rightarrow> bool" where
  "pos_or_inf (Fin p) = (p > 0)"
| "pos_or_inf PInf = True"
| "pos_or_inf _ = False"

definition finite_row :: "'a gen_row_scheme \<Rightarrow> bool" where
  "finite_row r = (is_fin (Capex_USD r) \<and> is_fin (Annual_Savings_USD r) \<and>
                   is_fin (CO2e_Reduction_tpy r))"

definition sound_row :: "'a gen_row_scheme \<Rightarrow> bool" where
  "sound_row r =
     (is_fin (Capex_USD r) \<and>
      (Notes r \<noteq> Note_PVWatts \<longrightarrow> is_fin (Annual_kWh r)) \<and>
      (is_fin (Annual_kWh r) \<longrightarrow> finite_row r))"

definition clip01 :: "fl \<Rightarrow> fl" where
  "clip01 v = (if fl_less v (Fin 0) then Fin 0 else if fl_less (Fin 1) v then Fin 1 else v)"

fun is_rooftop :: "technology \<Rightarrow> bool" where
  "is_rooftop (Rooftop_PV k) = True"
| "is_rooftop _ = False"

definition rooftop_rows :: "'a gen_row_scheme list \<Rightarrow> 'a gen_row_scheme list" where
  "rooftop_rows rows = filter (\<lambda>r. is_rooftop (Technology r)) rows"

text \<open>
  The specification's normalisation of a "higher is better" column, in its own words:
  each entry divided by the column maximum, and zero in every row when the column maximum
  is zero or absent. It is compared with what the code computes.
\<close>

definition divide_by_column_max :: "fl list \<Rightarrow> fl list" where
  "divide_by_column_max x =
     (if col_max x = Fin 0 \<or> col_max x = NaN then map (\<lambda>v. Fin 0) x
      else map (\<lambda>v. fl_div v (col_max x)) x)"

definition efficiency_rows :: "'a opt_row_scheme list \<Rightarrow> 'a opt_row_scheme list" where
  "efficiency_rows rows = filter (\<lambda>r. Option r = Efficiency_LED_HVAC) rows"

text \<open>A PVWatts reply and an EIA client with a key, for the error paths.\<close>

definition ac_annual_not_numeric :: requests_get where
  "ac_annual_not_numeric url params =
     Reply 200 (Some (JObj [(''outputs'', JObj [(''ac_annual'', JStr ''NA'')])]))"

definition nrel_with_key :: NRELClient where
  "nrel_with_key = \<lparr>NRELClient.api_key = Some ''KEY'', NRELClient.last_error = None\<rparr>"

definition zero_gen_rows :: "gen_row list" where
  "zero_gen_rows =
     [\<lparr>Technology = Rooftop_PV 7.1, Type = ''On-site solar'', Capex_USD = Fin 12780,
        Annual_kWh = Fin 7983.4104, Load_Covered_pct = Fin 0, Annual_Savings_USD = Fin 0,
        CO2e_Reduction_tpy = Fin 0, Notes = Note_rule_of_thumb\<rparr>,
      \<lparr>Technology = Community_Solar_Subscription 50, Type = ''Off-site solar'',
        Capex_USD = Fin 0, Annual_kWh = Fin 5000, Load_Covered_pct = Fin 0,
        Annual_Savings_USD = Fin 0, CO2e_Reduction_tpy = Fin 0,
        Notes = Note_community_solar\<rparr>]"

text \<open>A PVWatts reply with status 200 whose \<open>ac_annual\<close> is the string \<open>nan\<close>, a key in the
  secrets file, and the scenario of \<open>c1_args\<close> placed at a latitude and longitude.\<close>

definition nan_reply :: requests_get where
  "nan_reply url params =
     Reply 200 (Some (JObj [(''outputs'', JObj [(''ac_annual'', JStr ''nan'')])]))"

definition nan_env :: nrel_env where
  "nan_env = \<lparr>secrets = Some [(''NREL_API_KEY'', ''DEMO_KEY'')], environ = [],
               requests = nan_reply\<rparr>"

definition located_args :: rank_args where
  "located_args =
     c1_args\<lparr>scen := (scen c1_args)\<lparr>site := (site (scen c1_args))
       \<lparr>lat := Some 42.28, lon := Some (- 83.74)\<rparr>\<rparr>\<rparr>"


section \<open>Properties of the charging loop\<close>

lemma match_block_None_iff:
  "match_block hr bs = None \<longleftrightarrow> list_all (\<lambda>b. \<not> in_block hr b) bs"
  by (induction hr bs rule: match_block.induct) (auto simp: in_block_def)

lemma ev_while_continue:
  "remaining st > 1 / 10 ^ 9 \<Longrightarrow>
   ev_while kw bs st = ev_while kw bs (ev_body kw bs st)"
  by (subst ev_while.simps) simp

lemma ev_while_stop:
  "\<not> remaining st > 1 / 10 ^ 9 \<Longrightarrow> ev_while kw bs st = Some (cost st)"
  by (subst ev_while.simps) simp

lemma ev_body_unmatched:
  "match_block (h st) bs = None \<Longrightarrow> ev_body kw bs st = st\<lparr>h := h st + step_h\<rparr>"
  by (simp add: ev_body_def)

text \<open>
  A run that returns started with nothing left to charge, when no block holds any hour:
  by induction on the unfolding of the loop.
\<close>

lemma ev_while_Some_imp:
  assumes "ev_while kw bs st = Some y"
  shows "(\<forall>x. match_block x bs = None) \<longrightarrow> \<not> 1 / 10 ^ 9 < remaining st"
proof (rule ev_while.raw_induct
    [where P = "\<lambda>kw bs st y. (\<forall>x. match_block x bs = None) \<longrightarrow> \<not> 1 / 10 ^ 9 < remaining st",
     OF _ assms])
  fix f :: "real \<Rightarrow> tariff_block list \<Rightarrow> ev_state \<Rightarrow> real option"
    and ckw tbs s r
  assume IH: "\<And>tb s' b y'. f tb s' b = Some y' \<Longrightarrow>
      (\<forall>x. match_block x s' = None) \<longrightarrow> \<not> 1 / 10 ^ 9 < remaining b"
    and unfold: "(if 1 / 10 ^ 9 < remaining s then f ckw tbs (ev_body ckw tbs s)
                  else Some (cost s)) = Some r"
  show "(\<forall>x. match_block x tbs = None) \<longrightarrow> \<not> 1 / 10 ^ 9 < remaining s"
  proof (intro impI notI)
    assume nb: "\<forall>x. match_block x tbs = None" and big: "1 / 10 ^ 9 < remaining s"
    from big unfold have "f ckw tbs (ev_body ckw tbs s) = Some r"
      by simp
    from IH[OF this] nb
    have "\<not> 1 / 10 ^ 9 < remaining (ev_body ckw tbs s)" by blast
    moreover have "remaining (ev_body ckw tbs s) = remaining s"
      using nb by (simp add: ev_body_unmatched)
    ultimately show False using big by simp
  qed
qed

lemma ev_while_diverges:
  assumes "\<forall>x. match_block x bs = None" "1 / 10 ^ 9 < remaining st"
  shows "ev_while kw bs st = None"
  using ev_while_Some_imp[of kw bs st] assms by (cases "ev_while kw bs st") auto

text \<open>
  Claim C6, as the code has it. A pass through the loop body at an hour that lies inside
  no tariff block adds 0.25 to the hour and leaves the remaining charging time and the
  accumulated cost as they were. When the tariff blocks hold no hour at all and the
  charging time \<open>kwh_needed / max(charger_kw, 1e-9)\<close> exceeds the loop's threshold
  \<open>1e-9\<close>, \<open>ev_tou_cost\<close> never returns. (A positive \<open>kwh_needed\<close> alone is not enough:
  the loop is not entered when the charging time is at most \<open>1e-9\<close>.)
\<close>

theorem ev_tou_cost_unmatched_hours:
  "(list_all (\<lambda>b. \<not> in_block (h st) b) tariff_blocks \<longrightarrow>
      h (ev_body charger_kw tariff_blocks st) = h st + 0.25 \<and>
      remaining (ev_body charger_kw tariff_blocks st) = remaining st \<and>
      cost (ev_body charger_kw tariff_blocks st) = cost st) \<and>
   ((\<forall>x. list_all (\<lambda>b. \<not> in_block x b) tariff_blocks) \<and>
    kwh_needed / max charger_kw (1 / 10 ^ 9) > 1 / 10 ^ 9 \<longrightarrow>
      ev_tou_cost kwh_needed start_hour charger_kw tariff_blocks = None)"
proof (intro conjI impI)
  assume "list_all (\<lambda>b. \<not> in_block (h st) b) tariff_blocks"
  then have m: "match_block (h st) tariff_blocks = None"
    by (simp add: match_block_None_iff)
  show "h (ev_body charger_kw tariff_blocks st) = h st + 0.25"
    by (simp add: ev_body_unmatched[OF m] step_h_def)
  show "remaining (ev_body charger_kw tariff_blocks st) = remaining st"
    by (simp add: ev_body_unmatched[OF m])
  show "cost (ev_body charger_kw tariff_blocks st) = cost st"
    by (simp add: ev_body_unmatched[OF m])
next
  assume a: "(\<forall>x. list_all (\<lambda>b. \<not> in_block x b) tariff_blocks) \<and>
    kwh_needed / max charger_kw (1 / 10 ^ 9) > 1 / 10 ^ 9"
  then have "\<forall>x. match_block x tariff_blocks = None"
    by (simp add: match_block_None_iff)
  with a show "ev_tou_cost kwh_needed start_hour charger_kw tariff_blocks = None"
    unfolding ev_tou_cost_def by (intro ev_while_diverges) simp_all
qed

theorem ev_tou_cost_unmatched_hours_witness:
  "h (ev_body 7 [] \<lparr>h = 22, remaining = 30 / 7, cost = 0\<rparr>) = 22 + 0.25 \<and>
   remaining (ev_body 7 [] \<lparr>h = 22, remaining = 30 / 7, cost = 0\<rparr>) = 30 / 7 \<and>
   cost (ev_body 7 [] \<lparr>h = 22, remaining = 30 / 7, cost = 0\<rparr>) = 0 \<and>
   ev_tou_cost 30 22 7 [] = None"
  using ev_tou_cost_unmatched_hours
    [of "\<lparr>h = 22, remaining = 30 / 7, cost = 0\<rparr>" "[]" 7 30 22]
  by simp

text \<open>
  Claim C6 as the specification states it fails: with a positive \<open>kwh_needed\<close> of
  \<open>1e-10\<close> kWh, a 7 kW charger and the empty tariff list the charging time is below the
  loop's threshold, and \<open>ev_tou_cost\<close> returns 0 at once.
\<close>

theorem ev_tou_cost_tiny_energy_returns:
  "(0::real) < 1 / 10 ^ 10 \<and> ev_tou_cost (1 / 10 ^ 10) 22 7 [] = Some 0"
  by (simp add: ev_tou_cost_def ev_while_stop)

text \<open>
  Claim C7: charging 30 kWh from 22:00 with a 7 kW charger, at 0.14 USD/kWh from 19 to 24
  and from 0 to 7 o'clock, costs \<open>30 \<times> 0.14 = 4.20\<close> USD. The loop makes 18 passes, the
  last one for the remaining 1/28 hour, and crosses midnight on the way.
\<close>

theorem ev_tou_cost_offpeak_example:
  "ev_tou_cost 30 22 7 [((19, 24), 0.14), ((0, 7), 0.14)] = Some (30 * 0.14) \<and>
   (30 * 0.14 :: real) = 4.20"
  unfolding ev_tou_cost_def
  by (simp add: ev_while_continue ev_while_stop ev_body_def py_mod24_def step_h_def Let_def)

lemma fl_le_refl: "v \<noteq> NaN \<Longrightarrow> fl_le v v"
  by (cases v) auto

lemma fl_le_total: "a \<noteq> NaN \<Longrightarrow> b \<noteq> NaN \<Longrightarrow> fl_less b a \<or> fl_le a b"
  by (cases a; cases b) auto

lemma fl_less_imp_le: "fl_less a b \<Longrightarrow> fl_le a b"
  by (cases a; cases b) auto

lemma fl_le_trans: "fl_le a b \<Longrightarrow> fl_le b c \<Longrightarrow> fl_le a c"
  by (cases a; cases b; cases c) auto

lemma fl_less_notna: "fl_less a b \<Longrightarrow> a \<noteq> NaN \<and> b \<noteq> NaN"
  by (cases a; cases b) auto

lemma fl_le_notna: "fl_le a b \<Longrightarrow> a \<noteq> NaN \<and> b \<noteq> NaN"
  by (cases a; cases b) auto

lemma fl_le_Fin [simp]: "fl_le (Fin a) (Fin b) = (a \<le> b)"
  by auto

lemma fold_min2:
  assumes "v \<noteq> NaN" "NaN \<notin> set vs"
  shows "fold fl_min2 vs v \<in> set (v # vs) \<and> (\<forall>u \<in> set (v # vs). fl_le (fold fl_min2 vs v) u)"
  using assms
proof (induction vs arbitrary: v)
  case Nil
  then show ?case by (simp add: fl_le_refl)
next
  case (Cons w ws)
  let ?m = "fl_min2 w v"
  have w: "w \<noteq> NaN" and ws: "NaN \<notin> set ws" using Cons.prems by auto
  have m: "?m \<noteq> NaN" using w Cons.prems by (simp add: fl_min2_def)
  have mv: "fl_le ?m v" and mw: "fl_le ?m w"
    using fl_le_total[of w v] w Cons.prems(1)
    by (auto simp: fl_min2_def fl_le_refl fl_less_imp_le)
  from Cons.IH[OF m ws]
  have ih: "fold fl_min2 ws ?m \<in> set (?m # ws)"
    "\<forall>u \<in> set (?m # ws). fl_le (fold fl_min2 ws ?m) u" by auto
  have "fl_le (fold fl_min2 ws ?m) ?m" using ih(2) by simp
  then have "fl_le (fold fl_min2 ws ?m) v" "fl_le (fold fl_min2 ws ?m) w"
    using mv mw fl_le_trans by blast+
  moreover have "?m \<in> {v, w}" by (simp add: fl_min2_def)
  ultimately show ?case using ih by auto
qed

lemma fold_max2:
  assumes "v \<noteq> NaN" "NaN \<notin> set vs"
  shows "fold fl_max2 vs v \<in> set (v # vs) \<and> (\<forall>u \<in> set (v # vs). fl_le u (fold fl_max2 vs v))"
  using assms
proof (induction vs arbitrary: v)
  case Nil
  then show ?case by (simp add: fl_le_refl)
next
  case (Cons w ws)
  let ?m = "fl_max2 w v"
  have w: "w \<noteq> NaN" and ws: "NaN \<notin> set ws" using Cons.prems by auto
  have m: "?m \<noteq> NaN" using w Cons.prems by (simp add: fl_max2_def)
  have mv: "fl_le v ?m" and mw: "fl_le w ?m"
    using fl_le_total[of v w] w Cons.prems(1)
    by (auto simp: fl_max2_def fl_le_refl fl_less_imp_le)
  from Cons.IH[OF m ws]
  have ih: "fold fl_max2 ws ?m \<in> set (?m # ws)"
    "\<forall>u \<in> set (?m # ws). fl_le u (fold fl_max2 ws ?m)" by auto
  have "fl_le ?m (fold fl_max2 ws ?m)" using ih(2) by simp
  then have "fl_le v (fold fl_max2 ws ?m)" "fl_le w (fold fl_max2 ws ?m)"
    using mv mw fl_le_trans by blast+
  moreover have "?m \<in> {v, w}" by (simp add: fl_max2_def)
  ultimately show ?case using ih by auto
qed

lemma col_min_props:
  assumes "\<exists>v \<in> set x. v \<noteq> NaN"
  shows "col_min x \<in> set x" "col_min x \<noteq> NaN"
    "\<And>u. u \<in> set x \<Longrightarrow> u \<noteq> NaN \<Longrightarrow> fl_le (col_min x) u"
proof -
  let ?f = "filter (\<lambda>v. \<not> isna v) x"
  from assms obtain v vs where f: "?f = v # vs"
    by (cases ?f) (auto simp: filter_empty_conv isna_def)
  have nn: "v \<noteq> NaN" "NaN \<notin> set vs"
  proof -
    have "NaN \<notin> set ?f" by (auto simp: isna_def)
    then show "v \<noteq> NaN" "NaN \<notin> set vs" unfolding f by auto
  qed
  have cm: "col_min x = fold fl_min2 vs v" by (simp add: col_min_def f)
  from fold_min2[OF nn] have mem: "col_min x \<in> set ?f"
    and le: "\<forall>u \<in> set ?f. fl_le (col_min x) u"
    unfolding cm f by auto
  from mem show "col_min x \<in> set x" "col_min x \<noteq> NaN" by (auto simp: isna_def)
  fix u assume "u \<in> set x" "u \<noteq> NaN"
  then have "u \<in> set ?f" by (simp add: isna_def)
  with le show "fl_le (col_min x) u" by blast
qed

lemma col_max_props:
  assumes "\<exists>v \<in> set x. v \<noteq> NaN"
  shows "col_max x \<in> set x" "col_max x \<noteq> NaN"
    "\<And>u. u \<in> set x \<Longrightarrow> u \<noteq> NaN \<Longrightarrow> fl_le u (col_max x)"
proof -
  let ?f = "filter (\<lambda>v. \<not> isna v) x"
  from assms obtain v vs where f: "?f = v # vs"
    by (cases ?f) (auto simp: filter_empty_conv isna_def)
  have nn: "v \<noteq> NaN" "NaN \<notin> set vs"
  proof -
    have "NaN \<notin> set ?f" by (auto simp: isna_def)
    then show "v \<noteq> NaN" "NaN \<notin> set vs" unfolding f by auto
  qed
  have cm: "col_max x = fold fl_max2 vs v" by (simp add: col_max_def f)
  from fold_max2[OF nn] have mem: "col_max x \<in> set ?f"
    and le: "\<forall>u \<in> set ?f. fl_le u (col_max x)"
    unfolding cm f by auto
  from mem show "col_max x \<in> set x" "col_max x \<noteq> NaN" by (auto simp: isna_def)
  fix u assume "u \<in> set x" "u \<noteq> NaN"
  then have "u \<in> set ?f" by (simp add: isna_def)
  with le show "fl_le u (col_max x)" by blast
qed

lemma col_min_all_na: "\<forall>v \<in> set x. v = NaN \<Longrightarrow> col_min x = NaN"
  by (simp add: col_min_def isna_def filter_empty_conv[THEN iffD2])

lemma fl_key_le: "a \<noteq> NaN \<Longrightarrow> b \<noteq> NaN \<Longrightarrow> fl_key a \<le> fl_key b \<Longrightarrow> fl_le a b"
  by (cases a; cases b) (auto simp: less_eq_prod_def)

lemma fl_key_neg_le:
  "a \<noteq> NaN \<Longrightarrow> b \<noteq> NaN \<Longrightarrow> fl_key (fl_neg b) \<le> fl_key (fl_neg a) \<Longrightarrow> fl_le a b"
  by (cases a; cases b) (auto simp: less_eq_prod_def)

lemma sorts_stable_argsort: "sorts stable_argsort"
  unfolding sorts_def is_argsort_def
proof (intro allI impI conjI)
  fix ks :: "fl list"
  assume nn: "NaN \<notin> set ks"
  show "mset (stable_argsort ks) = mset [0 ..< length ks]"
    by (simp add: stable_argsort_def)
  have "sorted (map (\<lambda>i. fl_key (ks ! i)) (stable_argsort ks))"
    unfolding stable_argsort_def by (rule sorted_sort_key)
  then have s: "sorted_wrt (\<lambda>i j. fl_key (ks ! i) \<le> fl_key (ks ! j)) (stable_argsort ks)"
    by (simp add: sorted_wrt_map)
  have mem: "i < length ks" if "i \<in> set (stable_argsort ks)" for i
    using that by (simp add: stable_argsort_def)
  show "sorted_wrt (\<lambda>i j. fl_le (ks ! i) (ks ! j)) (stable_argsort ks)"
  proof (rule sorted_wrt_mono_rel[OF _ s])
    fix i j assume "i \<in> set (stable_argsort ks)" "j \<in> set (stable_argsort ks)"
      and le: "fl_key (ks ! i) \<le> fl_key (ks ! j)"
    then have "ks ! i \<in> set ks" "ks ! j \<in> set ks" using mem by simp_all
    with nn have "ks ! i \<noteq> NaN" "ks ! j \<noteq> NaN" by metis+
    with le show "fl_le (ks ! i) (ks ! j)" using fl_key_le by blast
  qed
qed

text \<open>sort_values\<close>

lemma nargsort_no_nan:
  assumes "NaN \<notin> set items"
  shows "nargsort_descending q items =
           rev (map (\<lambda>j. rev [0 ..< length items] ! j) (q (rev items)))"
proof -
  have nth_ok: "items ! i \<noteq> NaN" if "i < length items" for i
    using assms nth_mem[OF that] by metis
  have f1: "filter (\<lambda>i. \<not> isna (items ! i)) [0 ..< length items] = [0 ..< length items]"
    by (simp add: filter_id_conv isna_def nth_ok)
  have f2: "filter (\<lambda>i. isna (items ! i)) [0 ..< length items] = []"
    by (simp add: filter_empty_conv isna_def nth_ok)
  have "map (\<lambda>i. items ! i) (rev [0 ..< length items]) = rev items"
    by (simp add: rev_map[symmetric] map_nth)
  then show ?thesis
    by (simp add: nargsort_descending_def Let_def f1 f2)
qed

lemma sort_values_no_nan:
  assumes q: "sorts q" and nn: "NaN \<notin> set (map by df)"
  shows "mset (sort_values_descending q by df) = mset df"
    and "sorted_wrt (\<lambda>a b. fl_le (by b) (by a)) (sort_values_descending q by df)"
proof -
  let ?items = "map by df"
  let ?n = "length df"
  let ?ri = "rev [0 ..< ?n]"
  let ?ix = "q (rev ?items)"
  have "NaN \<notin> set (rev ?items)" using nn by simp
  with q have arg: "is_argsort ?ix (rev ?items)" by (simp add: sorts_def)
  then have ms: "mset ?ix = mset [0 ..< ?n]"
    and so: "sorted_wrt (\<lambda>i j. fl_le (rev ?items ! i) (rev ?items ! j)) ?ix"
    by (simp_all add: is_argsort_def)
  have mem: "i < ?n" if "i \<in> set ?ix" for i
  proof -
    from that have "i \<in># mset ?ix" by simp
    then have "i \<in> set [0 ..< ?n]" unfolding ms by simp
    then show ?thesis by simp
  qed
  have out: "sort_values_descending q by df = map (\<lambda>i. df ! i) (rev (map (\<lambda>j. ?ri ! j) ?ix))"
    using nargsort_no_nan[OF nn] by (simp add: sort_values_descending_def)
  have "mset (map (\<lambda>j. ?ri ! j) ?ix) = image_mset (\<lambda>j. ?ri ! j) (mset [0 ..< ?n])"
    using ms by (metis mset_map)
  also have "\<dots> = mset (map (\<lambda>j. ?ri ! j) [0 ..< length ?ri])" by simp
  also have "\<dots> = mset ?ri" by (simp only: map_nth)
  finally have m1: "mset (map (\<lambda>j. ?ri ! j) ?ix) = mset [0 ..< ?n]" by simp
  have "mset (sort_values_descending q by df)
          = image_mset (\<lambda>i. df ! i) (mset (map (\<lambda>j. ?ri ! j) ?ix))"
    unfolding out by simp
  also have "\<dots> = mset (map (\<lambda>i. df ! i) [0 ..< ?n])" unfolding m1 by simp
  also have "\<dots> = mset df" by (simp only: map_nth)
  finally show "mset (sort_values_descending q by df) = mset df" .
  have key: "by (df ! (?ri ! i)) = rev ?items ! i" if "i < ?n" for i
    using that by (simp add: rev_nth)
  have "sorted_wrt (\<lambda>i j. fl_le (by (df ! (?ri ! i))) (by (df ! (?ri ! j)))) ?ix"
    by (rule sorted_wrt_mono_rel[OF _ so]) (simp add: key mem)
  then show "sorted_wrt (\<lambda>a b. fl_le (by b) (by a)) (sort_values_descending q by df)"
    unfolding out by (simp add: sorted_wrt_map sorted_wrt_rev)
qed

lemma pv_capex_pos: "pv_capex_usd (max 1 x) 1800 > 0"
  by (simp add: pv_capex_usd_def max_def)

lemma pv_energy_yield_default:
  "pv_energy_yield_kw la lo k None = Some (k * (300 * 4.2))"
  by (simp add: pv_energy_yield_kw_def solar_resource_def)

lemma lcoe_Some_iff:
  "(\<exists>v. lcoe c om g d n = Some v) \<longleftrightarrow> (\<not> (1 + d = 0 \<and> n < 0) \<and> (1 + d) powi n \<noteq> 1)"
  by (auto simp: lcoe_def py_pow_def py_div_def split: Option.bind_splits if_splits)

lemma option_rows_Some_iff: "(\<exists>rows. option_rows sc = Some rows) \<longleftrightarrow> lcoe_defined sc"
proof -
  have "(\<exists>rows. option_rows sc = Some rows) \<longleftrightarrow>
        (\<exists>v. lcoe (pv_capex_usd (max 1 (py_round1 (py_or (annual_electricity_kwh (site sc)) 10000 / 1400))) 1800)
                 (0.015 * pv_capex_usd (max 1 (py_round1 (py_or (annual_electricity_kwh (site sc)) 10000 / 1400))) 1800)
                 (max 1 (py_round1 (py_or (annual_electricity_kwh (site sc)) 10000 / 1400)) * (300 * 4.2))
                 (discount_rate sc) (analysis_years sc) = Some v)"
    by (auto simp: option_rows_def Let_def pv_energy_yield_default split: Option.bind_splits)
  then show ?thesis by (simp add: lcoe_Some_iff lcoe_defined_def)
qed

lemma option_rows_labels:
  assumes "option_rows sc = Some rows"
  shows "\<exists>k. map Option rows =
           [Solar_PV k, Efficiency_LED_HVAC]
           @ (if building_type (site sc) = ''residential'' then [Heat_Pump_Water_Heater] else [])
           @ [Transport_EV, Transport_mode_shift]"
  using assms
  by (auto simp: option_rows_def Let_def split: Option.bind_splits)

lemma option_rows_costed:
  assumes "option_rows sc = Some rows"
  shows "\<forall>r \<in> set rows. costed r"
  using assms pv_capex_pos
  by (auto simp: option_rows_def Let_def costed_def split: Option.bind_splits)

lemma option_rows_mode_shift:
  assumes "option_rows sc = Some rows"
  shows "\<exists>r \<in> set rows. is_fin (Simple_Payback_yr r)"
  using assms
  by (auto simp: option_rows_def Let_def simple_payback_def split: Option.bind_splits)

lemma is_fin_conv: "is_fin v \<longleftrightarrow> (\<exists>r. v = Fin r)"
  by (cases v) auto

lemma fillna_id: "NaN \<notin> set x \<Longrightarrow> fillna d x = x"
  by (induction x) (auto simp: fillna_def isna_def)

lemma fin_col_bounds:
  assumes fin: "\<forall>v \<in> set x. is_fin v" and ne: "x \<noteq> []"
  obtains m M where "col_min x = Fin m" "col_max x = Fin M"
    "\<And>a. Fin a \<in> set x \<Longrightarrow> m \<le> a \<and> a \<le> M"
proof -
  from ne obtain v0 where v0: "v0 \<in> set x" by (cases x) auto
  with fin have ex: "\<exists>v \<in> set x. v \<noteq> NaN" by (auto simp: is_fin_conv)
  from col_min_props(1)[OF ex] fin obtain m where m: "col_min x = Fin m"
    by (auto simp: is_fin_conv)
  from col_max_props(1)[OF ex] fin obtain M where M: "col_max x = Fin M"
    by (auto simp: is_fin_conv)
  have "m \<le> a \<and> a \<le> M" if "Fin a \<in> set x" for a
    using col_min_props(3)[OF ex that] col_max_props(3)[OF ex that] m M by simp
  with m M that show ?thesis by blast
qed

lemma norm_max_unit:
  assumes fin: "\<forall>v \<in> set x. is_fin v"
  shows "\<forall>v \<in> set (norm_max x). unit_fl v"
proof (cases "x = []")
  case True
  then show ?thesis by (simp add: norm_max_def)
next
  case False
  from fin_col_bounds[OF fin False] obtain m M where
    m: "col_min x = Fin m" and M: "col_max x = Fin M"
    and b: "\<And>a. Fin a \<in> set x \<Longrightarrow> m \<le> a \<and> a \<le> M" by blast
  show ?thesis
  proof
    fix v assume "v \<in> set (norm_max x)"
    then obtain u where u: "u \<in> set x"
      and v: "v = fl_div (fl_sub u (Fin m)) (fl_add (fl_sub (Fin M) (Fin m)) (Fin (1 / 10 ^ 9)))"
      by (auto simp: norm_max_def m M)
    from u fin obtain a where a: "u = Fin a" by (auto simp: is_fin_conv)
    with u b have ab: "m \<le> a" "a \<le> M" by auto
    then have pos: "M - m + 1 / 10 ^ 9 > 0" by simp
    have "v = Fin ((a - m) / (M - m + 1 / 10 ^ 9))"
      using pos by (simp add: v a fl_sub_def)
    moreover have "0 \<le> (a - m) / (M - m + 1 / 10 ^ 9)"
      using ab pos by simp
    moreover have "(a - m) / (M - m + 1 / 10 ^ 9) \<le> 1"
      using ab pos by (simp add: divide_le_eq)
    ultimately show "unit_fl v" by simp
  qed
qed

lemma norm_min_unit:
  assumes pi: "\<forall>v \<in> set x. pos_or_inf v" and ex: "\<exists>v \<in> set x. is_fin v"
  shows "\<forall>v \<in> set (norm_min x). unit_fl v"
proof -
  have nz: "replace [Fin 0] NaN x = x"
  proof -
    have "(if v \<in> set [Fin 0] then NaN else v) = v" if "v \<in> set x" for v
      using pi that by (cases v) auto
    then show ?thesis by (simp add: replace_def map_idI)
  qed
  from ex have ex': "\<exists>v \<in> set x. v \<noteq> NaN" by (auto simp: is_fin_conv)
  from ex obtain q where q: "Fin q \<in> set x" by (auto simp: is_fin_conv)
  have nn: "u \<noteq> NaN" if "u \<in> set x" for u using pi that by (cases u) auto
  have "fl_le (col_min x) (Fin q)" using col_min_props(3)[OF ex' q] by simp
  moreover have "col_min x \<in> set x" by (rule col_min_props(1)[OF ex'])
  ultimately obtain m where m: "col_min x = Fin m" and mpos: "m > 0"
    using pi by (cases "col_min x") auto
  show ?thesis
  proof
    fix v assume "v \<in> set (norm_min x)"
    then obtain u where u: "u \<in> set x" and v: "v = fl_div (Fin m) u"
      by (auto simp: norm_min_def nz m)
    from pi u have "pos_or_inf u" by blast
    then show "unit_fl v"
    proof (cases u)
      case (Fin p)
      with \<open>pos_or_inf u\<close> have p: "p > 0" by simp
      have "m \<le> p" using col_min_props(3)[OF ex' u] nn[OF u] m Fin by simp
      then show ?thesis using p mpos by (simp add: v Fin)
    qed (simp_all add: v)
  qed
qed

lemma unit_combine4:
  assumes "unit_fl a" "unit_fl b" "unit_fl c" "unit_fl d"
  shows "unit_fl (fl_add (fl_add (fl_add (fl_mul (Fin w_payback) a) (fl_mul (Fin w_savings) b))
                    (fl_mul (Fin w_co2e) c)) (fl_mul (Fin w_practicality) d))"
proof -
  from assms obtain ra rb rc rd where
    e: "a = Fin ra" "b = Fin rb" "c = Fin rc" "d = Fin rd"
    by (cases a; cases b; cases c; cases d) auto
  with assms have r: "0 \<le> ra" "ra \<le> 1" "0 \<le> rb" "rb \<le> 1" "0 \<le> rc" "rc \<le> 1" "0 \<le> rd" "rd \<le> 1"
    by auto
  show ?thesis
    using r by (simp add: e w_payback_def w_savings_def w_co2e_def w_practicality_def)
qed

lemma col_add_nth:
  "i < length x \<Longrightarrow> i < length y \<Longrightarrow> col_add x y ! i = fl_add (x ! i) (y ! i)"
  by (simp add: col_add_def)

lemma col_scale_nth: "i < length x \<Longrightarrow> col_scale w x ! i = fl_mul (Fin w) (x ! i)"
  by (simp add: col_scale_def)

lemma length_col_add [simp]: "length (col_add x y) = min (length x) (length y)"
  by (simp add: col_add_def)

lemma length_col_scale [simp]: "length (col_scale w x) = length x"
  by (simp add: col_scale_def)

lemma length_norm_max [simp]: "length (norm_max x) = length x"
  by (simp add: norm_max_def)

lemma length_norm_min [simp]: "length (norm_min x) = length x"
  by (simp add: norm_min_def replace_def)

lemma length_fillna [simp]: "length (fillna d x) = length x"
  by (simp add: fillna_def)

lemma length_mcda_scores [simp]: "length (mcda_scores df) = length df"
  by (simp add: mcda_scores_def Let_def)

lemma mcda_scores_unit:
  assumes c: "\<forall>r \<in> set df. costed r" and ex: "\<exists>r \<in> set df. is_fin (Simple_Payback_yr r)"
  shows "\<forall>r \<in> set (mcda_scores df). unit_fl (MCDA_Score_0to1 r)"
proof -
  let ?pb = "map Simple_Payback_yr df"
  have pbi: "\<forall>v \<in> set ?pb. pos_or_inf v"
    using c by (auto simp: costed_def simple_payback_def)
  then have "NaN \<notin> set ?pb" by (metis pos_or_inf.simps(4))
  then have fpb: "fillna (col_max ?pb) ?pb = ?pb" by (rule fillna_id)
  have exf: "\<exists>v \<in> set ?pb. is_fin v" using ex by auto
  have sp: "\<forall>v \<in> set (norm_min ?pb). unit_fl v" by (rule norm_min_unit[OF pbi exf])
  have fin_nn: "NaN \<notin> set x" if "\<forall>v \<in> set x. is_fin v" for x
    using that by (metis is_fin.simps(4))
  have fs: "\<forall>v \<in> set (map opt_row.Annual_Savings_USD df). is_fin v"
    and fc: "\<forall>v \<in> set (map opt_row.CO2e_Reduction_tpy df). is_fin v"
    and fp: "\<forall>v \<in> set (map Practicality df). is_fin v"
    using c by (auto simp: costed_def)
  note ids = fpb fillna_id[OF fin_nn[OF fs]] fillna_id[OF fin_nn[OF fc]] fillna_id[OF fin_nn[OF fp]]
  show ?thesis
  proof
    fix r assume "r \<in> set (mcda_scores df)"
    then obtain i where i: "i < length df" and r: "r = mcda_scores df ! i"
      by (metis in_set_conv_nth length_mcda_scores)
    have "MCDA_Score_0to1 r =
      fl_add (fl_add (fl_add (fl_mul (Fin w_payback) (norm_min ?pb ! i))
          (fl_mul (Fin w_savings) (norm_max (map opt_row.Annual_Savings_USD df) ! i)))
          (fl_mul (Fin w_co2e) (norm_max (map opt_row.CO2e_Reduction_tpy df) ! i)))
          (fl_mul (Fin w_practicality) (norm_max (map Practicality df) ! i))"
      using i by (simp add: r mcda_scores_def Let_def ids col_add_nth col_scale_nth
          opt_row.extend_def scored_row.fields_def)
    moreover have "unit_fl (norm_min ?pb ! i)" using sp i by simp
    moreover have "unit_fl (norm_max (map opt_row.Annual_Savings_USD df) ! i)"
      using norm_max_unit[OF fs] i by simp
    moreover have "unit_fl (norm_max (map opt_row.CO2e_Reduction_tpy df) ! i)"
      using norm_max_unit[OF fc] i by simp
    moreover have "unit_fl (norm_max (map Practicality df) ! i)"
      using norm_max_unit[OF fp] i by simp
    ultimately show "unit_fl (MCDA_Score_0to1 r)" by (simp add: unit_combine4)
  qed
qed

lemma map_zip_same: "map g (zip xs (map f xs)) = map (\<lambda>x. g (x, f x)) xs"
  by (induction xs) auto

lemma rank_norm_p_alt:
  "rank_norm_p df =
     (let payback = replace [PInf, Fin 0] NaN (payback_column df);
          min_p = (if \<not> list_all isna payback then col_min payback else NaN)
      in map (\<lambda>p. if \<not> isna p then clip01 (fl_div min_p p) else Fin 0) payback)"
  by (simp add: rank_norm_p_def Let_def clip_def map_zip_same clip01_def
      flip: map_map[of _ "\<lambda>v. fl_div _ v", unfolded comp_def])


lemma clip01_unit: "v \<noteq> NaN \<Longrightarrow> unit_fl (clip01 v)"
  by (cases v) (auto simp: clip01_def)

lemma payback_column_finite:
  assumes "finite_row r"
  shows "(if fl_less (Fin 0) (Annual_Savings_USD r)
          then fl_div (Capex_USD r) (Annual_Savings_USD r) else PInf) =
         simple_payback (fin_val (Capex_USD r)) (fin_val (Annual_Savings_USD r))"
  using assms
  by (cases "Capex_USD r"; cases "Annual_Savings_USD r")
     (auto simp: finite_row_def simple_payback_def)

lemma payback_column_entries:
  assumes "\<forall>r \<in> set df. finite_row r"
  shows "\<forall>v \<in> set (payback_column df). is_fin v \<or> v = PInf"
  using assms
  by (auto simp: payback_column_def payback_column_finite simple_payback_def)

lemma rank_norm_p_unit:
  assumes "\<forall>r \<in> set df. finite_row r"
  shows "\<forall>v \<in> set (rank_norm_p df). unit_fl v"
proof -
  let ?pb = "replace [PInf, Fin 0] NaN (payback_column df)"
  have ent: "\<forall>v \<in> set ?pb. v = NaN \<or> (\<exists>p. v = Fin p \<and> p \<noteq> 0)"
    using payback_column_entries[OF assms] by (auto simp: replace_def is_fin_conv)
  show ?thesis
  proof (cases "list_all isna ?pb")
    case True
    then show ?thesis by (auto simp: rank_norm_p_alt Let_def list_all_iff)
  next
    case False
    then have ex: "\<exists>v \<in> set ?pb. v \<noteq> NaN" by (auto simp: list_all_iff isna_def)
    from col_min_props(1,2)[OF ex] ent obtain m where m: "col_min ?pb = Fin m"
      by auto
    show ?thesis
    proof
      fix v assume "v \<in> set (rank_norm_p df)"
      then obtain p where p: "p \<in> set ?pb"
        and v: "v = (if \<not> isna p then clip01 (fl_div (Fin m) p) else Fin 0)"
        using False by (auto simp: rank_norm_p_alt Let_def m)
      show "unit_fl v"
      proof (cases "isna p")
        case True
        then show ?thesis by (simp add: v)
      next
        case na: False
        with ent p obtain q where q: "p = Fin q" "q \<noteq> 0" by (auto simp: isna_def)
        then show ?thesis using na by (simp add: v clip01_unit)
      qed
    qed
  qed
qed



lemma length_clip_lower [simp]: "length (clip_lower lo x) = length x"
  by (simp add: clip_lower_def)

lemma length_rank_norm_s [simp]: "length (rank_norm_s df) = length df"
  by (simp add: rank_norm_s_def Let_def)

lemma length_rank_norm_c [simp]: "length (rank_norm_c df) = length df"
  by (simp add: rank_norm_c_def Let_def)

lemma length_rank_norm_p [simp]: "length (rank_norm_p df) = length df"
  by (simp add: rank_norm_p_alt Let_def replace_def payback_column_def)

lemma length_payback_column [simp]: "length (payback_column df) = length df"
  by (simp add: payback_column_def)

lemma length_rank_scores [simp]: "length (rank_scores g df) = length df"
  by (simp add: rank_scores_def Let_def split: prod.splits)



lemma goal_weights_convex:
  assumes "goal_weights g = (w_s, w_c, w_p)"
  shows "w_s \<ge> 0 \<and> w_c \<ge> 0 \<and> w_p \<ge> 0 \<and> w_s + w_c + w_p = 1"
  using assms by (auto simp: goal_weights_def split: if_splits)

lemma unit_combine3:
  assumes "unit_fl a" "unit_fl b" "unit_fl c"
    and w: "w_s \<ge> 0" "w_c \<ge> 0" "w_p \<ge> 0" "w_s + w_c + w_p = 1"
  shows "unit_fl (fl_add (fl_add (fl_mul (Fin w_s) a) (fl_mul (Fin w_c) b)) (fl_mul (Fin w_p) c))"
proof -
  from assms obtain ra rb rc where e: "a = Fin ra" "b = Fin rb" "c = Fin rc"
    by (cases a; cases b; cases c) auto
  with assms have r: "0 \<le> ra" "ra \<le> 1" "0 \<le> rb" "rb \<le> 1" "0 \<le> rc" "rc \<le> 1"
    by auto
  have lo: "0 \<le> w_s * ra + w_c * rb + w_p * rc"
    using r w by (intro add_nonneg_nonneg mult_nonneg_nonneg)
  have "w_s * ra \<le> w_s * 1" "w_c * rb \<le> w_c * 1" "w_p * rc \<le> w_p * 1"
    using r w by (intro mult_left_mono; simp)+
  then have hi: "w_s * ra + w_c * rb + w_p * rc \<le> 1" using w(4) by linarith
  show ?thesis using lo hi by (simp add: e)
qed

lemma rank_scores_nth:
  assumes "i < length df" and "goal_weights g = (w_s, w_c, w_p)"
  shows "Score_0to1 (rank_scores g df ! i) =
           (let v = fl_add (fl_add (fl_mul (Fin w_s) (rank_norm_s df ! i))
                                   (fl_mul (Fin w_c) (rank_norm_c df ! i)))
                           (fl_mul (Fin w_p) (rank_norm_p df ! i))
            in if isna v then Fin 0 else v)"
    and "Payback_yr (rank_scores g df ! i) = payback_column df ! i"
    and "gen_row.truncate (rank_scores g df ! i) = df ! i"
  using assms
  by (simp_all add: rank_scores_def Let_def col_add_nth col_scale_nth fillna_def
      gen_row.extend_def ranked_row.fields_def gen_row.truncate_def)

lemma clip01_unit_or_nan: "unit_or_nan (clip01 v)"
  by (cases v) (auto simp: clip01_def)

lemma rank_norm_p_unit_or_nan: "\<forall>v \<in> set (rank_norm_p df). unit_or_nan v"
  by (auto simp: rank_norm_p_alt Let_def clip01_unit_or_nan)

lemma divide_by_max_unit_or_nan:
  assumes cl: "\<forall>v \<in> set x. v = NaN \<or> v = PInf \<or> (\<exists>a. v = Fin a \<and> a \<ge> 0)"
    and v: "v \<in> set x"
  shows "unit_or_nan (fl_div v (np_or (col_max x) (Fin 1)))"
proof (cases "v = NaN")
  case True
  then show ?thesis by simp
next
  case False
  with v have ex: "\<exists>u \<in> set x. u \<noteq> NaN" by blast
  have le: "fl_le v (col_max x)" by (rule col_max_props(3)[OF ex v False])
  have "col_max x \<in> set x" "col_max x \<noteq> NaN" by (rule col_max_props(1,2)[OF ex])+
  with cl consider "col_max x = PInf" | b where "col_max x = Fin b" "b \<ge> 0" by blast
  then show ?thesis
  proof cases
    case 1
    from cl v False consider "v = PInf" | a where "v = Fin a" by blast
    then show ?thesis by cases (simp_all add: 1 np_or_def)
  next
    case 2
    from cl v False le 2 obtain a where a: "v = Fin a" "0 \<le> a" "a \<le> b" by auto
    then show ?thesis using 2 by (auto simp: np_or_def divide_le_eq)
  qed
qed

lemma clip_lower_entries:
  "\<forall>v \<in> set (clip_lower (Fin 0) x). v = NaN \<or> v = PInf \<or> (\<exists>a. v = Fin a \<and> a \<ge> 0)"
proof
  fix v assume "v \<in> set (clip_lower (Fin 0) x)"
  then have "\<exists>u. v = (if fl_less u (Fin 0) then Fin 0 else u)"
    unfolding clip_lower_def by auto
  then obtain u where "v = (if fl_less u (Fin 0) then Fin 0 else u)" ..
  then show "v = NaN \<or> v = PInf \<or> (\<exists>a. v = Fin a \<and> a \<ge> 0)"
    by (cases u) (auto split: if_splits)
qed

lemma rank_norm_s_unit_or_nan: "\<forall>v \<in> set (rank_norm_s df). unit_or_nan v"
  using divide_by_max_unit_or_nan[OF clip_lower_entries]
  by (auto simp: rank_norm_s_def Let_def)

lemma rank_norm_c_unit_or_nan: "\<forall>v \<in> set (rank_norm_c df). unit_or_nan v"
  using divide_by_max_unit_or_nan[OF clip_lower_entries]
  by (auto simp: rank_norm_c_def Let_def)

lemma unit_or_nan_combine3:
  assumes "unit_or_nan a" "unit_or_nan b" "unit_or_nan c"
    and w: "w_s \<ge> 0" "w_c \<ge> 0" "w_p \<ge> 0" "w_s + w_c + w_p = 1"
  shows "unit_or_nan (fl_add (fl_add (fl_mul (Fin w_s) a) (fl_mul (Fin w_c) b)) (fl_mul (Fin w_p) c))"
proof (cases "a = NaN \<or> b = NaN \<or> c = NaN")
  case True
  with assms(1-3) show ?thesis by (cases a; cases b; cases c) auto
next
  case False
  with assms(1-3) have "unit_fl a" "unit_fl b" "unit_fl c"
    by (cases a; cases b; cases c; simp)+
  from unit_combine3[OF this w] show ?thesis
    by (cases "fl_add (fl_add (fl_mul (Fin w_s) a) (fl_mul (Fin w_c) b)) (fl_mul (Fin w_p) c)")
       auto
qed

lemma rank_scores_unit:
  "\<forall>r \<in> set (rank_scores g df). unit_fl (Score_0to1 r)"
proof
  fix r assume "r \<in> set (rank_scores g df)"
  then obtain i where i: "i < length df" and r: "r = rank_scores g df ! i"
    by (metis in_set_conv_nth length_rank_scores)
  obtain w_s w_c w_p where w: "goal_weights g = (w_s, w_c, w_p)"
    by (cases "goal_weights g") auto
  have s: "unit_or_nan (rank_norm_s df ! i)"
    using rank_norm_s_unit_or_nan[of df] i by (simp add: length_rank_norm_s)
  have c: "unit_or_nan (rank_norm_c df ! i)"
    using rank_norm_c_unit_or_nan[of df] i by (simp add: length_rank_norm_c)
  have p: "unit_or_nan (rank_norm_p df ! i)"
    using rank_norm_p_unit_or_nan[of df] i by (simp add: length_rank_norm_p)
  let ?v = "fl_add (fl_add (fl_mul (Fin w_s) (rank_norm_s df ! i))
                           (fl_mul (Fin w_c) (rank_norm_c df ! i)))
                   (fl_mul (Fin w_p) (rank_norm_p df ! i))"
  have u: "unit_or_nan ?v"
    using goal_weights_convex[OF w] by (intro unit_or_nan_combine3[OF s c p]) simp_all
  show "unit_fl (Score_0to1 r)"
    unfolding r rank_scores_nth(1)[OF i w] Let_def
    using u by (cases ?v) (auto simp: isna_def)
qed

lemma py_or_nonzero: "d \<noteq> 0 \<Longrightarrow> py_or v d \<noteq> 0"
  by (auto simp: py_or_def split: option.splits)

lemma annual_kwh_nonzero: "annual_kwh_of a \<noteq> 0"
  unfolding annual_kwh_of_def by (rule py_or_nonzero) simp

lemma py_div_annual: "py_div x (annual_kwh_of a) = Some (x / annual_kwh_of a)"
  by (simp add: py_div_def annual_kwh_nonzero)

lemma py_fdiv_annual: "py_fdiv x (annual_kwh_of a) = Some (fl_div x (Fin (annual_kwh_of a)))"
  by (simp add: py_fdiv_def annual_kwh_nonzero)

lemma NRELClient_init_None: "(NRELClient_init env = None) = (secrets env = None)"
  by (simp add: NRELClient_init_def split: option.splits)

lemma pv_kwh_year_None:
  "(pv_kwh_year env la lo k t s l = None) = (la \<noteq> None \<and> lo \<noteq> None \<and> secrets env = None)"
  using NRELClient_init_None[of env]
  by (auto simp: pv_kwh_year_def split: option.splits prod.splits)

lemma pv_kwh_year_fallback:
  assumes "pv_kwh_year env la lo k t s l = Some ((y, used), n)"
  shows "used \<or> is_fin y"
  using assms
  by (auto simp: pv_kwh_year_def split: option.splits prod.splits if_splits)

lemma py_min_fin: "is_fin b \<Longrightarrow> is_fin (py_min (Fin y) b)"
  by (cases b) (auto simp: py_min_def)

lemma py_min_fin_pinf: "b = PInf \<or> is_fin b \<Longrightarrow> is_fin (py_min (Fin y) b)"
  by (cases b) (auto simp: py_min_def)

lemma py_max_zero: "py_max (Fin 0) x = PInf \<or> is_fin (py_max (Fin 0) x)"
  by (cases x) (auto simp: py_max_def)

lemma rooftop_pv_None:
  "(rooftop_pv env a = None) =
     (lat (site (scen a)) \<noteq> None \<and> lon (site (scen a)) \<noteq> None \<and> secrets env = None)"
proof (cases "pv_kwh_year env (lat (site (scen a))) (lon (site (scen a))) (kw_roof_of a)
                (tilt a) (shading a) (pv_losses_pct a)")
  case None
  then show ?thesis
    using pv_kwh_year_None[of env "lat (site (scen a))" "lon (site (scen a))" "kw_roof_of a"
        "tilt a" "shading a" "pv_losses_pct a"]
    by (simp add: rooftop_pv_def Let_def)
next
  case (Some res)
  then show ?thesis
    using pv_kwh_year_None[of env "lat (site (scen a))" "lon (site (scen a))" "kw_roof_of a"
        "tilt a" "shading a" "pv_losses_pct a"]
    by (simp add: rooftop_pv_def Let_def py_fdiv_annual)
qed

lemma rooftop_pv_sound:
  assumes "rooftop_pv env a = Some (row, u, used, n)"
  shows "sound_row row"
proof -
  from assms obtain y n0 where
    pv: "pv_kwh_year env (lat (site (scen a))) (lon (site (scen a))) (kw_roof_of a)
           (tilt a) (shading a) (pv_losses_pct a) = Some ((y, used), n0)"
    and row: "Annual_kWh row = y" "is_fin (Capex_USD row)"
      "Notes row = (if used then Note_PVWatts else Note_rule_of_thumb)"
      "Annual_Savings_USD row =
         fl_mul (py_min y (Fin (annual_kwh_of a * (target_load_pct a / 100))))
           (Fin (elec_rate_usd_per_kwh (scen a)))"
      "CO2e_Reduction_tpy row =
         fl_div (fl_mul (py_min y (Fin (annual_kwh_of a * (target_load_pct a / 100))))
                   (Fin (grid_kg_per_kwh_of a))) (Fin 1000)"
    by (auto simp: rooftop_pv_def Let_def py_fdiv_annual split: bind_splits)
  have "is_fin (Annual_kWh row) \<longrightarrow> finite_row row"
    using row(2) by (cases y) (auto simp: finite_row_def row(1,4,5) py_min_def)
  moreover have "Notes row \<noteq> Note_PVWatts \<longrightarrow> is_fin (Annual_kWh row)"
    using pv_kwh_year_fallback[OF pv] by (auto simp: row)
  ultimately show ?thesis using row(2) by (simp add: sound_row_def)
qed

lemma ground_pv_None:
  "ground_pv env a u n = None \<Longrightarrow>
     lat (site (scen a)) \<noteq> None \<and> lon (site (scen a)) \<noteq> None \<and> secrets env = None"
proof -
  let ?k = "max 0 (annual_kwh_of a / 1000 - kw_roof_of a)"
  assume g: "ground_pv env a u n = None"
  show ?thesis
  proof (cases "pv_kwh_year env (lat (site (scen a))) (lon (site (scen a))) ?k
                  (tilt a) (shading a) (pv_losses_pct a)")
    case None
    then show ?thesis by (simp add: pv_kwh_year_None)
  next
    case (Some res)
    with g show ?thesis
      by (simp add: ground_pv_def Let_def py_fdiv_annual split: if_splits)
  qed
qed

lemma ground_pv_sound:
  assumes "ground_pv env a u n = Some (rows, used, n2)"
  shows "(\<forall>x \<in> set rows. sound_row x) \<and> length rows \<le> 1"
proof (cases "category a \<in> set [''Business'', ''Community'', ''City''] \<and>
              max 0 (annual_kwh_of a / 1000 - kw_roof_of a) > 0")
  case False
  with assms show ?thesis by (auto simp: ground_pv_def Let_def)
next
  case True
  let ?k = "max 0 (annual_kwh_of a / 1000 - kw_roof_of a)"
  let ?cap = "py_max (Fin 0) (fl_sub (Fin (annual_kwh_of a * (target_load_pct a / 100))) u)"
  from assms True obtain y row where
    pv: "pv_kwh_year env (lat (site (scen a))) (lon (site (scen a))) ?k
           (tilt a) (shading a) (pv_losses_pct a) = Some ((y, used), n2)"
    and rows: "rows = [row]"
    and row: "Annual_kWh row = y" "is_fin (Capex_USD row)"
      "Notes row = (if used then Note_PVWatts else Note_rule_of_thumb)"
      "Annual_Savings_USD row = fl_mul (py_min y ?cap) (Fin (elec_rate_usd_per_kwh (scen a)))"
      "CO2e_Reduction_tpy row =
         fl_div (fl_mul (py_min y ?cap) (Fin (grid_kg_per_kwh_of a))) (Fin 1000)"
    by (auto simp: ground_pv_def Let_def py_fdiv_annual split: bind_splits)
  have "is_fin (Annual_kWh row) \<longrightarrow> finite_row row"
  proof
    assume "is_fin (Annual_kWh row)"
    then obtain r where y: "y = Fin r" unfolding row by (cases y) auto
    have "is_fin (py_min (Fin r) ?cap)"
      using py_max_zero by (intro py_min_fin_pinf) blast
    then obtain m where "py_min y ?cap = Fin m" unfolding y by (cases "py_min (Fin r) ?cap") auto
    then show "finite_row row" using row(2) by (simp add: finite_row_def row(4,5))
  qed
  moreover have "Notes row \<noteq> Note_PVWatts \<longrightarrow> is_fin (Annual_kWh row)"
    using pv_kwh_year_fallback[OF pv] by (auto simp: row)
  ultimately show ?thesis using row(2) rows by (simp add: sound_row_def)
qed

lemma community_solar_returns:
  "\<exists>r. community_solar a = Some r \<and> finite_row r \<and> is_fin (Annual_kWh r)"
  by (simp add: community_solar_def Let_def py_div_annual finite_row_def)

lemma green_power_returns:
  "\<exists>r. green_power a = Some r \<and> finite_row r \<and> is_fin (Annual_kWh r)"
  by (simp add: green_power_def Let_def py_div_annual finite_row_def)

lemma small_wind_returns:
  "\<exists>r. small_wind a = Some r \<and> (\<forall>x \<in> set r. finite_row x \<and> is_fin (Annual_kWh x)) \<and>
     length r \<le> 1"
  by (simp add: small_wind_def Let_def py_div_annual finite_row_def split: option.splits)

lemma finite_sound: "finite_row r \<Longrightarrow> is_fin (Annual_kWh r) \<Longrightarrow> sound_row r"
  by (simp add: sound_row_def finite_row_def)

lemma generation_rows_None:
  "(generation_rows env a = None) =
     (lat (site (scen a)) \<noteq> None \<and> lon (site (scen a)) \<noteq> None \<and> secrets env = None)"
proof (cases "rooftop_pv env a")
  case None
  then show ?thesis using rooftop_pv_None[of env a] by (simp add: generation_rows_def)
next
  case (Some r1)
  then have ok: "\<not> (lat (site (scen a)) \<noteq> None \<and> lon (site (scen a)) \<noteq> None \<and>
                    secrets env = None)"
    using rooftop_pv_None[of env a] by simp
  obtain row u used1 n1 where r1e: "r1 = (row, u, used1, n1)" by (cases r1) auto
  from ok ground_pv_None[of env a u n1] obtain r2 where r2: "ground_pv env a u n1 = Some r2"
    by (cases "ground_pv env a u n1") auto
  obtain g used2 n2 where r2e: "r2 = (g, used2, n2)" by (cases r2) auto
  obtain cs where cs: "community_solar a = Some cs" using community_solar_returns by blast
  obtain gp where gp: "green_power a = Some gp" using green_power_returns by blast
  obtain w where w: "small_wind a = Some w" using small_wind_returns by blast
  have "generation_rows env a = Some ([row] @ g @ [cs, gp] @ w, used1 \<or> used2, n2)"
    by (simp add: generation_rows_def Some r1e r2 r2e cs gp w)
  with ok show ?thesis by simp
qed

lemma generation_rows_sound:
  assumes "generation_rows env a = Some (rows, used, note)"
  shows "\<forall>r \<in> set rows. sound_row r" "3 \<le> length rows" "length rows \<le> 5"
proof -
  from assms obtain row u used1 n1 g used2 n2 cs gp w where
    r1: "rooftop_pv env a = Some (row, u, used1, n1)"
    and r2: "ground_pv env a u n1 = Some (g, used2, n2)"
    and cs: "community_solar a = Some cs"
    and gp: "green_power a = Some gp"
    and w: "small_wind a = Some w"
    and rows: "rows = [row] @ g @ [cs, gp] @ w"
    by (auto simp: generation_rows_def split: bind_splits)
  have s1: "sound_row row" by (rule rooftop_pv_sound[OF r1])
  have s2: "\<forall>x \<in> set g. sound_row x" "length g \<le> 1" using ground_pv_sound[OF r2] by auto
  have s3: "sound_row cs" using community_solar_returns[of a] cs by (auto intro: finite_sound)
  have s4: "sound_row gp" using green_power_returns[of a] gp by (auto intro: finite_sound)
  have s5: "\<forall>x \<in> set w. sound_row x" "length w \<le> 1"
    using small_wind_returns[of a] w by (auto intro: finite_sound)
  show "\<forall>r \<in> set rows. sound_row r" using s1 s2(1) s3 s4 s5(1) by (auto simp: rows)
  show "3 \<le> length rows" "length rows \<le> 5" using s2(2) s5(2) by (simp_all add: rows)
qed

lemma mcda_scores_nth:
  assumes "i < length df"
  shows "opt_row.truncate (mcda_scores df ! i) = df ! i"
  using assms
  by (simp add: mcda_scores_def Let_def opt_row.extend_def opt_row.truncate_def
      scored_row.fields_def)

lemma truncate_fields:
  "Option (opt_row.truncate r) = Option r"
  "opt_row.Capex_USD (opt_row.truncate r) = opt_row.Capex_USD r"
  "opt_row.Annual_Savings_USD (opt_row.truncate r) = opt_row.Annual_Savings_USD r"
  "opt_row.CO2e_Reduction_tpy (opt_row.truncate r) = opt_row.CO2e_Reduction_tpy r"
  "Simple_Payback_yr (opt_row.truncate r) = Simple_Payback_yr r"
  "Practicality (opt_row.truncate r) = Practicality r"
  by (simp_all add: opt_row.truncate_def)

lemma map_truncate_mcda: "map opt_row.truncate (mcda_scores df) = df"
  by (rule nth_equalityI) (simp_all add: mcda_scores_nth)

lemma mcda_scores_no_nan:
  assumes "option_rows sc = Some rows"
  shows "NaN \<notin> set (map MCDA_Score_0to1 (mcda_scores rows))"
proof -
  have "\<forall>r \<in> set (mcda_scores rows). unit_fl (MCDA_Score_0to1 r)"
    using option_rows_costed[OF assms] option_rows_mode_shift[OF assms]
    by (rule mcda_scores_unit)
  then show ?thesis by (metis (no_types, lifting) imageE list.set_map unit_fl.simps(4))
qed

lemma score_options_cases:
  assumes q: "sorts q" and s: "score_options q sc = Some df"
  obtains rows where "option_rows sc = Some rows"
    and "mset df = mset (mcda_scores rows)"
    and "sorted_wrt (\<lambda>a b. fl_le (MCDA_Score_0to1 b) (MCDA_Score_0to1 a)) df"
proof -
  from s obtain rows where r: "option_rows sc = Some rows"
    and df: "df = sort_values_descending q MCDA_Score_0to1 (mcda_scores rows)"
    by (auto simp: score_options_def)
  from sort_values_no_nan[OF q mcda_scores_no_nan[OF r]] r df that show ?thesis by blast
qed

lemma lcoe_defined_default: "lcoe_defined residential_default"
proof -
  have "(1::real) < (107 / 100) ^ 25" by (rule one_less_power) simp_all
  then have ne: "(107 / 100 :: real) ^ 25 \<noteq> 1" by (rule less_imp_neq[THEN not_sym])
  show ?thesis by (simp add: lcoe_defined_def residential_default_def ne)
qed

lemma rank_scores_fields:
  assumes "i < length df"
  shows "Technology (rank_scores g df ! i) = Technology (df ! i)"
    "Capex_USD (rank_scores g df ! i) = Capex_USD (df ! i)"
    "Annual_kWh (rank_scores g df ! i) = Annual_kWh (df ! i)"
    "Annual_Savings_USD (rank_scores g df ! i) = Annual_Savings_USD (df ! i)"
    "CO2e_Reduction_tpy (rank_scores g df ! i) = CO2e_Reduction_tpy (df ! i)"
    "Notes (rank_scores g df ! i) = Notes (df ! i)"
  using assms
  by (simp_all add: rank_scores_def Let_def gen_row.extend_def split: prod.splits)

lemma rank_scores_payback:
  assumes "i < length df"
  shows "Payback_yr (rank_scores g df ! i) = payback_column df ! i"
  using assms
  by (simp add: rank_scores_def Let_def gen_row.extend_def ranked_row.fields_def
      split: prod.splits)

lemma rank_scores_no_nan: "NaN \<notin> set (map Score_0to1 (rank_scores g df))"
proof -
  have "\<forall>r \<in> set (rank_scores g df). unit_fl (Score_0to1 r)"
    by (rule rank_scores_unit)
  then show ?thesis by (metis (no_types, lifting) imageE list.set_map unit_fl.simps(4))
qed

lemma rank_options_cases:
  assumes q: "sorts q" and s: "rank_options q env a = Some (rows, used, note)"
  obtains gr where "generation_rows env a = Some (gr, used, note)"
    and "mset rows = mset (rank_scores (goal a) gr)"
    and "sorted_wrt (\<lambda>x y. fl_le (Score_0to1 y) (Score_0to1 x)) rows"
proof -
  from s obtain gr where g: "generation_rows env a = Some (gr, used, note)"
    and rows: "rows = sort_values_descending q Score_0to1 (rank_scores (goal a) gr)"
    by (auto simp: rank_options_def)
  from sort_values_no_nan[OF q rank_scores_no_nan] g rows that show ?thesis by blast
qed

lemma rank_options_None:
  "(rank_options q env a = None) =
     (lat (site (scen a)) \<noteq> None \<and> lon (site (scen a)) \<noteq> None \<and> secrets env = None)"
  by (simp add: rank_options_def generation_rows_None)

lemma rank_options_returns:
  assumes "lat (site (scen a)) = None \<or> lon (site (scen a)) = None \<or> secrets env \<noteq> None"
  shows "\<exists>rows used note. rank_options q env a = Some (rows, used, note)"
proof -
  from assms have "rank_options q env a \<noteq> None" by (auto simp: rank_options_None)
  then show ?thesis by (cases "rank_options q env a") auto
qed

lemma in_mset_eq_nth:
  assumes "mset xs = mset ys" "x \<in> set xs"
  obtains i where "i < length ys" "x = ys ! i"
proof -
  from assms have "x \<in> set ys" by (metis mset_eq_setD)
  then show ?thesis using that by (metis in_set_conv_nth)
qed

lemma filter_single_mset:
  assumes "mset xs = mset ys" "filter P ys = [y]"
  shows "filter P xs = [y]"
proof -
  have "mset (filter P xs) = filter_mset P (mset xs)" by simp
  also have "\<dots> = mset (filter P ys)" unfolding assms(1) by simp
  finally have "mset (filter P xs) = {#y#}" by (simp add: assms(2))
  then show ?thesis by (metis mset_single_iff_right)
qed

lemma pv_kwh_year_no_location:
  assumes "la = None \<or> lo = None"
  shows "pv_kwh_year env la lo kwdc tilt_deg shading_pct losses_pct =
           Some ((Fin (kwdc * (300 * 4.2) * (1 - min 0.5 (\<bar>tilt_deg - 30\<bar> * 0.01))
                        * max 0 (1 - shading_pct / 100)), False), None)"
  using assms by (auto simp: pv_kwh_year_def pv_fallback_def Let_def split: option.splits)

lemma ground_pv_not_rooftop:
  assumes "ground_pv env a u n = Some (g, used2, n2)"
  shows "\<forall>x \<in> set g. \<not> is_rooftop (Technology x)"
  using assms
  by (auto simp: ground_pv_def Let_def py_fdiv_annual split: if_splits Option.bind_splits)

lemma community_solar_not_rooftop:
  assumes "community_solar a = Some r"
  shows "\<not> is_rooftop (Technology r)"
  using assms by (auto simp: community_solar_def Let_def py_div_annual)

lemma green_power_not_rooftop:
  assumes "green_power a = Some r"
  shows "\<not> is_rooftop (Technology r)"
  using assms by (auto simp: green_power_def Let_def py_div_annual)

lemma small_wind_not_rooftop:
  assumes "small_wind a = Some w"
  shows "\<forall>x \<in> set w. \<not> is_rooftop (Technology x)"
  using assms
  by (auto simp: small_wind_def Let_def py_div_annual split: option.splits if_splits)

lemma rooftop_pv_is_rooftop:
  assumes "rooftop_pv env a = Some (row, u, used1, n1)"
  shows "is_rooftop (Technology row)"
  using assms by (auto simp: rooftop_pv_def Let_def py_fdiv_annual split: Option.bind_splits)

lemma generation_rows_rooftop:
  assumes g: "generation_rows env a = Some (gr, used, nt)"
    and r: "rooftop_pv env a = Some (row, u, used1, n1)"
  shows "gr \<noteq> []" "gr ! 0 = row" "rooftop_rows gr = [row]"
proof -
  from g r obtain g2 used2 n2 cs gp w where
    parts: "ground_pv env a u n1 = Some (g2, used2, n2)" "community_solar a = Some cs"
      "green_power a = Some gp" "small_wind a = Some w"
    and gr: "gr = [row] @ g2 @ [cs, gp] @ w"
    by (auto simp: generation_rows_def split: Option.bind_splits)
  show "gr \<noteq> []" "gr ! 0 = row" by (simp_all add: gr)
  show "rooftop_rows gr = [row]"
    using ground_pv_not_rooftop[OF parts(1)] community_solar_not_rooftop[OF parts(2)]
      green_power_not_rooftop[OF parts(3)] small_wind_not_rooftop[OF parts(4)]
      rooftop_pv_is_rooftop[OF r]
    by (simp add: gr rooftop_rows_def)
qed

lemma map_truncate_rank: "map gen_row.truncate (rank_scores g gr) = gr"
  by (rule nth_equalityI)
     (simp_all add: rank_scores_def Let_def gen_row.extend_def gen_row.truncate_def
        split: prod.splits)

lemma rooftop_rows_truncate:
  "rooftop_rows (map gen_row.truncate xs) = map gen_row.truncate (rooftop_rows xs)"
  by (induction xs) (simp_all add: rooftop_rows_def gen_row.truncate_def)

lemma rank_options_rooftop:
  assumes q: "sorts q" and s: "rank_options q env a = Some (rows, used, nt)"
    and r: "rooftop_pv env a = Some (row, u, used1, n1)"
  shows "map gen_row.truncate (rooftop_rows rows) = [row]"
proof -
  from rank_options_cases[OF q s] obtain gr where
    g: "generation_rows env a = Some (gr, used, nt)"
    and m: "mset rows = mset (rank_scores (goal a) gr)" by blast
  have "mset (map gen_row.truncate rows) = mset (map gen_row.truncate (rank_scores (goal a) gr))"
    using m by (metis mset_map)
  then have m2: "mset (map gen_row.truncate rows) = mset gr"
    by (simp only: map_truncate_rank)
  have "filter (\<lambda>r. is_rooftop (Technology r)) (map gen_row.truncate rows) = [row]"
    using generation_rows_rooftop(3)[OF g r]
    by (intro filter_single_mset[OF m2]) (simp add: rooftop_rows_def)
  then show ?thesis
    by (simp add: rooftop_rows_truncate flip: rooftop_rows_def)
qed

lemma option_rows_mode_row:
  assumes "option_rows sc = Some rows"
  shows "\<exists>r \<in> set rows. Option r = Transport_mode_shift \<and> opt_row.Capex_USD r = Fin 500 \<and>
           opt_row.Annual_Savings_USD r = Fin 336"
  using assms
  by (auto simp: option_rows_def Let_def split: Option.bind_splits)

lemma in_sorted_table:
  assumes "mset df = mset (mcda_scores rows)" "r \<in> set rows"
  shows "\<exists>x \<in> set df. opt_row.truncate x = r"
proof -
  from assms(2) obtain i where i: "i < length rows" "r = rows ! i"
    by (metis in_set_conv_nth)
  then have "mcda_scores rows ! i \<in> set (mcda_scores rows)" by simp
  then have "mcda_scores rows ! i \<in> set df" using assms(1) by (metis mset_eq_setD)
  moreover have "opt_row.truncate (mcda_scores rows ! i) = r"
    using i by (simp add: mcda_scores_nth)
  ultimately show ?thesis by blast
qed

lemma kw_roof_c1: "kw_roof_of c1_args = 71 / 10"
  by (simp add: kw_roof_of_def c1_args_def annual_kwh_of_def py_or_def py_round1_def
      round_half_even_def Let_def)

lemma rooftop_pv_c1:
  "rooftop_pv no_env c1_args =
   Some (\<lparr>Technology = Rooftop_PV (71 / 10), Type = ''On-site solar'',
           Capex_USD = Fin 12780, Annual_kWh = Fin (9979263 / 1250),
           Load_Covered_pct = Fin (9979263 / 125000),
           Annual_Savings_USD = Fin (89813367 / 62500),
           CO2e_Reduction_tpy = Fin (189605997 / 62500000),
           Notes = Note_rule_of_thumb\<rparr>, Fin (9979263 / 1250), False, None)"
proof -
  have loc: "lat (site (scen c1_args)) = None" by (simp add: c1_args_def)
  have pv: "pv_kwh_year no_env None (lon (site (scen c1_args))) (71 / 10) (tilt c1_args)
              (shading c1_args) (pv_losses_pct c1_args) = Some ((Fin (9979263 / 1250), False), None)"
    by (simp add: pv_kwh_year_no_location) (simp add: c1_args_def)
  show ?thesis
    by (simp add: rooftop_pv_def Let_def kw_roof_c1 loc pv py_fdiv_def py_min_def)
       (simp add: c1_args_def annual_kwh_of_def grid_kg_per_kwh_of_def py_or_def)
qed

lemma truncate_gen_fields:
  "Technology (gen_row.truncate r) = Technology r"
  "Capex_USD (gen_row.truncate r) = Capex_USD r"
  "Annual_kWh (gen_row.truncate r) = Annual_kWh r"
  "Annual_Savings_USD (gen_row.truncate r) = Annual_Savings_USD r"
  "CO2e_Reduction_tpy (gen_row.truncate r) = CO2e_Reduction_tpy r"
  "Load_Covered_pct (gen_row.truncate r) = Load_Covered_pct r"
  "Notes (gen_row.truncate r) = Notes r"
  by (simp_all add: gen_row.truncate_def)

lemma rooftop_row_in_table:
  assumes "map gen_row.truncate (rooftop_rows rows) = [row]"
  shows "\<exists>x \<in> set rows. gen_row.truncate x = row"
proof -
  from assms obtain x where x: "rooftop_rows rows = [x]" "gen_row.truncate x = row"
    by (cases "rooftop_rows rows") auto
  have "x \<in> set (rooftop_rows rows)" unfolding x(1) by simp
  then have "x \<in> set rows" by (simp add: rooftop_rows_def)
  with x(2) show ?thesis by blast
qed


lemma col_min_const:
  assumes "x \<noteq> []" "\<forall>v \<in> set x. v = c" "c \<noteq> NaN"
  shows "col_min x = c"
proof -
  have "\<exists>v \<in> set x. v \<noteq> NaN" using assms by (cases x) auto
  from col_min_props(1)[OF this] assms(2) show ?thesis by blast
qed


lemma sorted_wrt_all: "(\<And>x y. x \<in> set xs \<Longrightarrow> y \<in> set xs \<Longrightarrow> P x y) \<Longrightarrow> sorted_wrt P xs"
  by (induction xs) auto




text \<open>numpy's insertion sort is the stable sort\<close>

lemma fl_key_neg_less:
  "a \<noteq> NaN \<Longrightarrow> b \<noteq> NaN \<Longrightarrow> (fl_key (fl_neg a) \<le> fl_key (fl_neg b)) = (\<not> fl_less a b)"
  by (cases a; cases b) auto

lemma insert_index_insort:
  assumes "v ! vi \<noteq> NaN" "\<forall>k \<in> set ks. v ! k \<noteq> NaN"
  shows "insert_index v vi ks = insort_key (\<lambda>i. fl_key (fl_neg (v ! i))) vi ks"
  using assms by (induction ks) (simp_all add: fl_key_neg_less)

lemma fold_insert_index:
  assumes "\<forall>k \<in> set xs \<union> set ks. v ! k \<noteq> NaN"
  shows "fold (insert_index v) xs ks = fold (insort_key (\<lambda>i. fl_key (fl_neg (v ! i)))) xs ks"
  using assms
proof (induction xs arbitrary: ks)
  case Nil
  then show ?case by simp
next
  case (Cons x xs)
  have e: "insert_index v x ks = insort_key (\<lambda>i. fl_key (fl_neg (v ! i))) x ks"
    using Cons.prems by (intro insert_index_insort) auto
  have "\<forall>k \<in> set xs \<union> set (insort_key (\<lambda>i. fl_key (fl_neg (v ! i))) x ks). v ! k \<noteq> NaN"
    using Cons.prems by (auto simp: set_insort_key)
  from Cons.IH[OF this] show ?case by (simp add: e)
qed

lemma insertion_argsort_sort_key:
  assumes "NaN \<notin> set v"
  shows "insertion_argsort v =
           rev (sort_key (\<lambda>i. fl_key (fl_neg (v ! i))) (rev [0 ..< length v]))"
proof -
  have "\<forall>k \<in> set [0 ..< length v] \<union> set []. v ! k \<noteq> NaN"
    using assms by (auto simp: in_set_conv_nth)
  from fold_insert_index[OF this] show ?thesis
    by (simp add: insertion_argsort_def sort_key_def foldr_conv_fold)
qed








lemma fl_key_neg_le_iff:
  "a \<noteq> NaN \<Longrightarrow> b \<noteq> NaN \<Longrightarrow> (fl_key (fl_neg a) \<le> fl_key (fl_neg b)) = fl_le b a"
  by (cases a; cases b) auto


text \<open>numpy's quicksort sorts whenever its partitioning part does.\<close>

lemma sorts_np_quicksort:
  assumes "sorts p"
  shows "sorts (np_quicksort p)"
  unfolding sorts_def
proof (intro allI impI)
  fix ks :: "fl list" assume nn: "NaN \<notin> set ks"
  show "is_argsort (np_quicksort p ks) ks"
  proof (cases "length ks \<le> 16")
    case False
    then show ?thesis using assms nn by (simp add: np_quicksort_def sorts_def)
  next
    case True
    let ?h = "\<lambda>i. fl_key (fl_neg (ks ! i))"
    let ?s = "sort_key ?h (rev [0 ..< length ks])"
    have e: "np_quicksort p ks = rev ?s"
      using True insertion_argsort_sort_key[OF nn] by (simp add: np_quicksort_def)
    have "sorted (map ?h ?s)" by simp
    then have s: "sorted_wrt (\<lambda>i j. ?h i \<le> ?h j) ?s" by (simp add: sorted_map)
    have mem: "ks ! i \<noteq> NaN" if "i \<in> set ?s" for i
      using that nn by (auto simp: in_set_conv_nth)
    have "sorted_wrt (\<lambda>i j. fl_le (ks ! j) (ks ! i)) ?s"
      by (rule sorted_wrt_mono_rel[OF _ s]) (simp add: fl_key_neg_le_iff mem)
    then have "sorted_wrt (\<lambda>i j. fl_le (ks ! i) (ks ! j)) (rev ?s)"
      by (simp add: sorted_wrt_rev)
    moreover have "mset (rev ?s) = mset [0 ..< length ks]" by simp
    ultimately show ?thesis by (simp add: is_argsort_def e)
  qed
qed

lemma float_of_string_nan: "float_of_string ''nan'' = Some NaN"
  by (simp add: float_of_string_def strip_def is_space_def split_sign_def lower_def
      lower_char_def Let_def)

lemma pvwatts_try_nan: "pvwatts_try (nan_reply url params) = Inr (Inr NaN)"
  by (simp add: pvwatts_try_def nan_reply_def raise_for_status_def resp_json_def bind_exn_def
      float_of_string_nan)

lemma pv_kwh_year_nan:
  "pv_kwh_year nan_env (Some x) (Some y) k t s l = Some ((NaN, True), None)"
  by (simp add: pv_kwh_year_def NRELClient_init_def nan_env_def nrel_available_def
      pvwatts_ac_annual_def Let_def pvwatts_try_nan)

lemma kw_roof_located: "kw_roof_of located_args = 71 / 10"
  by (simp add: kw_roof_of_def located_args_def c1_args_def annual_kwh_of_def py_or_def
      py_round1_def round_half_even_def Let_def)

lemma rooftop_pv_nan:
  "rooftop_pv nan_env located_args =
   Some (\<lparr>Technology = Rooftop_PV (71 / 10), Type = ''On-site solar'',
           Capex_USD = Fin 12780, Annual_kWh = NaN, Load_Covered_pct = NaN,
           Annual_Savings_USD = NaN, CO2e_Reduction_tpy = NaN,
           Notes = Note_PVWatts\<rparr>, NaN, True, None)"
proof -
  have loc: "lat (site (scen located_args)) = Some 42.28"
    "lon (site (scen located_args)) = Some (- 83.74)"
    by (simp_all add: located_args_def)
  show ?thesis
    by (simp add: rooftop_pv_def Let_def kw_roof_located loc pv_kwh_year_nan py_fdiv_def
        py_min_def)
       (simp add: located_args_def c1_args_def annual_kwh_of_def py_or_def)
qed

text \<open>The normalisation of the savings and CO2 columns\<close>

lemma clip_lower_no_nan: "NaN \<notin> set x \<Longrightarrow> NaN \<notin> set (clip_lower (Fin 0) x)"
  by (auto simp: clip_lower_def)

lemma divide_by_clipped_max:
  assumes nn: "NaN \<notin> set x"
  shows "map (\<lambda>v. fl_div v (np_or (col_max (clip_lower (Fin 0) x)) (Fin 1)))
             (clip_lower (Fin 0) x)
           = divide_by_column_max (clip_lower (Fin 0) x)"
proof (cases "x = []")
  case True
  then show ?thesis by (simp add: clip_lower_def divide_by_column_max_def)
next
  case False
  let ?s = "clip_lower (Fin 0) x"
  have ne: "?s \<noteq> []" using False by (simp add: clip_lower_def)
  have nns: "NaN \<notin> set ?s" by (rule clip_lower_no_nan[OF nn])
  then have ex: "\<exists>v \<in> set ?s. v \<noteq> NaN" using ne by (cases ?s) auto
  have mx: "col_max ?s \<noteq> NaN" by (rule col_max_props(2)[OF ex])
  show ?thesis
  proof (cases "col_max ?s = Fin 0")
    case False
    with mx show ?thesis by (simp add: divide_by_column_max_def np_or_def)
  next
    case True
    have "fl_div v (Fin 1) = Fin 0" if v: "v \<in> set ?s" for v
    proof -
      from v nns have vn: "v \<noteq> NaN" by metis
      have le: "fl_le v (Fin 0)" using col_max_props(3)[OF ex v vn] by (simp only: True)
      from clip_lower_entries[of x] v vn
      consider "v = PInf" | a where "v = Fin a" "a \<ge> 0" by blast
      then show ?thesis using le by cases auto
    qed
    then show ?thesis by (simp add: divide_by_column_max_def np_or_def True)
  qed
qed

lemma rank_norm_s_refines:
  assumes "NaN \<notin> set (map Annual_Savings_USD df)"
  shows "rank_norm_s df = divide_by_column_max (clip_lower (Fin 0) (map Annual_Savings_USD df))"
  using divide_by_clipped_max[OF assms] by (simp add: rank_norm_s_def Let_def)

lemma rank_norm_c_refines:
  assumes "NaN \<notin> set (map CO2e_Reduction_tpy df)"
  shows "rank_norm_c df = divide_by_column_max (clip_lower (Fin 0) (map CO2e_Reduction_tpy df))"
  using divide_by_clipped_max[OF assms] by (simp add: rank_norm_c_def Let_def)

lemma mcda_scores_columns:
  assumes "\<forall>r \<in> set df. costed r"
  shows "map score_savings (mcda_scores df) = norm_max (map opt_row.Annual_Savings_USD df)"
    and "map score_co2e (mcda_scores df) = norm_max (map opt_row.CO2e_Reduction_tpy df)"
proof -
  have fin_nn: "NaN \<notin> set x" if "\<forall>v \<in> set x. is_fin v" for x
    using that by (metis is_fin.simps(4))
  have fs: "\<forall>v \<in> set (map opt_row.Annual_Savings_USD df). is_fin v"
    and fc: "\<forall>v \<in> set (map opt_row.CO2e_Reduction_tpy df). is_fin v"
    using assms by (auto simp: costed_def)
  note ids = fillna_id[OF fin_nn[OF fs]] fillna_id[OF fin_nn[OF fc]]
  show "map score_savings (mcda_scores df) = norm_max (map opt_row.Annual_Savings_USD df)"
    by (rule nth_equalityI)
       (simp_all add: mcda_scores_def Let_def ids opt_row.extend_def scored_row.fields_def)
  show "map score_co2e (mcda_scores df) = norm_max (map opt_row.CO2e_Reduction_tpy df)"
    by (rule nth_equalityI)
       (simp_all add: mcda_scores_def Let_def ids opt_row.extend_def scored_row.fields_def)
qed

text \<open>The default scenario of \<open>score_options\<close>\<close>

lemma option_rows_savings:
  assumes "option_rows sc = Some rows"
  shows "map opt_row.Annual_Savings_USD rows =
           [Fin (min (max 1 (py_round1 (py_or (annual_electricity_kwh (site sc)) 10000 / 1400))
                        * (300 * 4.2))
                     (py_or (annual_electricity_kwh (site sc)) 10000)
                 * elec_rate_usd_per_kwh sc),
            Fin (0.08 * py_or (annual_electricity_kwh (site sc)) 10000
                 * elec_rate_usd_per_kwh sc)]
           @ (if building_type (site sc) = ''residential''
              then [Fin (1200 * elec_rate_usd_per_kwh sc)] else [])
           @ [Fin (max 0 (12000 / 25 * 3.5 - 12000 * 0.30 * elec_rate_usd_per_kwh sc)),
              Fin (12000 * 0.25 / 25 * 3.5 * 0.8)]"
  using assms
  by (auto simp: option_rows_def Let_def pv_energy_yield_default split: Option.bind_splits)

lemma option_rows_savings_default:
  assumes "option_rows residential_default = Some rows"
  shows "map opt_row.Annual_Savings_USD rows =
           [Fin 1610.28, Fin 144, Fin 216, Fin 1032, Fin 336]"
proof -
  have k: "max 1 (py_round1 (50 / 7)) = (7.1 :: real)"
    by (simp add: py_round1_def round_half_even_def Let_def)
  show ?thesis
    unfolding option_rows_savings[OF assms]
    by (simp add: residential_default_def py_or_def k)
qed

lemma option_rows_labels_default:
  assumes "option_rows residential_default = Some rows"
  shows "\<exists>k. map Option rows = [Solar_PV k, Efficiency_LED_HVAC, Heat_Pump_Water_Heater,
           Transport_EV, Transport_mode_shift]"
  using option_rows_labels[OF assms] by (simp add: residential_default_def)

lemma savings_column_default:
  "col_min [Fin 1610.28, Fin 144, Fin 216, Fin 1032, Fin 336] = Fin 144"
  "col_max [Fin 1610.28, Fin 144, Fin 216, Fin 1032, Fin 336] = Fin 1610.28"
  by (simp_all add: col_min_def col_max_def isna_def fl_min2_def fl_max2_def)

text \<open>The scenario of \<open>c1_args\<close> in \<open>_rank_options\<close>\<close>

lemma generation_rows_c1:
  "generation_rows no_env c1_args =
     Some ([\<lparr>Technology = Rooftop_PV (71 / 10), Type = ''On-site solar'',
              Capex_USD = Fin 12780, Annual_kWh = Fin (9979263 / 1250),
              Load_Covered_pct = Fin (9979263 / 125000),
              Annual_Savings_USD = Fin (89813367 / 62500),
              CO2e_Reduction_tpy = Fin (189605997 / 62500000),
              Notes = Note_rule_of_thumb\<rparr>,
            \<lparr>Technology = Community_Solar_Subscription 50, Type = ''Off-site solar'',
              Capex_USD = Fin 0, Annual_kWh = Fin 5000,
              Load_Covered_pct = Fin 40, Annual_Savings_USD = Fin 72,
              CO2e_Reduction_tpy = Fin (38 / 25), Notes = Note_community_solar\<rparr>,
            \<lparr>Technology = Utility_Green_Power 50, Type = ''Off-site renewable'',
              Capex_USD = Fin 0, Annual_kWh = Fin 4000,
              Load_Covered_pct = Fin 40, Annual_Savings_USD = Fin (- 40),
              CO2e_Reduction_tpy = Fin (38 / 25), Notes = Note_green_power\<rparr>], False, None)"
proof -
  have a: "annual_kwh_of c1_args = 10000"
    by (simp add: annual_kwh_of_def c1_args_def py_or_def)
  have gk: "grid_kg_per_kwh_of c1_args = 0.38"
    by (simp add: grid_kg_per_kwh_of_def c1_args_def py_or_def)
  have g: "ground_pv no_env c1_args (Fin (9979263 / 1250)) None = Some ([], False, None)"
    by (simp add: ground_pv_def Let_def c1_args_def)
  have c: "community_solar c1_args =
     Some \<lparr>Technology = Community_Solar_Subscription 50, Type = ''Off-site solar'',
              Capex_USD = Fin 0, Annual_kWh = Fin 5000,
              Load_Covered_pct = Fin 40, Annual_Savings_USD = Fin 72,
              CO2e_Reduction_tpy = Fin (38 / 25), Notes = Note_community_solar\<rparr>"
    by (simp add: community_solar_def Let_def a gk py_div_def py_int_trunc_def)
       (simp add: c1_args_def)
  have p: "green_power c1_args =
     Some \<lparr>Technology = Utility_Green_Power 50, Type = ''Off-site renewable'',
              Capex_USD = Fin 0, Annual_kWh = Fin 4000,
              Load_Covered_pct = Fin 40, Annual_Savings_USD = Fin (- 40),
              CO2e_Reduction_tpy = Fin (38 / 25), Notes = Note_green_power\<rparr>"
    by (simp add: green_power_def Let_def a gk py_div_def py_int_trunc_def)
       (simp add: c1_args_def)
  have w: "small_wind c1_args = Some []"
    by (simp add: small_wind_def c1_args_def)
  show ?thesis by (simp add: generation_rows_def rooftop_pv_c1 g c p w)
qed

lemma rank_norm_s_c1:
  assumes "map Annual_Savings_USD df = [Fin (89813367 / 62500), Fin 72, Fin (- 40)]"
  shows "rank_norm_s df = [Fin 1, Fin (72 / (89813367 / 62500)), Fin 0]"
  by (simp add: rank_norm_s_def Let_def assms clip_lower_def col_max_def isna_def fl_max2_def
      np_or_def)

text \<open>
  Claim C10. \<open>Recommender.score_options\<close> returns a table exactly when the levelized
  cost of the PV option is defined (otherwise the division in \<open>lcoe\<close> raises). The table
  then has five rows for a residential site and four otherwise: one Solar PV row, the
  efficiency row, the Heat Pump Water Heater row if and only if
  \<open>building_type = "residential"\<close>, the EV replacement row and the mode-shift row.
\<close>

theorem score_options_row_count:
  assumes "sorts quicksort"
  shows "((\<exists>df. score_options quicksort sc = Some df) \<longleftrightarrow> lcoe_defined sc) \<and>
         (\<forall>df. score_options quicksort sc = Some df \<longrightarrow>
            length df = (if building_type (site sc) = ''residential'' then 5 else 4) \<and>
            (\<exists>k. mset (map Option df) =
                   mset ([Solar_PV k, Efficiency_LED_HVAC]
                         @ (if building_type (site sc) = ''residential''
                            then [Heat_Pump_Water_Heater] else [])
                         @ [Transport_EV, Transport_mode_shift])))"
proof (intro conjI allI impI)
  show "(\<exists>df. score_options quicksort sc = Some df) \<longleftrightarrow> lcoe_defined sc"
    using option_rows_Some_iff[of sc] by (auto simp: score_options_def)
next
  fix df assume s: "score_options quicksort sc = Some df"
  from score_options_cases[OF assms s] obtain rows where
    r: "option_rows sc = Some rows" and m: "mset df = mset (mcda_scores rows)" by blast
  from option_rows_labels[OF r] obtain k where
    k: "map Option rows = [Solar_PV k, Efficiency_LED_HVAC]
           @ (if building_type (site sc) = ''residential'' then [Heat_Pump_Water_Heater] else [])
           @ [Transport_EV, Transport_mode_shift]" by blast
  have "map Option (mcda_scores rows) = map Option (map opt_row.truncate (mcda_scores rows))"
    by (simp add: truncate_fields)
  then have lab: "map Option (mcda_scores rows) = map Option rows"
    by (simp only: map_truncate_mcda)
  have "mset (map Option df) = image_mset Option (mset df)" by simp
  also have "\<dots> = mset (map Option (mcda_scores rows))" unfolding m by simp
  finally have ml: "mset (map Option df) = mset (map Option rows)" by (simp only: lab)
  then show "\<exists>k. mset (map Option df) =
                   mset ([Solar_PV k, Efficiency_LED_HVAC]
                         @ (if building_type (site sc) = ''residential''
                            then [Heat_Pump_Water_Heater] else [])
                         @ [Transport_EV, Transport_mode_shift])"
    unfolding k by blast
  have "length df = length (map Option rows)"
    using ml by (metis length_map size_mset)
  then show "length df = (if building_type (site sc) = ''residential'' then 5 else 4)"
    unfolding k by simp
qed

theorem score_options_row_count_witness:
  "sorts stable_argsort \<and> lcoe_defined residential_default \<and>
   building_type (site residential_default) = ''residential'' \<and>
   (\<exists>df. score_options stable_argsort residential_default = Some df \<and> length df = 5)"
  using score_options_row_count[OF sorts_stable_argsort, of residential_default]
    sorts_stable_argsort lcoe_defined_default
  by (auto simp: residential_default_def)

text \<open>
  Claim C5, as the code has it. In every row of the table of \<open>Recommender.score_options\<close>
  the capital cost, the annual savings and the CO2 reduction are finite numbers, the simple
  payback is the capital cost divided by the annual savings when the savings are positive,
  and it is positive infinity exactly when the savings are zero or negative. In every row
  of the table of \<open>_rank_options\<close> the capital cost is a finite number; the annual energy
  is a finite number in every row that is not estimated with PVWatts; and a row whose
  annual energy is a finite number has finite annual savings and CO2 reduction and the
  payback just described. A PV row estimated with PVWatts carries \<open>float(ac_annual)\<close> as
  the reply gave it. In every row the payback is the capital cost divided by the savings
  when the savings compare greater than 0, and positive infinity otherwise.
  \<open>_rank_options\<close> raises instead of returning exactly when a latitude and a longitude
  are given and there is no secrets file.
\<close>

theorem option_rows_finite_and_payback:
  assumes "sorts quicksort"
  shows "(\<forall>df. score_options quicksort sc = Some df \<longrightarrow>
            (\<forall>r \<in> set df.
               is_fin (opt_row.Capex_USD r) \<and> is_fin (opt_row.Annual_Savings_USD r) \<and>
               is_fin (opt_row.CO2e_Reduction_tpy r) \<and>
               (fin_val (opt_row.Annual_Savings_USD r) > 0 \<longrightarrow>
                  Simple_Payback_yr r =
                    Fin (fin_val (opt_row.Capex_USD r) / fin_val (opt_row.Annual_Savings_USD r))) \<and>
               (Simple_Payback_yr r = PInf \<longleftrightarrow> fin_val (opt_row.Annual_Savings_USD r) \<le> 0))) \<and>
         (\<forall>rows used note. rank_options quicksort env a = Some (rows, used, note) \<longrightarrow>
            (\<forall>r \<in> set rows.
               is_fin (Capex_USD r) \<and>
               (Notes r \<noteq> Note_PVWatts \<longrightarrow> is_fin (Annual_kWh r)) \<and>
               (is_fin (Annual_kWh r) \<longrightarrow>
                  is_fin (Annual_Savings_USD r) \<and> is_fin (CO2e_Reduction_tpy r) \<and>
                  (fin_val (Annual_Savings_USD r) > 0 \<longrightarrow>
                     Payback_yr r = Fin (fin_val (Capex_USD r) / fin_val (Annual_Savings_USD r))) \<and>
                  (Payback_yr r = PInf \<longleftrightarrow> fin_val (Annual_Savings_USD r) \<le> 0)) \<and>
               Payback_yr r =
                 (if fl_less (Fin 0) (Annual_Savings_USD r)
                  then fl_div (Capex_USD r) (Annual_Savings_USD r) else PInf))) \<and>
         ((rank_options quicksort env a = None) =
            (lat (site (scen a)) \<noteq> None \<and> lon (site (scen a)) \<noteq> None \<and> secrets env = None))"
proof (intro conjI allI impI)
  fix df assume s: "score_options quicksort sc = Some df"
  from score_options_cases[OF assms s] obtain rows where
    r: "option_rows sc = Some rows" and m: "mset df = mset (mcda_scores rows)" by blast
  show "\<forall>r \<in> set df.
               is_fin (opt_row.Capex_USD r) \<and> is_fin (opt_row.Annual_Savings_USD r) \<and>
               is_fin (opt_row.CO2e_Reduction_tpy r) \<and>
               (fin_val (opt_row.Annual_Savings_USD r) > 0 \<longrightarrow>
                  Simple_Payback_yr r =
                    Fin (fin_val (opt_row.Capex_USD r) / fin_val (opt_row.Annual_Savings_USD r))) \<and>
               (Simple_Payback_yr r = PInf \<longleftrightarrow> fin_val (opt_row.Annual_Savings_USD r) \<le> 0)"
  proof
    fix x assume "x \<in> set df"
    from in_mset_eq_nth[OF m this] obtain i where
      i: "i < length (mcda_scores rows)" and x: "x = mcda_scores rows ! i" by blast
    then have i': "i < length rows" by simp
    have t: "opt_row.truncate x = rows ! i" unfolding x by (rule mcda_scores_nth[OF i'])
    have "costed (rows ! i)" using option_rows_costed[OF r] i' by simp
    then have "costed (opt_row.truncate x)" by (simp only: t)
    then show "is_fin (opt_row.Capex_USD x) \<and> is_fin (opt_row.Annual_Savings_USD x) \<and>
               is_fin (opt_row.CO2e_Reduction_tpy x) \<and>
               (fin_val (opt_row.Annual_Savings_USD x) > 0 \<longrightarrow>
                  Simple_Payback_yr x =
                    Fin (fin_val (opt_row.Capex_USD x) / fin_val (opt_row.Annual_Savings_USD x))) \<and>
               (Simple_Payback_yr x = PInf \<longleftrightarrow> fin_val (opt_row.Annual_Savings_USD x) \<le> 0)"
      by (auto simp: costed_def truncate_fields simple_payback_def split: if_splits)
  qed
next
  fix rows used nt assume s: "rank_options quicksort env a = Some (rows, used, nt)"
  from rank_options_cases[OF assms s] obtain gr where
    g: "generation_rows env a = Some (gr, used, nt)"
    and m: "mset rows = mset (rank_scores (goal a) gr)" by blast
  show "\<forall>r \<in> set rows.
               is_fin (Capex_USD r) \<and>
               (Notes r \<noteq> Note_PVWatts \<longrightarrow> is_fin (Annual_kWh r)) \<and>
               (is_fin (Annual_kWh r) \<longrightarrow>
                  is_fin (Annual_Savings_USD r) \<and> is_fin (CO2e_Reduction_tpy r) \<and>
                  (fin_val (Annual_Savings_USD r) > 0 \<longrightarrow>
                     Payback_yr r = Fin (fin_val (Capex_USD r) / fin_val (Annual_Savings_USD r))) \<and>
                  (Payback_yr r = PInf \<longleftrightarrow> fin_val (Annual_Savings_USD r) \<le> 0)) \<and>
               Payback_yr r =
                 (if fl_less (Fin 0) (Annual_Savings_USD r)
                  then fl_div (Capex_USD r) (Annual_Savings_USD r) else PInf)"
  proof
    fix x assume "x \<in> set rows"
    from in_mset_eq_nth[OF m this] obtain i where
      i: "i < length (rank_scores (goal a) gr)" and x: "x = rank_scores (goal a) gr ! i" by blast
    then have i': "i < length gr" by simp
    have f: "sound_row (gr ! i)" using generation_rows_sound(1)[OF g] i' by simp
    have pb: "Payback_yr x =
                 (if fl_less (Fin 0) (Annual_Savings_USD (gr ! i))
                  then fl_div (Capex_USD (gr ! i)) (Annual_Savings_USD (gr ! i)) else PInf)"
      unfolding x rank_scores_payback[OF i'] using i' by (simp add: payback_column_def)
    have fin: "Payback_yr x = simple_payback (fin_val (Capex_USD (gr ! i)))
                               (fin_val (Annual_Savings_USD (gr ! i)))"
      if "finite_row (gr ! i)"
      unfolding pb by (rule payback_column_finite[OF that])
    show "is_fin (Capex_USD x) \<and>
               (Notes x \<noteq> Note_PVWatts \<longrightarrow> is_fin (Annual_kWh x)) \<and>
               (is_fin (Annual_kWh x) \<longrightarrow>
                  is_fin (Annual_Savings_USD x) \<and> is_fin (CO2e_Reduction_tpy x) \<and>
                  (fin_val (Annual_Savings_USD x) > 0 \<longrightarrow>
                     Payback_yr x = Fin (fin_val (Capex_USD x) / fin_val (Annual_Savings_USD x))) \<and>
                  (Payback_yr x = PInf \<longleftrightarrow> fin_val (Annual_Savings_USD x) \<le> 0)) \<and>
               Payback_yr x =
                 (if fl_less (Fin 0) (Annual_Savings_USD x)
                  then fl_div (Capex_USD x) (Annual_Savings_USD x) else PInf)"
      using f pb fin unfolding x
      by (auto simp: rank_scores_fields[OF i'] sound_row_def finite_row_def simple_payback_def
          split: if_splits)
  qed
next
  show "(rank_options quicksort env a = None) =
            (lat (site (scen a)) \<noteq> None \<and> lon (site (scen a)) \<noteq> None \<and> secrets env = None)"
    by (rule rank_options_None)
qed

theorem option_rows_finite_and_payback_witness:
  "sorts stable_argsort \<and>
   (\<exists>df r. score_options stable_argsort residential_default = Some df \<and> r \<in> set df \<and>
      opt_row.Capex_USD r = Fin 500 \<and> opt_row.Annual_Savings_USD r = Fin 336 \<and>
      Simple_Payback_yr r = Fin (500 / 336)) \<and>
   (\<exists>rows used note r. rank_options stable_argsort no_env c1_args = Some (rows, used, note) \<and>
      r \<in> set rows \<and> Capex_USD r = Fin 12780 \<and> Annual_kWh r = Fin (9979263 / 1250) \<and>
      Annual_Savings_USD r = Fin (89813367 / 62500) \<and>
      Payback_yr r = Fin (12780 / (89813367 / 62500)))"
proof -
  note t = option_rows_finite_and_payback[OF sorts_stable_argsort,
      of residential_default no_env c1_args]
  from option_rows_Some_iff[of residential_default] lcoe_defined_default
  obtain rows0 where "option_rows residential_default = Some rows0" by blast
  then obtain df where df: "score_options stable_argsort residential_default = Some df"
    by (simp add: score_options_def)
  from score_options_cases[OF sorts_stable_argsort df] obtain rows1 where
    r: "option_rows residential_default = Some rows1"
    and m: "mset df = mset (mcda_scores rows1)" by blast
  from option_rows_mode_row[OF r] obtain r1 where
    r1: "r1 \<in> set rows1" "opt_row.Capex_USD r1 = Fin 500"
      "opt_row.Annual_Savings_USD r1 = Fin 336" by blast
  from in_sorted_table[OF m r1(1)] obtain x where
    x: "x \<in> set df" "opt_row.truncate x = r1" by blast
  have xf: "opt_row.Capex_USD x = Fin 500" "opt_row.Annual_Savings_USD x = Fin 336"
    using r1(2,3) unfolding x(2)[symmetric] by (simp_all add: truncate_fields)
  have "Simple_Payback_yr x = Fin (500 / 336)"
    using t df x(1) xf by force
  with df x(1) xf have a: "\<exists>df r. score_options stable_argsort residential_default = Some df \<and>
      r \<in> set df \<and> opt_row.Capex_USD r = Fin 500 \<and> opt_row.Annual_Savings_USD r = Fin 336 \<and>
      Simple_Payback_yr r = Fin (500 / 336)" by blast
  have "lat (site (scen c1_args)) = None" by (simp add: c1_args_def)
  then obtain rows2 used nt where
    s2: "rank_options stable_argsort no_env c1_args = Some (rows2, used, nt)"
    using rank_options_returns[of c1_args no_env stable_argsort] by blast
  from t s2 have u2: "\<forall>r \<in> set rows2.
       (is_fin (Annual_kWh r) \<longrightarrow>
          (fin_val (Annual_Savings_USD r) > 0 \<longrightarrow>
             Payback_yr r = Fin (fin_val (Capex_USD r) / fin_val (Annual_Savings_USD r))))"
    by blast
  from rooftop_row_in_table[OF rank_options_rooftop[OF sorts_stable_argsort s2 rooftop_pv_c1]]
  obtain y where y: "y \<in> set rows2" and yt: "gen_row.truncate y =
      \<lparr>Technology = Rooftop_PV (71 / 10), Type = ''On-site solar'',
           Capex_USD = Fin 12780, Annual_kWh = Fin (9979263 / 1250),
           Load_Covered_pct = Fin (9979263 / 125000),
           Annual_Savings_USD = Fin (89813367 / 62500),
           CO2e_Reduction_tpy = Fin (189605997 / 62500000),
           Notes = Note_rule_of_thumb\<rparr>" by blast
  have yf: "Capex_USD y = Fin 12780" "Annual_Savings_USD y = Fin (89813367 / 62500)"
    "Annual_kWh y = Fin (9979263 / 1250)"
    using truncate_gen_fields(2,4,3)[of y] unfolding yt by simp_all
  have "Payback_yr y = Fin (12780 / (89813367 / 62500))"
    using u2 y yf by force
  with s2 y yf have b: "\<exists>rows used note r.
      rank_options stable_argsort no_env c1_args = Some (rows, used, note) \<and>
      r \<in> set rows \<and> Capex_USD r = Fin 12780 \<and> Annual_kWh r = Fin (9979263 / 1250) \<and>
      Annual_Savings_USD r = Fin (89813367 / 62500) \<and>
      Payback_yr r = Fin (12780 / (89813367 / 62500))" by blast
  show ?thesis using sorts_stable_argsort a b by blast
qed

text \<open>
  The original claim fails for a row estimated with PVWatts. With a key in the secrets
  file and a latitude and longitude given, \<open>_pv_kwh_year\<close> calls PVWatts; for a reply with
  status 200 and \<open>ac_annual\<close> equal to \<open>nan\<close>, \<open>pvwatts_ac_annual\<close> returns
  \<open>float(ac_annual)\<close>, which is NaN, and the rooftop row of the table has NaN annual
  energy, annual savings and CO2 reduction (\<open>min(nan, x)\<close> is \<open>nan\<close>).
\<close>

theorem pvwatts_nan_reply_row_not_finite:
  "map_option (map Technology \<circ> rooftop_rows \<circ> fst)
     (rank_options (np_quicksort stable_argsort) nan_env located_args)
     = Some [Rooftop_PV 7.1] \<and>
   map_option (map Notes \<circ> rooftop_rows \<circ> fst)
     (rank_options (np_quicksort stable_argsort) nan_env located_args)
     = Some [Note_PVWatts] \<and>
   map_option (map Annual_kWh \<circ> rooftop_rows \<circ> fst)
     (rank_options (np_quicksort stable_argsort) nan_env located_args) = Some [NaN] \<and>
   map_option (map Annual_Savings_USD \<circ> rooftop_rows \<circ> fst)
     (rank_options (np_quicksort stable_argsort) nan_env located_args) = Some [NaN] \<and>
   map_option (map CO2e_Reduction_tpy \<circ> rooftop_rows \<circ> fst)
     (rank_options (np_quicksort stable_argsort) nan_env located_args) = Some [NaN] \<and>
   is_fin NaN = False"
proof -
  have q: "sorts (np_quicksort stable_argsort)"
    by (rule sorts_np_quicksort[OF sorts_stable_argsort])
  have "secrets nan_env \<noteq> None" by (simp add: nan_env_def)
  then obtain rows used nt where
    s: "rank_options (np_quicksort stable_argsort) nan_env located_args = Some (rows, used, nt)"
    using rank_options_returns[of located_args nan_env "np_quicksort stable_argsort"] by blast
  note tr = rank_options_rooftop[OF q s rooftop_pv_nan]
  have f: "map f (rooftop_rows rows) = map g (map gen_row.truncate (rooftop_rows rows))"
    if "\<And>r. g (gen_row.truncate r) = f r" for f :: "ranked_row \<Rightarrow> 'b" and g
    using that by simp
  have 1: "map Technology (rooftop_rows rows) = [Rooftop_PV 7.1]"
    by (subst f[of Technology Technology]) (simp_all add: truncate_gen_fields tr)
  have 2: "map Notes (rooftop_rows rows) = [Note_PVWatts]"
    by (subst f[of Notes Notes]) (simp_all add: truncate_gen_fields tr)
  have 3: "map Annual_kWh (rooftop_rows rows) = [NaN]"
    by (subst f[of Annual_kWh Annual_kWh]) (simp_all add: truncate_gen_fields tr)
  have 4: "map Annual_Savings_USD (rooftop_rows rows) = [NaN]"
    by (subst f[of Annual_Savings_USD Annual_Savings_USD]) (simp_all add: truncate_gen_fields tr)
  have 5: "map CO2e_Reduction_tpy (rooftop_rows rows) = [NaN]"
    by (subst f[of CO2e_Reduction_tpy CO2e_Reduction_tpy]) (simp_all add: truncate_gen_fields tr)
  show ?thesis by (simp add: s 1 2 3 4 5)
qed

text \<open>
  Claim C4. Every composite score in a table that \<open>Recommender.score_options\<close> returns
  (\<open>MCDA_Score_0to1\<close>) and in a table that \<open>_rank_options\<close> returns (\<open>Score_0to1\<close>) is a
  number between 0 and 1, for every scenario and every reply of PVWatts; the fixed weights
  of \<open>score_options\<close> sum to 1, and so do the three weights that \<open>_goal_weights\<close> returns
  for any goal.
\<close>

theorem composite_scores_unit_interval:
  assumes "sorts quicksort"
  shows "(\<forall>df. score_options quicksort sc = Some df \<longrightarrow>
            (\<forall>r \<in> set df. \<exists>x. MCDA_Score_0to1 r = Fin x \<and> 0 \<le> x \<and> x \<le> 1)) \<and>
         (\<forall>rows used note. rank_options quicksort env a = Some (rows, used, note) \<longrightarrow>
            (\<forall>r \<in> set rows. \<exists>x. Score_0to1 r = Fin x \<and> 0 \<le> x \<and> x \<le> 1)) \<and>
         w_payback + w_savings + w_co2e + w_practicality = 1 \<and>
         (case goal_weights g of (w_s, w_c, w_p) \<Rightarrow> w_s + w_c + w_p = 1)"
proof (intro conjI allI impI)
  fix df assume s: "score_options quicksort sc = Some df"
  from score_options_cases[OF assms s] obtain rows where
    r: "option_rows sc = Some rows" and m: "mset df = mset (mcda_scores rows)" by blast
  have u: "\<forall>r \<in> set (mcda_scores rows). unit_fl (MCDA_Score_0to1 r)"
    using option_rows_costed[OF r] option_rows_mode_shift[OF r] by (rule mcda_scores_unit)
  show "\<forall>r \<in> set df. \<exists>x. MCDA_Score_0to1 r = Fin x \<and> 0 \<le> x \<and> x \<le> 1"
  proof
    fix x assume "x \<in> set df"
    then have "x \<in> set (mcda_scores rows)" using m by (metis mset_eq_setD)
    with u have "unit_fl (MCDA_Score_0to1 x)" by blast
    then show "\<exists>y. MCDA_Score_0to1 x = Fin y \<and> 0 \<le> y \<and> y \<le> 1"
      by (cases "MCDA_Score_0to1 x") auto
  qed
next
  fix rows used nt assume s: "rank_options quicksort env a = Some (rows, used, nt)"
  from rank_options_cases[OF assms s] obtain gr where
    g: "generation_rows env a = Some (gr, used, nt)"
    and m: "mset rows = mset (rank_scores (goal a) gr)" by blast
  have u: "\<forall>r \<in> set (rank_scores (goal a) gr). unit_fl (Score_0to1 r)"
    by (rule rank_scores_unit)
  show "\<forall>r \<in> set rows. \<exists>x. Score_0to1 r = Fin x \<and> 0 \<le> x \<and> x \<le> 1"
  proof
    fix x assume "x \<in> set rows"
    then have "x \<in> set (rank_scores (goal a) gr)" using m by (metis mset_eq_setD)
    with u have "unit_fl (Score_0to1 x)" by blast
    then show "\<exists>y. Score_0to1 x = Fin y \<and> 0 \<le> y \<and> y \<le> 1"
      by (cases "Score_0to1 x") auto
  qed
next
  show "w_payback + w_savings + w_co2e + w_practicality = 1"
    by (simp add: w_payback_def w_savings_def w_co2e_def w_practicality_def)
next
  show "case goal_weights g of (w_s, w_c, w_p) \<Rightarrow> w_s + w_c + w_p = 1"
    by (simp add: goal_weights_def)
qed

theorem composite_scores_unit_interval_witness:
  "sorts stable_argsort \<and> lcoe_defined residential_default \<and>
   (\<exists>df. score_options stable_argsort residential_default = Some df \<and> df \<noteq> [] \<and>
      (\<exists>x. MCDA_Score_0to1 (hd df) = Fin x \<and> 0 \<le> x \<and> x \<le> 1)) \<and>
   (\<exists>rows used note. rank_options stable_argsort nan_env located_args = Some (rows, used, note) \<and>
      rows \<noteq> [] \<and> (\<exists>x. Score_0to1 (hd rows) = Fin x \<and> 0 \<le> x \<and> x \<le> 1))"
proof -
  note t = composite_scores_unit_interval[OF sorts_stable_argsort,
      of residential_default nan_env located_args "''Balanced''"]
  from option_rows_Some_iff[of residential_default] lcoe_defined_default
  obtain rows0 where r0: "option_rows residential_default = Some rows0" by blast
  then obtain df where df: "score_options stable_argsort residential_default = Some df"
    by (simp add: score_options_def)
  from score_options_cases[OF sorts_stable_argsort df] obtain rows where
    r: "option_rows residential_default = Some rows"
    and m: "mset df = mset (mcda_scores rows)" by blast
  from option_rows_labels[OF r] have "rows \<noteq> []" by auto
  then have "mcda_scores rows \<noteq> []" by (metis length_0_conv length_mcda_scores)
  then have ne: "df \<noteq> []" using m by (metis mset_zero_iff)
  then have "hd df \<in> set df" by simp
  with t df have a: "\<exists>x. MCDA_Score_0to1 (hd df) = Fin x \<and> 0 \<le> x \<and> x \<le> 1" by blast
  have "secrets nan_env \<noteq> None" by (simp add: nan_env_def)
  then obtain rows2 used nt where
    s2: "rank_options stable_argsort nan_env located_args = Some (rows2, used, nt)"
    using rank_options_returns[of located_args nan_env stable_argsort] by blast
  from t s2 have u2: "\<forall>r \<in> set rows2. \<exists>x. Score_0to1 r = Fin x \<and> 0 \<le> x \<and> x \<le> 1"
    by blast
  from rank_options_cases[OF sorts_stable_argsort s2] obtain gr where
    g: "generation_rows nan_env located_args = Some (gr, used, nt)"
    and m2: "mset rows2 = mset (rank_scores (goal located_args) gr)" by blast
  have "gr \<noteq> []" using generation_rows_sound(2)[OF g] by auto
  then have "rank_scores (goal located_args) gr \<noteq> []"
    by (metis length_0_conv length_rank_scores)
  then have ne2: "rows2 \<noteq> []" using m2 by (metis mset_zero_iff)
  then have "hd rows2 \<in> set rows2" by simp
  with u2 have b: "\<exists>x. Score_0to1 (hd rows2) = Fin x \<and> 0 \<le> x \<and> x \<le> 1" by blast
  show ?thesis
    using sorts_stable_argsort lcoe_defined_default df ne a s2 ne2 b by blast
qed

text \<open>
  Claim C1, as the code has it. With no latitude and longitude, an annual load of
  10,000 kWh, a rate of 0.18 USD/kWh, a grid intensity of 0.38 kg/kWh, a target load
  coverage of 80 per cent, tilt 27 degrees, shading 8 per cent and no roof area given,
  the table of \<open>_rank_options\<close> has exactly one rooftop-PV row. It is sized at
  \<open>max(1.0, round(10000/1400, 1)) = 7.1\<close> kWdc; the yield before the tilt and shading
  factors is \<open>7.1 \<times> 300 \<times> 4.2 = 8946\<close> kWh/yr; the tilt factor is
  \<open>1 - min(0.5, |27 - 30| \<times> 0.01) = 0.97\<close> and the shading factor 0.92, so the row's
  annual yield is \<open>8946 \<times> 0.97 \<times> 0.92 = 7983.4104\<close> kWh/yr. That is below the cap of
  8,000 kWh, so the useful energy is 7983.4104 kWh, the annual savings are
  \<open>7983.4104 \<times> 0.18 = 1437.013872\<close> USD and the CO2 reduction is
  \<open>7983.4104 \<times> 0.38 / 1000 = 3.033695952\<close> t/yr.
\<close>

theorem rooftop_pv_rule_of_thumb_scenario:
  assumes "sorts quicksort"
    and "lat (site (scen a)) = None" and "lon (site (scen a)) = None"
    and "annual_electricity_kwh (site (scen a)) = Some 10000"
    and "elec_rate_usd_per_kwh (scen a) = 0.18"
    and "grid_emissions_kgco2e_per_kwh (scen a) = 0.38"
    and "target_load_pct a = 80" and "tilt a = 27" and "shading a = 8"
    and "roof_area_m2 a = None"
  shows "\<exists>rows used note.
           rank_options quicksort env a = Some (rows, used, note) \<and>
           map Technology (rooftop_rows rows) = [Rooftop_PV 7.1] \<and>
           map Annual_kWh (rooftop_rows rows) = [Fin (7.1 * 300 * 4.2 * 0.97 * 0.92)] \<and>
           map Load_Covered_pct (rooftop_rows rows) = [Fin (7983.4104 / 10000 * 100)] \<and>
           map Annual_Savings_USD (rooftop_rows rows) = [Fin (7983.4104 * 0.18)] \<and>
           map CO2e_Reduction_tpy (rooftop_rows rows) = [Fin (7983.4104 * 0.38 / 1000)] \<and>
           max 1 (py_round1 (10000 / 1400)) = 7.1 \<and>
           (7.1 * 300 * 4.2 :: real) = 8946 \<and>
           (1 - min 0.5 (\<bar>27 - 30\<bar> * 0.01) :: real) = 0.97 \<and>
           (8946 * 0.97 * 0.92 :: real) = 7983.4104 \<and>
           min (7983.4104 :: real) (10000 * (80 / 100)) = 7983.4104 \<and>
           (7983.4104 * 0.18 :: real) = 1437.013872 \<and>
           (7983.4104 * 0.38 / 1000 :: real) = 3.033695952"
proof -
  have kw: "kw_roof_of a = 71 / 10"
    using assms(4,10)
    by (simp add: kw_roof_of_def annual_kwh_of_def py_or_def py_round1_def
        round_half_even_def Let_def)
  have roof: "rooftop_pv env a =
     Some (\<lparr>Technology = Rooftop_PV (71 / 10), Type = ''On-site solar'',
             Capex_USD = Fin (71 / 10 * pv_rooftop_cost_kw a), Annual_kWh = Fin (9979263 / 1250),
             Load_Covered_pct = Fin (9979263 / 125000),
             Annual_Savings_USD = Fin (89813367 / 62500),
             CO2e_Reduction_tpy = Fin (189605997 / 62500000),
             Notes = Note_rule_of_thumb\<rparr>, Fin (9979263 / 1250), False, None)"
    using assms(2-9)
    by (simp add: rooftop_pv_def Let_def kw pv_kwh_year_no_location py_fdiv_def py_min_def
        annual_kwh_of_def grid_kg_per_kwh_of_def py_or_def)
  from assms(2) rank_options_returns[of a env quicksort] obtain rows used nt where
    s: "rank_options quicksort env a = Some (rows, used, nt)" by blast
  note tr = rank_options_rooftop[OF assms(1) s roof]
  have f: "map f (rooftop_rows rows) = map g (map gen_row.truncate (rooftop_rows rows))"
    if "\<And>r. g (gen_row.truncate r) = f r" for f :: "ranked_row \<Rightarrow> 'b" and g
    using that by simp
  have 1: "map Technology (rooftop_rows rows) = [Rooftop_PV 7.1]"
    by (subst f[of Technology Technology]) (simp_all add: truncate_gen_fields tr)
  have 2: "map Annual_kWh (rooftop_rows rows) = [Fin (7.1 * 300 * 4.2 * 0.97 * 0.92)]"
    by (subst f[of Annual_kWh Annual_kWh]) (simp_all add: truncate_gen_fields tr)
  have 3: "map Load_Covered_pct (rooftop_rows rows) = [Fin (7983.4104 / 10000 * 100)]"
    by (subst f[of Load_Covered_pct Load_Covered_pct]) (simp_all add: truncate_gen_fields tr)
  have 4: "map Annual_Savings_USD (rooftop_rows rows) = [Fin (7983.4104 * 0.18)]"
    by (subst f[of Annual_Savings_USD Annual_Savings_USD]) (simp_all add: truncate_gen_fields tr)
  have 5: "map CO2e_Reduction_tpy (rooftop_rows rows) = [Fin (7983.4104 * 0.38 / 1000)]"
    by (subst f[of CO2e_Reduction_tpy CO2e_Reduction_tpy]) (simp_all add: truncate_gen_fields tr)
  have 6: "max 1 (py_round1 (10000 / 1400)) = (7.1 :: real)"
    by (simp add: py_round1_def round_half_even_def Let_def)
  have 7: "(7.1 * 300 * 4.2 :: real) = 8946"
    "(1 - min 0.5 (\<bar>27 - 30\<bar> * 0.01) :: real) = 0.97"
    "(8946 * 0.97 * 0.92 :: real) = 7983.4104"
    "min (7983.4104 :: real) (10000 * (80 / 100)) = 7983.4104"
    "(7983.4104 * 0.18 :: real) = 1437.013872"
    "(7983.4104 * 0.38 / 1000 :: real) = 3.033695952"
    by simp_all
  show ?thesis
    by (intro exI[of _ rows] exI[of _ used] exI[of _ nt] conjI s 1 2 3 4 5 6 7)
qed

theorem rooftop_pv_rule_of_thumb_scenario_witness:
  "sorts stable_argsort \<and>
   (\<exists>rows used note. rank_options stable_argsort no_env c1_args = Some (rows, used, note) \<and>
      map Annual_kWh (rooftop_rows rows) = [Fin 7983.4104] \<and>
      map Annual_Savings_USD (rooftop_rows rows) = [Fin 1437.013872] \<and>
      map CO2e_Reduction_tpy (rooftop_rows rows) = [Fin 3.033695952])"
proof -
  from rooftop_pv_rule_of_thumb_scenario[OF sorts_stable_argsort, of c1_args no_env]
  obtain rows used nt where
    "rank_options stable_argsort no_env c1_args = Some (rows, used, nt)"
    "map Annual_kWh (rooftop_rows rows) = [Fin (7.1 * 300 * 4.2 * 0.97 * 0.92)]"
    "map Annual_Savings_USD (rooftop_rows rows) = [Fin (7983.4104 * 0.18)]"
    "map CO2e_Reduction_tpy (rooftop_rows rows) = [Fin (7983.4104 * 0.38 / 1000)]"
    by (auto simp: c1_args_def)
  then show ?thesis using sorts_stable_argsort by auto
qed

text \<open>
  Claim C1 as the specification states it fails: it takes the tilt factor at 27 degrees
  to be 1, so that the yield of about 8,230 kWh would be capped at 8,000 kWh. The code's
  tilt factor is 0.97: the rooftop row of the scenario has a yield of 7983.4104 kWh/yr,
  which is below the cap, savings of 1437.013872 USD (not 1,440) and a CO2 reduction of
  3.033695952 t/yr (not 3.04).
\<close>

theorem rooftop_pv_scenario_not_capped:
  "map_option (map Annual_kWh \<circ> rooftop_rows \<circ> fst)
     (rank_options stable_argsort no_env c1_args) = Some [Fin 7983.4104] \<and>
   (7983.4104 :: real) < 8000 \<and>
   map_option (map Annual_Savings_USD \<circ> rooftop_rows \<circ> fst)
     (rank_options stable_argsort no_env c1_args) = Some [Fin 1437.013872] \<and>
   (1437.013872 :: real) \<noteq> 1440 \<and>
   map_option (map CO2e_Reduction_tpy \<circ> rooftop_rows \<circ> fst)
     (rank_options stable_argsort no_env c1_args) = Some [Fin 3.033695952] \<and>
   (3.033695952 :: real) \<noteq> 3.04"
proof -
  have "lat (site (scen c1_args)) = None" by (simp add: c1_args_def)
  with rank_options_returns[of c1_args no_env stable_argsort] obtain rows used nt where
    s: "rank_options stable_argsort no_env c1_args = Some (rows, used, nt)" by blast
  note tr = rank_options_rooftop[OF sorts_stable_argsort s rooftop_pv_c1]
  have f: "map f (rooftop_rows rows) = map g (map gen_row.truncate (rooftop_rows rows))"
    if "\<And>r. g (gen_row.truncate r) = f r" for f :: "ranked_row \<Rightarrow> 'b" and g
    using that by simp
  have 2: "map Annual_kWh (rooftop_rows rows) = [Fin 7983.4104]"
    by (subst f[of Annual_kWh Annual_kWh]) (simp_all add: truncate_gen_fields tr)
  have 4: "map Annual_Savings_USD (rooftop_rows rows) = [Fin 1437.013872]"
    by (subst f[of Annual_Savings_USD Annual_Savings_USD]) (simp_all add: truncate_gen_fields tr)
  have 5: "map CO2e_Reduction_tpy (rooftop_rows rows) = [Fin 3.033695952]"
    by (subst f[of CO2e_Reduction_tpy CO2e_Reduction_tpy]) (simp_all add: truncate_gen_fields tr)
  show ?thesis by (simp add: s 2 4 5)
qed





lemma get_v2_price_not_numeric:
  "get_v2 price_not_numeric eia_with_key ''electricity/retail-sales/data'' params =
     (Some (JObj [(''total'', JStr ''1''),
              (''data'', JArr [JObj [(''period'', JStr ''2023''), (''stateid'', JStr ''MI''),
                                     (''price'', JStr ''NA'')]])]),
      eia_with_key\<lparr>last_url := Some ''https://api.eia.gov/v2/electricity/retail-sales/data''\<rparr>)"
  by (simp add: get_v2_def eia_with_key_def eia_available_def Let_def price_not_numeric_def
      get_v2_request_def raise_for_status_def resp_json_def bind_exn_def normalize_v2_payload_def
      int_of_string_def strip_def is_space_def split_sign_def digitpart_def digit_of_def
      digits_value_def base_v2_def lstrip_slash_def)

lemma float_of_string_NA: "float_of_string ''NA'' = None"
  by (simp add: float_of_string_def strip_def is_space_def split_sign_def lower_def
      lower_char_def Let_def floatnumber_def number_def digitpart_def digit_of_def)

text \<open>
  Claim C9 at a failing input. With an API key, and a reply of status 200 whose one record
  has the price \<open>NA\<close>, \<open>_get_v2\<close> returns the payload, and \<open>fetch_retail_price\<close> converts
  the price column with \<open>astype(float)\<close> outside any \<open>try\<close>: the \<open>ValueError\<close> reaches the
  caller, also through \<open>fetch_series\<close>. \<open>NRELClient.pvwatts_ac_annual\<close> converts inside its
  \<open>try\<close>: for an \<open>ac_annual\<close> of \<open>NA\<close> it returns \<open>None\<close> and records the exception in
  \<open>last_error\<close>.
\<close>

theorem fetch_retail_price_non_numeric_raises:
  "fst (fetch_retail_price price_not_numeric eia_with_key 2023 ''MI'' ''total'') = Inl ValueError \<and>
   fst (fetch_series price_not_numeric eia_with_key 2023 ''MI'' ''electricity'' ''price''
          ''total'' ''annual'') = Inl ValueError \<and>
   pvwatts_ac_annual ac_annual_not_numeric nrel_with_key 42.28 (- 83.74) 7.1 27 180 1 1 14
     = (None, nrel_with_key\<lparr>NRELClient.last_error :=
                               Some (Exception_calling_PVWatts ValueError)\<rparr>)"
proof -
  have a: "fst (fetch_retail_price price_not_numeric eia_with_key 2023 ''MI'' ''total'')
             = Inl ValueError"
    by (simp add: fetch_retail_price_def Let_def get_v2_price_not_numeric bind_exn_def
        pd_DataFrame_def has_column_def cell_def cell_float_def float_of_string_NA)
  have l: "lower ''electricity'' = ''electricity''" "lower ''price'' = ''price''"
    by (simp_all add: lower_def lower_char_def Let_def)
  have b: "fst (fetch_series price_not_numeric eia_with_key 2023 ''MI'' ''electricity'' ''price''
          ''total'' ''annual'') = Inl ValueError"
    using a l by (simp add: fetch_series_def Let_def)
  have t: "pvwatts_try (ac_annual_not_numeric url params) = Inl ValueError" for url params
    by (simp add: pvwatts_try_def ac_annual_not_numeric_def raise_for_status_def resp_json_def
        bind_exn_def float_of_string_NA)
  have c: "pvwatts_ac_annual ac_annual_not_numeric nrel_with_key 42.28 (- 83.74) 7.1 27 180 1 1 14
     = (None, nrel_with_key\<lparr>NRELClient.last_error :=
                               Some (Exception_calling_PVWatts ValueError)\<rparr>)"
    by (simp add: pvwatts_ac_annual_def Let_def nrel_available_def nrel_with_key_def t)
  show ?thesis by (intro conjI a b c)
qed

text \<open>
  Claim C2, as the code has it. \<open>_rank_options\<close> clips the annual-savings column and the
  CO2-reduction column below at 0 and divides each entry by the maximum of the clipped
  column; when that maximum is zero, every entry of the normalised column is zero (for a
  column with no NaN entry: the normalised column is then the specification's
  \<open>divide_by_column_max\<close> of the clipped column). \<open>Recommender.score_options\<close> does not
  divide by the maximum: its \<open>norm_max\<close> scales each of the two columns to
  \<open>(x - min) / (max - min + 1e-9)\<close>.
\<close>

theorem benefit_columns_normalised:
  assumes "sorts quicksort"
  shows "(NaN \<notin> set (map Annual_Savings_USD df) \<longrightarrow>
            rank_norm_s df
              = divide_by_column_max (clip_lower (Fin 0) (map Annual_Savings_USD df))) \<and>
         (NaN \<notin> set (map CO2e_Reduction_tpy df) \<longrightarrow>
            rank_norm_c df
              = divide_by_column_max (clip_lower (Fin 0) (map CO2e_Reduction_tpy df))) \<and>
         (\<forall>table. score_options quicksort sc = Some table \<longrightarrow>
            (\<exists>rows. option_rows sc = Some rows \<and> mset table = mset (mcda_scores rows) \<and>
               map score_savings (mcda_scores rows)
                 = map (\<lambda>v. fl_div (fl_sub v (col_min (map opt_row.Annual_Savings_USD rows)))
                          (fl_add (fl_sub (col_max (map opt_row.Annual_Savings_USD rows))
                                          (col_min (map opt_row.Annual_Savings_USD rows)))
                                  (Fin (1 / 10 ^ 9))))
                     (map opt_row.Annual_Savings_USD rows) \<and>
               map score_co2e (mcda_scores rows)
                 = map (\<lambda>v. fl_div (fl_sub v (col_min (map opt_row.CO2e_Reduction_tpy rows)))
                          (fl_add (fl_sub (col_max (map opt_row.CO2e_Reduction_tpy rows))
                                          (col_min (map opt_row.CO2e_Reduction_tpy rows)))
                                  (Fin (1 / 10 ^ 9))))
                     (map opt_row.CO2e_Reduction_tpy rows)))"
proof (intro conjI allI impI)
  assume "NaN \<notin> set (map Annual_Savings_USD df)"
  then show "rank_norm_s df
      = divide_by_column_max (clip_lower (Fin 0) (map Annual_Savings_USD df))"
    by (rule rank_norm_s_refines)
next
  assume "NaN \<notin> set (map CO2e_Reduction_tpy df)"
  then show "rank_norm_c df
      = divide_by_column_max (clip_lower (Fin 0) (map CO2e_Reduction_tpy df))"
    by (rule rank_norm_c_refines)
next
  fix table assume s: "score_options quicksort sc = Some table"
  from score_options_cases[OF assms s] obtain rows where
    r: "option_rows sc = Some rows" and m: "mset table = mset (mcda_scores rows)" by blast
  note c = mcda_scores_columns[OF option_rows_costed[OF r], unfolded norm_max_def]
  show "\<exists>rows. option_rows sc = Some rows \<and> mset table = mset (mcda_scores rows) \<and>
               map score_savings (mcda_scores rows)
                 = map (\<lambda>v. fl_div (fl_sub v (col_min (map opt_row.Annual_Savings_USD rows)))
                          (fl_add (fl_sub (col_max (map opt_row.Annual_Savings_USD rows))
                                          (col_min (map opt_row.Annual_Savings_USD rows)))
                                  (Fin (1 / 10 ^ 9))))
                     (map opt_row.Annual_Savings_USD rows) \<and>
               map score_co2e (mcda_scores rows)
                 = map (\<lambda>v. fl_div (fl_sub v (col_min (map opt_row.CO2e_Reduction_tpy rows)))
                          (fl_add (fl_sub (col_max (map opt_row.CO2e_Reduction_tpy rows))
                                          (col_min (map opt_row.CO2e_Reduction_tpy rows)))
                                  (Fin (1 / 10 ^ 9))))
                     (map opt_row.CO2e_Reduction_tpy rows)"
    by (intro exI[of _ rows] conjI r m c)
qed

theorem benefit_columns_normalised_witness:
  "sorts stable_argsort \<and>
   map Annual_Savings_USD zero_gen_rows = [Fin 0, Fin 0] \<and>
   rank_norm_s zero_gen_rows = [Fin 0, Fin 0] \<and>
   map CO2e_Reduction_tpy zero_gen_rows = [Fin 0, Fin 0] \<and>
   rank_norm_c zero_gen_rows = [Fin 0, Fin 0] \<and>
   (\<exists>table rows. score_options stable_argsort residential_default = Some table \<and>
      option_rows residential_default = Some rows \<and>
      map opt_row.Annual_Savings_USD rows = [Fin 1610.28, Fin 144, Fin 216, Fin 1032, Fin 336] \<and>
      map score_savings (mcda_scores rows) ! 1 = Fin 0)"
proof -
  note t = benefit_columns_normalised[OF sorts_stable_argsort, of zero_gen_rows
      residential_default]
  have z: "map Annual_Savings_USD zero_gen_rows = [Fin 0, Fin 0]"
    "map CO2e_Reduction_tpy zero_gen_rows = [Fin 0, Fin 0]"
    by (simp_all add: zero_gen_rows_def)
  have cm: "col_max [Fin 0, Fin 0] = Fin 0"
    by (simp add: col_max_def isna_def fl_max2_def)
  have d: "divide_by_column_max (clip_lower (Fin 0) [Fin 0, Fin 0]) = [Fin 0, Fin 0]"
    by (simp add: divide_by_column_max_def clip_lower_def cm)
  from t have a: "rank_norm_s zero_gen_rows = [Fin 0, Fin 0]"
    and b: "rank_norm_c zero_gen_rows = [Fin 0, Fin 0]"
    unfolding z d by simp_all
  from option_rows_Some_iff[of residential_default] lcoe_defined_default
  obtain rows0 where "option_rows residential_default = Some rows0" by blast
  then obtain table where
    df: "score_options stable_argsort residential_default = Some table"
    by (simp add: score_options_def)
  with t obtain rows where r: "option_rows residential_default = Some rows"
    and sv: "map score_savings (mcda_scores rows)
                 = map (\<lambda>v. fl_div (fl_sub v (col_min (map opt_row.Annual_Savings_USD rows)))
                          (fl_add (fl_sub (col_max (map opt_row.Annual_Savings_USD rows))
                                          (col_min (map opt_row.Annual_Savings_USD rows)))
                                  (Fin (1 / 10 ^ 9))))
                     (map opt_row.Annual_Savings_USD rows)" by blast
  note col = option_rows_savings_default[OF r]
  have "map score_savings (mcda_scores rows) ! 1 = Fin 0"
    unfolding sv col savings_column_default by (simp add: fl_sub_def)
  with df r col have c: "\<exists>table rows.
      score_options stable_argsort residential_default = Some table \<and>
      option_rows residential_default = Some rows \<and>
      map opt_row.Annual_Savings_USD rows = [Fin 1610.28, Fin 144, Fin 216, Fin 1032, Fin 336] \<and>
      map score_savings (mcda_scores rows) ! 1 = Fin 0"
    by (intro exI[of _ table] exI[of _ rows] conjI)
  show ?thesis using sorts_stable_argsort z a b c by blast
qed

text \<open>
  The original claim fails in both functions. In the default residential scenario of
  \<open>score_options\<close> the savings column is 1610.28, 144, 216, 1032, 336: the efficiency row
  of the returned table has savings 144 and a normalised value \<open>score_savings\<close> of 0, where
  division by the column maximum gives 144 / 1610.28. In the scenario of claim C1,
  \<open>_rank_options\<close> has the savings column 1437.013872, 72, -40 and normalises it to
  1, 72 / 1437.013872, 0: the negative entry is clipped, where division by the column
  maximum gives -40 / 1437.013872.
\<close>

theorem benefit_columns_not_divided_by_max:
  "map_option (map opt_row.Annual_Savings_USD) (option_rows residential_default)
     = Some [Fin 1610.28, Fin 144, Fin 216, Fin 1032, Fin 336] \<and>
   map_option (map opt_row.Annual_Savings_USD \<circ> efficiency_rows)
     (score_options (np_quicksort stable_argsort) residential_default) = Some [Fin 144] \<and>
   map_option (map score_savings \<circ> efficiency_rows)
     (score_options (np_quicksort stable_argsort) residential_default) = Some [Fin 0] \<and>
   divide_by_column_max [Fin 1610.28, Fin 144, Fin 216, Fin 1032, Fin 336]
     = [Fin 1, Fin (144 / 1610.28), Fin (216 / 1610.28), Fin (1032 / 1610.28),
        Fin (336 / 1610.28)] \<and>
   (144 / 1610.28 :: real) \<noteq> 0 \<and>
   map_option (map Annual_Savings_USD \<circ> fst) (generation_rows no_env c1_args)
     = Some [Fin 1437.013872, Fin 72, Fin (- 40)] \<and>
   map_option (rank_norm_s \<circ> fst) (generation_rows no_env c1_args)
     = Some [Fin 1, Fin (72 / 1437.013872), Fin 0] \<and>
   divide_by_column_max [Fin 1437.013872, Fin 72, Fin (- 40)]
     = [Fin 1, Fin (72 / 1437.013872), Fin (- 40 / 1437.013872)] \<and>
   (- 40 / 1437.013872 :: real) \<noteq> 0"
proof -
  let ?q = "np_quicksort stable_argsort"
  have q: "sorts ?q" by (rule sorts_np_quicksort[OF sorts_stable_argsort])
  from option_rows_Some_iff[of residential_default] lcoe_defined_default
  obtain rows where r: "option_rows residential_default = Some rows" by blast
  then obtain table where df: "score_options ?q residential_default = Some table"
    by (simp add: score_options_def)
  from score_options_cases[OF q df] r have
    m: "mset table = mset (mcda_scores rows)" by auto
  note col = option_rows_savings_default[OF r]
  from option_rows_labels_default[OF r] obtain k where
    lab: "map Option rows = [Solar_PV k, Efficiency_LED_HVAC, Heat_Pump_Water_Heater,
           Transport_EV, Transport_mode_shift]" by auto
  then have "length (map Option rows) = 5" by simp
  then have len: "length rows = 5" by simp
  let ?M = "mcda_scores rows"
  have opt: "map Option ?M = map Option rows"
    by (rule nth_equalityI) (simp_all add: mcda_scores_nth[symmetric] truncate_fields)
  have sav: "map opt_row.Annual_Savings_USD ?M = map opt_row.Annual_Savings_USD rows"
    by (rule nth_equalityI) (simp_all add: mcda_scores_nth[symmetric] truncate_fields)
  have sc: "map score_savings ?M = norm_max (map opt_row.Annual_Savings_USD rows)"
    by (rule mcda_scores_columns(1)[OF option_rows_costed[OF r]])
  have five: "\<exists>a b c d e. xs = [a, b, c, d, e]" if "length xs = 5" for xs :: "scored_row list"
    using that by (auto simp: eval_nat_numeral length_Suc_conv)
  have "length ?M = 5" using len by simp
  from five[OF this] obtain a b c d e where M: "?M = [a, b, c, d, e]" by blast
  have f: "efficiency_rows ?M = [b]"
    using opt unfolding M lab by (simp add: efficiency_rows_def)
  have fb: "opt_row.Annual_Savings_USD b = Fin 144"
    using sav unfolding M col by simp
  have sb: "score_savings b = Fin 0"
    using sc unfolding M col norm_max_def savings_column_default by (simp add: fl_sub_def)
  have ft: "efficiency_rows table = [b]"
    unfolding efficiency_rows_def
    by (rule filter_single_mset[OF m]) (simp add: f[unfolded efficiency_rows_def])
  have 1: "map_option (map opt_row.Annual_Savings_USD) (option_rows residential_default)
     = Some [Fin 1610.28, Fin 144, Fin 216, Fin 1032, Fin 336]"
    by (simp add: r col)
  have 2: "map_option (map opt_row.Annual_Savings_USD \<circ> efficiency_rows)
     (score_options ?q residential_default) = Some [Fin 144]"
    by (simp add: df ft fb)
  have 3: "map_option (map score_savings \<circ> efficiency_rows)
     (score_options ?q residential_default) = Some [Fin 0]"
    by (simp add: df ft sb)
  have 4: "divide_by_column_max [Fin 1610.28, Fin 144, Fin 216, Fin 1032, Fin 336]
     = [Fin 1, Fin (144 / 1610.28), Fin (216 / 1610.28), Fin (1032 / 1610.28),
        Fin (336 / 1610.28)]"
    unfolding divide_by_column_max_def savings_column_default by simp
  have 5: "(144 / 1610.28 :: real) \<noteq> 0" by simp
  have 6: "map_option (map Annual_Savings_USD \<circ> fst) (generation_rows no_env c1_args)
     = Some [Fin 1437.013872, Fin 72, Fin (- 40)]"
    by (simp add: generation_rows_c1)
  have 7: "map_option (rank_norm_s \<circ> fst) (generation_rows no_env c1_args)
     = Some [Fin 1, Fin (72 / 1437.013872), Fin 0]"
    by (simp add: generation_rows_c1 rank_norm_s_c1)
  have cm: "col_max [Fin 1437.013872, Fin 72, Fin (- 40)] = Fin 1437.013872"
    by (simp add: col_max_def isna_def fl_max2_def)
  have 8: "divide_by_column_max [Fin 1437.013872, Fin 72, Fin (- 40)]
     = [Fin 1, Fin (72 / 1437.013872), Fin (- 40 / 1437.013872)]"
    unfolding divide_by_column_max_def cm by simp
  have 9: "(- 40 / 1437.013872 :: real) \<noteq> 0" by simp
  show ?thesis by (intro conjI 1 2 3 4 5 6 7 8 9)
qed

end
